theory Spec2Isabelle
  imports Complex_Main "HOL-Library.Monad_Syntax" "HOL-Library.Multiset"
begin

section \<open>Conventions of the embedding\<close>

text \<open>
  The development embeds the parts of the openGA engine (\<^verbatim>\<open>openGA.hpp\<close>, \<^verbatim>\<open>Matrix.hpp\<close>)
  that the verified properties are about.

  \<^item> A C++ \<^verbatim>\<open>double\<close> is a \<^typ>\<open>real\<close>: rounding, infinities and NaN are not represented, so
    every statement about costs, chances and distances is a statement about exact arithmetic.
  \<^item> \<^verbatim>\<open>int\<close> is \<^typ>\<open>int\<close> and \<^verbatim>\<open>unsigned int\<close> is \<^typ>\<open>nat\<close>; the places where the 32-bit
    wrap-around is visible write it out (\<open>mod 2 ^ 32\<close>, \<open>uint\<close>, \<open>to_int\<close>).
  \<^item> A \<^verbatim>\<open>throw runtime_error(msg)\<close> is the value \<open>Inl (Runtime_error msg)\<close>, a failed
    \<^verbatim>\<open>assert\<close> is \<open>Inl (Assertion_failed msg)\<close>.
  \<^item> An out-of-range access of a \<^verbatim>\<open>std::vector\<close> is undefined behaviour in C++; the model
    returns \<open>None\<close> (or \<open>Inl Out_of_range\<close> where the function can also throw) there, and
    \<open>None\<close> is also the value of a loop that does not return.
\<close>

datatype error = Runtime_error string | Assertion_failed string | Out_of_range

definition vec_at :: "'a list \<Rightarrow> int \<Rightarrow> 'a option" where
  \<comment> \<open>\<^verbatim>\<open>v[i]\<close> of a \<^verbatim>\<open>std::vector\<close>\<close>
  "vec_at v i = (if 0 \<le> i \<and> i < int (length v) then Some (v ! nat i) else None)"

section \<open>The dense matrix of \<^verbatim>\<open>Matrix.hpp\<close>\<close>

record 'a Matrix =
  n_rows :: nat
  n_cols :: nat
  data :: "'a list"

definition get_n_rows :: "'a Matrix \<Rightarrow> nat" where
  "get_n_rows m = n_rows m"

definition get_n_cols :: "'a Matrix \<Rightarrow> nat" where
  "get_n_cols m = n_cols m"

definition empty_Matrix :: "'a Matrix \<Rightarrow> bool" where
  \<comment> \<open>\<^verbatim>\<open>empty()\<close>: \<^verbatim>\<open>data.empty()\<close>\<close>
  "empty_Matrix m = (data m = [])"

definition elem_index :: "'a Matrix \<Rightarrow> nat \<Rightarrow> nat \<Rightarrow> nat" where
  \<comment> \<open>\<^verbatim>\<open>row * n_cols + col\<close>, computed in \<^verbatim>\<open>unsigned int\<close>\<close>
  "elem_index m row col = (row * n_cols m + col) mod 2 ^ 32"

definition elem :: "'a Matrix \<Rightarrow> nat \<Rightarrow> nat \<Rightarrow> 'a option" where
  \<comment> \<open>\<^verbatim>\<open>operator()(row, col)\<close> as a read: \<^verbatim>\<open>data[row * n_cols + col]\<close>\<close>
  "elem m row col =
     (let k = elem_index m row col in if k < length (data m) then Some (data m ! k) else None)"

text \<open>What \<^verbatim>\<open>print\<close> writes to \<^verbatim>\<open>cout\<close>: a tab before every element, \<^verbatim>\<open>endl\<close> after every row.\<close>

datatype 'a out_item = Tab | Val 'a | Endl

fun print_cols :: "'a Matrix \<Rightarrow> nat \<Rightarrow> nat list \<Rightarrow> 'a out_item list option" where
  "print_cols m i [] = Some []"
| "print_cols m i (j # js) =
     (case elem m i j of
        None \<Rightarrow> None
      | Some v \<Rightarrow> (case print_cols m i js of None \<Rightarrow> None | Some out \<Rightarrow> Some (Tab # Val v # out)))"

fun print_rows :: "'a Matrix \<Rightarrow> nat list \<Rightarrow> 'a out_item list option" where
  "print_rows m [] = Some []"
| "print_rows m (i # is) =
     (case print_cols m i [0..<n_cols m] of
        None \<Rightarrow> None
      | Some line \<Rightarrow> (case print_rows m is of None \<Rightarrow> None | Some out \<Rightarrow> Some (line @ Endl # out)))"

definition print :: "'a Matrix \<Rightarrow> ('a out_item list \<times> 'a Matrix) option" where
  \<comment> \<open>the two loops over \<open>i < n_rows\<close>, \<open>j < n_cols\<close>, then \<^verbatim>\<open>data.clear()\<close>\<close>
  "print m =
     (case print_rows m [0..<n_rows m] of
        None \<Rightarrow> None
      | Some out \<Rightarrow> Some (out, m\<lparr>data := []\<rparr>))"

text \<open>
  The writes of the matrix: \<^verbatim>\<open>operator()(row, col) = x\<close>, \<^verbatim>\<open>std::vector::resize\<close>, and the
  assignment from a vector of vectors (\<^verbatim>\<open>operator=\<close>), whose inner loop copies \<^verbatim>\<open>A[i][j]\<close> to
  \<^verbatim>\<open>(*this)(i, j)\<close> after the assertion on the row size.
\<close>

definition Matrix0 :: "'a Matrix" where
  \<comment> \<open>the default constructor\<close>
  "Matrix0 = \<lparr>n_rows = 0, n_cols = 0, data = []\<rparr>"

definition set_elem :: "'a Matrix \<Rightarrow> nat \<Rightarrow> nat \<Rightarrow> 'a \<Rightarrow> 'a Matrix option" where
  "set_elem m row col x =
     (let k = elem_index m row col
      in if k < length (data m) then Some (m\<lparr>data := (data m)[k := x]\<rparr>) else None)"

definition resize :: "'a list \<Rightarrow> nat \<Rightarrow> 'a \<Rightarrow> 'a list" where
  "resize v n d = take n v @ replicate (n - length v) d"

fun assign_cols :: "'a Matrix \<Rightarrow> 'a list \<Rightarrow> nat \<Rightarrow> nat list \<Rightarrow> 'a Matrix option" where
  "assign_cols m Ai i [] = Some m"
| "assign_cols m Ai i (j # js) =
     (case vec_at Ai (int j) of
        None \<Rightarrow> None
      | Some x \<Rightarrow> (case set_elem m i j x of None \<Rightarrow> None | Some m' \<Rightarrow> assign_cols m' Ai i js))"

fun assign_rows :: "'a Matrix \<Rightarrow> 'a list list \<Rightarrow> nat \<Rightarrow> nat list \<Rightarrow> error + 'a Matrix" where
  "assign_rows m A A_cols [] = Inr m"
| "assign_rows m A A_cols (i # is) =
     (case vec_at A (int i) of
        None \<Rightarrow> Inl Out_of_range
      | Some Ai \<Rightarrow>
          if length Ai \<noteq> A_cols
          then Inl (Assertion_failed ''Vector of vector does not have a constant row size! A21654616'')
          else (case assign_cols m Ai i [0..<n_cols m] of
                  None \<Rightarrow> Inl Out_of_range
                | Some m' \<Rightarrow> assign_rows m' A A_cols is))"

definition assign :: "'a::zero Matrix \<Rightarrow> 'a list list \<Rightarrow> error + 'a Matrix" where
  "assign m A =
     (let A_rows = length A mod 2 ^ 32;
          A_cols = (if A_rows > 0 then length (A ! 0) mod 2 ^ 32 else 0);
          m1 = m\<lparr>n_rows := A_rows, n_cols := A_cols\<rparr>
      in if A_rows > 0 \<and> A_cols > 0
         then assign_rows (m1\<lparr>data := resize (data m1) ((A_rows * A_cols) mod 2 ^ 32) 0\<rparr>)
                A A_cols [0..<A_rows]
         else Inr (m1\<lparr>data := []\<rparr>))"

fun get_row_cols :: "'a Matrix \<Rightarrow> nat \<Rightarrow> nat list \<Rightarrow> 'a list option" where
  "get_row_cols m i [] = Some []"
| "get_row_cols m i (j # js) =
     (case elem m i j of
        None \<Rightarrow> None
      | Some x \<Rightarrow> (case get_row_cols m i js of None \<Rightarrow> None | Some xs \<Rightarrow> Some (x # xs)))"

definition get_row :: "'a Matrix \<Rightarrow> nat \<Rightarrow> 'a list option" where
  \<comment> \<open>\<^verbatim>\<open>get_row(row_idx, row_vector)\<close>: the vector it fills\<close>
  "get_row m row_idx = get_row_cols m row_idx [0..<n_cols m]"

section \<open>Chromosomes and Pareto dominance\<close>

record ('g, 'm) ChromosomeType =
  genes :: 'g
  middle_costs :: 'm
  total_cost :: real
  objectives :: "real list"

definition dominates :: "('g, 'm) ChromosomeType \<Rightarrow> ('g, 'm) ChromosomeType \<Rightarrow> error + bool" where
  \<comment> \<open>the size check, the loop that returns false at the first \<open>a[i] > b[i]\<close>, the loop that
      returns true at the first \<open>a[i] < b[i]\<close>, and the final \<^verbatim>\<open>return false\<close>\<close>
  "dominates a b =
     (if length (objectives a) \<noteq> length (objectives b)
      then Inl (Runtime_error ''vector size mismatch A73592753!'')
      else if list_ex (\<lambda>i. objectives a ! i > objectives b ! i) [0..<length (objectives a)]
      then Inr False
      else if list_ex (\<lambda>i. objectives a ! i < objectives b ! i) [0..<length (objectives a)]
      then Inr True
      else Inr False)"

section \<open>Reference vectors\<close>

text \<open>
  \<^verbatim>\<open>generate_integerReferenceVectors\<close> recurses on \<open>dept\<close>; its loop over \<open>i = 0 .. N_division\<close>
  appends, for every vector \<open>v1\<close> of the recursive result, the vector \<open>v2\<close> with \<open>v2[0] = i\<close>
  and \<open>v2[k + 1] = v1[k]\<close>. An exception of the recursive call leaves the loop.
\<close>

function generate_integerReferenceVectors :: "int \<Rightarrow> int \<Rightarrow> error + real list list" where
  "generate_integerReferenceVectors dept N_division =
     (if dept < 1 then Inl (Runtime_error ''wrong vector dept!'')
      else if dept = 1 then Inr [[real_of_int N_division]]
      else foldl
             (\<lambda>result i.
                case result of
                  Inl e \<Rightarrow> Inl e
                | Inr res \<Rightarrow>
                    (case generate_integerReferenceVectors (dept - 1) (N_division - i) of
                       Inl e \<Rightarrow> Inl e
                     | Inr tail \<Rightarrow> Inr (res @ map (\<lambda>v1. real_of_int i # v1) tail)))
             (Inr []) [0..N_division])"
  by pat_completeness auto
termination
  by (relation "measure (\<lambda>(dept, N_division). nat dept)") auto

declare generate_integerReferenceVectors.simps [simp del]

text \<open>
  \<^verbatim>\<open>generate_referenceVectors\<close> assigns the lattice to a matrix and divides every element in
  place: \<^verbatim>\<open>A(i, j) /= double(N_division)\<close>.
\<close>

fun scale_cols :: "real Matrix \<Rightarrow> real \<Rightarrow> nat \<Rightarrow> nat list \<Rightarrow> real Matrix option" where
  "scale_cols A d i [] = Some A"
| "scale_cols A d i (j # js) =
     (case elem A i j of
        None \<Rightarrow> None
      | Some x \<Rightarrow> (case set_elem A i j (x / d) of None \<Rightarrow> None | Some A' \<Rightarrow> scale_cols A' d i js))"

fun scale_rows :: "real Matrix \<Rightarrow> real \<Rightarrow> nat list \<Rightarrow> real Matrix option" where
  "scale_rows A d [] = Some A"
| "scale_rows A d (i # is) =
     (case scale_cols A d i [0..<get_n_cols A] of
        None \<Rightarrow> None
      | Some A' \<Rightarrow> scale_rows A' d is)"

definition generate_referenceVectors :: "int \<Rightarrow> int \<Rightarrow> error + real Matrix" where
  "generate_referenceVectors dept N_division =
     (case generate_integerReferenceVectors dept N_division of
        Inl e \<Rightarrow> Inl e
      | Inr L \<Rightarrow>
          (case assign Matrix0 L of
             Inl e \<Rightarrow> Inl e
           | Inr A \<Rightarrow>
               (case scale_rows A (real_of_int N_division) [0..<get_n_rows A] of
                  None \<Rightarrow> Inl Out_of_range
                | Some A' \<Rightarrow> Inr A')))"

section \<open>Generations and the engine\<close>

text \<open>
  \<^verbatim>\<open>GenerationType\<close> without \<^verbatim>\<open>exe_time\<close> (the clock is not part of the model). Its
  \<open>best_total_cost\<close> starts at \<^verbatim>\<open>+infinity\<close>, which is \<open>None\<close> here.
\<close>

record ('g, 'm) GenerationType =
  chromosomes :: "('g, 'm) ChromosomeType list"
  best_total_cost :: "real option"
  average_cost :: real
  best_chromosome_index :: int
  sorted_indices :: "int list"
  fronts :: "nat list list"
  selection_chance_cumulative :: "real list"

definition GenerationType0 :: "('g, 'm) GenerationType" where
  "GenerationType0 =
     \<lparr>chromosomes = [], best_total_cost = None, average_cost = 0, best_chromosome_index = - 1,
      sorted_indices = [], fronts = [], selection_chance_cumulative = []\<rparr>"

record GenerationTypeSOAbstract =
  best_total_cost_abs :: "real option"
  average_cost_abs :: real

definition ThisGenSOAbs :: "('g, 'm) GenerationType \<Rightarrow> GenerationTypeSOAbstract" where
  "ThisGenSOAbs generation =
     \<lparr>best_total_cost_abs = best_total_cost generation, average_cost_abs = average_cost generation\<rparr>"

datatype GaMode = SOGA | IGA | NSGA_III

datatype StopReason = Undefined | MaxGenerations | StallAverage | StallBest | UserRequest

text \<open>
  The random generator is the sequence of the values that the coming calls of \<^verbatim>\<open>random01()\<close>
  return: a call returns \<open>rng 0\<close> and leaves \<open>\<lambda>n. rng (Suc n)\<close>. A callback that receives
  \<^verbatim>\<open>rnd01\<close> takes the sequence and returns what is left of it.

  The members of \<^verbatim>\<open>Genetic\<close> that only drive printing and idling (\<^verbatim>\<open>verbose\<close>,
  \<^verbatim>\<open>idle_delay_us\<close>, \<^verbatim>\<open>custom_refresh\<close>) are left out. A callback
  is \<open>None\<close> when it is \<^verbatim>\<open>nullptr\<close>. \<^verbatim>\<open>eval_solution\<close> returns the middle cost it has
  written when it accepts the genes and \<open>None\<close> when it rejects them. An entry of
  \<^verbatim>\<open>scalarized_objectives_min\<close> is \<open>None\<close> while it is \<^verbatim>\<open>+infinity\<close>. The callbacks are
  functions of their arguments: they do not write the engine, so that \<^verbatim>\<open>user_request_stop\<close>
  and the settings change only between the calls of the engine's member functions.
\<close>

type_synonym rnd = "nat \<Rightarrow> real"

record ('g, 'm) Genetic =
  rng :: rnd
  average_stall_count :: int
  best_stall_count :: int
  ideal_objectives :: "real list"
  extreme_objectives :: "real Matrix"
  scalarized_objectives_min :: "real option list"
  reference_vectors :: "real Matrix"
  N_robj :: nat
  problem_mode :: GaMode
  population :: nat
  crossover_fraction :: real
  mutation_rate :: real
  generation_step :: int
  elite_count :: int
  generation_max :: int
  tol_stall_average :: real
  average_stall_max :: int
  tol_stall_best :: real
  best_stall_max :: int
  reference_vector_divisions :: nat
  enable_reference_vectors :: bool
  multi_threading :: bool
  dynamic_threading :: bool
  N_threads :: int
  user_request_stop :: bool
  use_quick_sort :: bool
  user_initial_solutions :: "'g list"
  calculate_IGA_total_fitness :: "(('g, 'm) GenerationType \<Rightarrow> ('g, 'm) GenerationType) option"
  calculate_SO_total_fitness :: "(('g, 'm) ChromosomeType \<Rightarrow> real) option"
  calculate_MO_objectives :: "(('g, 'm) ChromosomeType \<Rightarrow> real list) option"
  distribution_objective_reductions :: "(real list \<Rightarrow> real list) option"
  init_genes :: "(rnd \<Rightarrow> 'g \<times> rnd) option"
  eval_solution :: "('g \<Rightarrow> 'm option) option"
  eval_solution_IGA :: "('g \<Rightarrow> ('g, 'm) GenerationType \<Rightarrow> 'm option) option"
  mutate :: "('g \<Rightarrow> rnd \<Rightarrow> real \<Rightarrow> 'g \<times> rnd) option"
  crossover :: "('g \<Rightarrow> 'g \<Rightarrow> rnd \<Rightarrow> 'g \<times> rnd) option"
  SO_report_generation :: "(int \<Rightarrow> ('g, 'm) GenerationType \<Rightarrow> 'g \<Rightarrow> unit) option"
  MO_report_generation :: "(int \<Rightarrow> ('g, 'm) GenerationType \<Rightarrow> nat list \<Rightarrow> unit) option"
  get_shrink_scale :: "int \<Rightarrow> rnd \<Rightarrow> real \<times> rnd"
  generations_so_abs :: "GenerationTypeSOAbstract list"
  last_generation :: "('g, 'm) GenerationType"

definition default_shrink_scale :: "int \<Rightarrow> rnd \<Rightarrow> real \<times> rnd" where
  "default_shrink_scale n_generation rnd01 =
     (let scale = (if n_generation \<le> 5 then 1 else 1 / sqrt (real_of_int (n_generation - 5 + 1)))
      in if rnd01 0 < 4 / 10 then (scale * scale, \<lambda>n. rnd01 (Suc n))
         else if rnd01 1 < 1 / 10 then (1, \<lambda>n. rnd01 (n + 2))
         else (scale, \<lambda>n. rnd01 (n + 2)))"

text \<open>The constructor; \<^verbatim>\<open>N_threads\<close> is the hardware concurrency, or 8 when that is 0.\<close>

definition Genetic0 :: "int \<Rightarrow> rnd \<Rightarrow> ('g, 'm) Genetic" where
  "Genetic0 hardware_concurrency seeded =
     \<lparr>rng = seeded, average_stall_count = 0, best_stall_count = 0, ideal_objectives = [],
      extreme_objectives = Matrix0, scalarized_objectives_min = [], reference_vectors = Matrix0,
      N_robj = 0, problem_mode = SOGA, population = 50, crossover_fraction = 7 / 10,
      mutation_rate = 1 / 10, generation_step = - 1, elite_count = 5, generation_max = 100,
      tol_stall_average = 1 / 10 ^ 4, average_stall_max = 10, tol_stall_best = 1 / 10 ^ 6,
      best_stall_max = 10, reference_vector_divisions = 0, enable_reference_vectors = True,
      multi_threading = True, dynamic_threading = True,
      N_threads = (if hardware_concurrency = 0 then 8 else hardware_concurrency),
      user_request_stop = False, use_quick_sort = True, user_initial_solutions = [],
      calculate_IGA_total_fitness = None, calculate_SO_total_fitness = None,
      calculate_MO_objectives = None, distribution_objective_reductions = None,
      init_genes = None, eval_solution = None, eval_solution_IGA = None, mutate = None,
      crossover = None, SO_report_generation = None, MO_report_generation = None,
      get_shrink_scale = default_shrink_scale,
      generations_so_abs = [], last_generation = GenerationType0\<rparr>"

definition is_single_objective :: "('g, 'm) Genetic \<Rightarrow> bool" where
  "is_single_objective e =
     (case problem_mode e of SOGA \<Rightarrow> True | IGA \<Rightarrow> True | NSGA_III \<Rightarrow> False)"

definition is_interactive :: "('g, 'm) Genetic \<Rightarrow> bool" where
  "is_interactive e =
     (case problem_mode e of SOGA \<Rightarrow> False | IGA \<Rightarrow> True | NSGA_III \<Rightarrow> False)"

section \<open>Selection chances and parent selection\<close>

definition uint :: "int \<Rightarrow> nat" where
  \<comment> \<open>the conversion to \<^verbatim>\<open>unsigned int\<close>\<close>
  "uint i = nat (i mod 2 ^ 32)"

text \<open>
  \<^verbatim>\<open>generate_selection_chance\<close>: the first loop pushes the running sum of
  \<open>1 / sqrt (rank[i] + 1)\<close>, the second divides every entry, in place and in index order, by
  the entry at \<^verbatim>\<open>population - 1\<close> as it is at that moment.
\<close>

fun cumulate_chances :: "int list \<Rightarrow> nat list \<Rightarrow> real \<Rightarrow> real list \<Rightarrow> real list option" where
  "cumulate_chances rank [] chance_cumulative table = Some table"
| "cumulate_chances rank (i # is) chance_cumulative table =
     (case vec_at rank (int i) of
        None \<Rightarrow> None
      | Some rk \<Rightarrow>
          (let chance_cumulative' = chance_cumulative + 1 / sqrt (real_of_int (rk + 1))
           in cumulate_chances rank is chance_cumulative' (table @ [chance_cumulative'])))"

fun normalize_chances :: "nat \<Rightarrow> nat list \<Rightarrow> real list \<Rightarrow> real list option" where
  "normalize_chances P [] table = Some table"
| "normalize_chances P (i # is) table =
     (case vec_at table (int i) of
        None \<Rightarrow> None
      | Some x \<Rightarrow>
          (case vec_at table (int (uint (int P - 1))) of
             None \<Rightarrow> None
           | Some y \<Rightarrow> normalize_chances P is (table[i := x / y])))"

definition generate_selection_chance ::
  "('g, 'm) Genetic \<Rightarrow> ('g, 'm) GenerationType \<Rightarrow> int list \<Rightarrow> ('g, 'm) GenerationType option" where
  "generate_selection_chance e gen rank =
     (let N = length (chromosomes gen)
      in case cumulate_chances rank [0..<N] 0 [] of
           None \<Rightarrow> None
         | Some table \<Rightarrow>
             (case normalize_chances (population e) [0..<N] table of
                None \<Rightarrow> None
              | Some table' \<Rightarrow> Some (gen\<lparr>selection_chance_cumulative := table'\<rparr>)))"

text \<open>
  \<^verbatim>\<open>select_parent\<close>; the draw \<open>r\<close> of \<^verbatim>\<open>random01()\<close> is an argument.
\<close>

function select_parent_loop :: "real list \<Rightarrow> real \<Rightarrow> int \<Rightarrow> int \<Rightarrow> int option" where
  "select_parent_loop table r N_max position =
     (if position < N_max
      then (case vec_at table position of
              None \<Rightarrow> None
            | Some c \<Rightarrow> if c < r then select_parent_loop table r N_max (position + 1)
                        else Some position)
      else Some position)"
  by pat_completeness auto
termination
  by (relation "measure (\<lambda>(table, r, N_max, position). nat (N_max - position))") auto

declare select_parent_loop.simps [simp del]

definition select_parent :: "('g, 'm) GenerationType \<Rightarrow> real \<Rightarrow> int option" where
  "select_parent g r =
     select_parent_loop (selection_chance_cumulative g) r (int (length (chromosomes g))) 0"


section \<open>The stop criteria\<close>

text \<open>
  \<open>stalled a b tol\<close> is \<^verbatim>\<open>std::abs(a - b) < tol\<close>; with an infinite \<open>a\<close> or \<open>b\<close> the
  difference is infinite or NaN and the comparison is false.
\<close>

definition stalled :: "real option \<Rightarrow> real option \<Rightarrow> real \<Rightarrow> bool" where
  "stalled a b tol = (case (a, b) of (Some x, Some y) \<Rightarrow> \<bar>x - y\<bar> < tol | _ \<Rightarrow> False)"

definition stop_critera :: "('g, 'm) Genetic \<Rightarrow> (StopReason \<times> ('g, 'm) Genetic) option" where
  "stop_critera e =
     (if generation_step e < 2 \<and> \<not> user_request_stop e then Some (Undefined, e)
      else
        case (if is_single_objective e
              then (let n = int (length (generations_so_abs e))
                    in case vec_at (generations_so_abs e) (n - 2) of
                         None \<Rightarrow> None
                       | Some g1 \<Rightarrow>
                           (case vec_at (generations_so_abs e) (n - 1) of
                              None \<Rightarrow> None
                            | Some g2 \<Rightarrow>
                                Some (e\<lparr>best_stall_count :=
                                          (if stalled (best_total_cost_abs g1) (best_total_cost_abs g2)
                                                (tol_stall_best e)
                                           then best_stall_count e + 1 else 0),
                                        average_stall_count :=
                                          (if \<bar>average_cost_abs g1 - average_cost_abs g2\<bar>
                                                < tol_stall_average e
                                           then average_stall_count e + 1 else 0)\<rparr>)))
              else Some e) of
          None \<Rightarrow> None
        | Some e' \<Rightarrow>
            Some (if generation_step e' \<ge> generation_max e' then MaxGenerations
                  else if average_stall_count e' \<ge> average_stall_max e' then StallAverage
                  else if best_stall_count e' \<ge> best_stall_max e' then StallBest
                  else if user_request_stop e' then UserRequest
                  else Undefined, e'))"

text \<open>
  The stop check as the specification words it: the stall counters are updated from the
  last two summaries of the history, then the first condition that applies, in the order
  generation cap, average stall, best stall, user request, gives the reason.
\<close>

definition update_stall_counters :: "('g, 'm) Genetic \<Rightarrow> ('g, 'm) Genetic" where
  "update_stall_counters e =
     (let current = last (generations_so_abs e);
          previous = last (butlast (generations_so_abs e))
      in e\<lparr>best_stall_count :=
               (if stalled (best_total_cost_abs previous) (best_total_cost_abs current) (tol_stall_best e)
                then best_stall_count e + 1 else 0),
             average_stall_count :=
               (if \<bar>average_cost_abs previous - average_cost_abs current\<bar> < tol_stall_average e
                then average_stall_count e + 1 else 0)\<rparr>)"

definition first_applicable_stop :: "('g, 'm) Genetic \<Rightarrow> StopReason" where
  "first_applicable_stop e =
     (case filter fst
        [(generation_step e \<ge> generation_max e, MaxGenerations),
         (average_stall_count e \<ge> average_stall_max e, StallAverage),
         (best_stall_count e \<ge> best_stall_max e, StallBest),
         (user_request_stop e, UserRequest)] of
        [] \<Rightarrow> Undefined
      | (applies, reason) # rest \<Rightarrow> reason)"

section \<open>Ranking a single-objective generation\<close>

text \<open>
  \<^verbatim>\<open>quicksort_indices_SO\<close> works on the index array in place. Its two inner loops are
  \<open>advance_l\<close> (\<^verbatim>\<open>while (cost[a[l]] <= x && l < right) l++\<close>) and \<open>retreat_r\<close>
  (\<^verbatim>\<open>while (cost[a[r]] > x && r >= left) r--\<close>); both read the array before they test the
  bound, as the source does. \<open>partition_loop\<close> is the outer \<^verbatim>\<open>while (l < r)\<close> with the swap,
  and returns the array with the final \<open>l\<close> and \<open>r\<close>.
\<close>

definition cost_at :: "('g, 'm) GenerationType \<Rightarrow> int list \<Rightarrow> int \<Rightarrow> real option" where
  \<comment> \<open>\<^verbatim>\<open>gen.chromosomes[array_indices[k]].total_cost\<close>\<close>
  "cost_at gen array_indices k =
     (case vec_at array_indices k of
        None \<Rightarrow> None
      | Some i \<Rightarrow> map_option total_cost (vec_at (chromosomes gen) i))"

function advance_l :: "('g, 'm) GenerationType \<Rightarrow> int list \<Rightarrow> real \<Rightarrow> int \<Rightarrow> int \<Rightarrow> int option" where
  "advance_l gen array_indices x right l =
     (case cost_at gen array_indices l of
        None \<Rightarrow> None
      | Some c \<Rightarrow> if c \<le> x \<and> l < right then advance_l gen array_indices x right (l + 1)
                  else Some l)"
  by pat_completeness auto
termination
  by (relation "measure (\<lambda>(gen, array_indices, x, right, l). nat (right - l))") auto

function retreat_r :: "('g, 'm) GenerationType \<Rightarrow> int list \<Rightarrow> real \<Rightarrow> int \<Rightarrow> int \<Rightarrow> int option" where
  "retreat_r gen array_indices x left r =
     (case cost_at gen array_indices r of
        None \<Rightarrow> None
      | Some c \<Rightarrow> if c > x \<and> r \<ge> left then retreat_r gen array_indices x left (r - 1)
                  else Some r)"
  by pat_completeness auto
termination
  by (relation "measure (\<lambda>(gen, array_indices, x, left, r). nat (r - left + 1))") auto

declare advance_l.simps [simp del] retreat_r.simps [simp del]

definition swap_at :: "int list \<Rightarrow> int \<Rightarrow> int \<Rightarrow> int list option" where
  \<comment> \<open>\<^verbatim>\<open>temp = a[l]; a[l] = a[r]; a[r] = temp\<close>\<close>
  "swap_at array_indices l r =
     (case vec_at array_indices l of
        None \<Rightarrow> None
      | Some temp \<Rightarrow>
          (case vec_at array_indices r of
             None \<Rightarrow> None
           | Some ar \<Rightarrow> Some (array_indices[nat l := ar, nat r := temp])))"

partial_function (option) partition_loop ::
  "('g, 'm) GenerationType \<Rightarrow> int list \<Rightarrow> real \<Rightarrow> int \<Rightarrow> int \<Rightarrow> int \<Rightarrow> int
     \<Rightarrow> (int list \<times> int \<times> int) option" where
  "partition_loop gen array_indices x left right l r =
     (if l < r
      then Option.bind (advance_l gen array_indices x right l) (\<lambda>l'.
           Option.bind (retreat_r gen array_indices x left r) (\<lambda>r'.
             if l' < r'
             then Option.bind (swap_at array_indices l' r') (\<lambda>array_indices'.
                    partition_loop gen array_indices' x left right l' r')
             else partition_loop gen array_indices x left right l' r'))
      else Some (array_indices, l, r))"

partial_function (option) quicksort_indices_SO ::
  "('g, 'm) GenerationType \<Rightarrow> int list \<Rightarrow> int \<Rightarrow> int \<Rightarrow> int list option" where
  "quicksort_indices_SO gen array_indices left right =
     (if left < right
      then Option.bind (cost_at gen array_indices left) (\<lambda>x.
           Option.bind (partition_loop gen array_indices x left right left right) (\<lambda>(a1, l, r).
           Option.bind (swap_at a1 left r) (\<lambda>a2.
           Option.bind (quicksort_indices_SO gen a2 left (r - 1)) (\<lambda>a3.
             quicksort_indices_SO gen a3 (r + 1) right))))
      else Some array_indices)"

text \<open>
  \<^verbatim>\<open>rank_population_SO\<close>: the identity index array is sorted by the quicksort or by
  \<^verbatim>\<open>std::sort\<close> with the comparison of costs; then \<^verbatim>\<open>ranks[sorted_indices[i]] = i\<close> and the
  selection chances. \<^verbatim>\<open>std::sort\<close> belongs to the C++ library; it is the parameter
  \<open>std_sort\<close>, which takes the comparison and the range.
\<close>

fun assign_ranks :: "int list \<Rightarrow> nat list \<Rightarrow> int list \<Rightarrow> int list option" where
  "assign_ranks indices [] ranks = Some ranks"
| "assign_ranks indices (i # is) ranks =
     (case vec_at indices (int i) of
        None \<Rightarrow> None
      | Some k \<Rightarrow> if 0 \<le> k \<and> k < int (length ranks)
                  then assign_ranks indices is (ranks[nat k := int i]) else None)"

definition rank_population_SO ::
  "((int \<Rightarrow> int \<Rightarrow> bool) \<Rightarrow> int list \<Rightarrow> int list) \<Rightarrow> ('g, 'm) Genetic \<Rightarrow> ('g, 'm) GenerationType
     \<Rightarrow> ('g, 'm) GenerationType option" where
  "rank_population_SO std_sort e gen =
     (let N = int (length (chromosomes gen));
          indices = map int [0..<nat N]
      in Option.bind
           (if use_quick_sort e
            then quicksort_indices_SO gen indices 0 (int (length indices) - 1)
            else Some (std_sort (\<lambda>a b. total_cost (chromosomes gen ! nat a)
                                        < total_cost (chromosomes gen ! nat b)) indices))
           (\<lambda>indices'.
              Option.bind (assign_ranks indices' [0..<length (chromosomes gen)]
                             (replicate (length (chromosomes gen)) 0))
                (\<lambda>ranks. generate_selection_chance e (gen\<lparr>sorted_indices := indices'\<rparr>) ranks)))"


section \<open>Single-objective selection\<close>

text \<open>
  \<^verbatim>\<open>select_population_SO\<close>. \<open>transfer_elites\<close> is the loop over \<open>i < elite_count\<close>;
  \<open>sample_allowed\<close> is the \<^verbatim>\<open>do ... while (!allowed)\<close> loop, which draws a parent and tests it
  against every entry of \<open>blocked\<close>; \<open>sample_rest\<close> is the loop over the remaining
  \<open>population - elite_count\<close> slots, which pushes \<^verbatim>\<open>g.chromosomes[j]\<close> and then
  \<^verbatim>\<open>g.sorted_indices[j]\<close> onto \<open>blocked\<close>.
\<close>

definition random01 :: "('g, 'm) Genetic \<Rightarrow> real \<times> ('g, 'm) Genetic" where
  "random01 e = (rng e 0, e\<lparr>rng := \<lambda>n. rng e (Suc n)\<rparr>)"

fun transfer_elites ::
  "('g, 'm) GenerationType \<Rightarrow> nat list \<Rightarrow> ('g, 'm) ChromosomeType list \<times> int list
     \<Rightarrow> (('g, 'm) ChromosomeType list \<times> int list) option" where
  "transfer_elites g [] (chosen, blocked) = Some (chosen, blocked)"
| "transfer_elites g (i # is) (chosen, blocked) =
     (case vec_at (sorted_indices g) (int i) of
        None \<Rightarrow> None
      | Some s \<Rightarrow>
          (case vec_at (chromosomes g) s of
             None \<Rightarrow> None
           | Some c \<Rightarrow> transfer_elites g is (chosen @ [c], blocked @ [s])))"

partial_function (option) sample_allowed ::
  "('g, 'm) GenerationType \<Rightarrow> int list \<Rightarrow> ('g, 'm) Genetic \<Rightarrow> (int \<times> ('g, 'm) Genetic) option" where
  "sample_allowed g blocked e =
     (case random01 e of (r, e') \<Rightarrow>
        Option.bind (select_parent g r) (\<lambda>j.
          if list_ex (\<lambda>b. b = j) blocked then sample_allowed g blocked e' else Some (j, e')))"

fun sample_rest ::
  "nat \<Rightarrow> ('g, 'm) GenerationType \<Rightarrow> ('g, 'm) ChromosomeType list \<Rightarrow> int list \<Rightarrow> ('g, 'm) Genetic
     \<Rightarrow> (('g, 'm) ChromosomeType list \<times> ('g, 'm) Genetic) option" where
  "sample_rest 0 g chosen blocked e = Some (chosen, e)"
| "sample_rest (Suc n) g chosen blocked e =
     Option.bind (sample_allowed g blocked e) (\<lambda>(j, e').
     Option.bind (vec_at (chromosomes g) j) (\<lambda>c.
     Option.bind (vec_at (sorted_indices g) j) (\<lambda>s.
       sample_rest n g (chosen @ [c]) (blocked @ [s]) e')))"

definition select_population_SO ::
  "('g, 'm) Genetic \<Rightarrow> ('g, 'm) GenerationType \<Rightarrow> ('g, 'm) GenerationType
     \<Rightarrow> (('g, 'm) GenerationType \<times> ('g, 'm) Genetic) option" where
  "select_population_SO e g g2 =
     (if generation_step e \<le> 0 then Some (g, e)
      else
        Option.bind (transfer_elites g [0..<nat (elite_count e)] (chromosomes g2, []))
          (\<lambda>(chosen, blocked).
             Option.bind (sample_rest (nat (int (population e) - elite_count e)) g chosen blocked e)
               (\<lambda>(chosen', e'). Some (g2\<lparr>chromosomes := chosen'\<rparr>, e'))))"

section \<open>The niching loop of the many-objective selection\<close>

text \<open>
  The local state of the \<^verbatim>\<open>while\<close> loop of \<^verbatim>\<open>select_population_MO\<close> that fills the new
  generation from the last front, and one pass through its body. \<open>index_of_min\<close> is
  \<^verbatim>\<open>std::min_element\<close> (the first minimum; position 0 of an empty vector);
  \<open>neighbors_of\<close> collects \<^verbatim>\<open>min_vec_neighbors\<close>; \<open>closest\<close> is the loop that looks for the
  smallest distance and assigns \<^verbatim>\<open>next_member_index = i\<close>; \<open>last_position\<close> is the loop that
  finds \<^verbatim>\<open>to_del_front\<close>.
\<close>

record niching =
  last_front :: "nat list"
  to_add :: "nat list"
  niche_count :: "nat list"

fun index_of_min_from :: "'a::linorder list \<Rightarrow> nat \<Rightarrow> nat \<Rightarrow> 'a \<Rightarrow> nat" where
  "index_of_min_from [] k best best_value = best"
| "index_of_min_from (v # vs) k best best_value =
     (if v < best_value then index_of_min_from vs (Suc k) k v
      else index_of_min_from vs (Suc k) best best_value)"

definition index_of_min :: "'a::linorder list \<Rightarrow> nat" where
  "index_of_min v = (case v of [] \<Rightarrow> 0 | v0 # vs \<Rightarrow> index_of_min_from vs 1 0 v0)"

fun neighbors_of :: "nat list \<Rightarrow> nat \<Rightarrow> nat list \<Rightarrow> nat list option" where
  "neighbors_of associated_ref_vector j [] = Some []"
| "neighbors_of associated_ref_vector j (i # is) =
     (case vec_at associated_ref_vector (int i) of
        None \<Rightarrow> None
      | Some a \<Rightarrow>
          (case neighbors_of associated_ref_vector j is of
             None \<Rightarrow> None
           | Some rest \<Rightarrow> Some (if a = j then i # rest else rest)))"

fun closest :: "real Matrix \<Rightarrow> nat \<Rightarrow> nat list \<Rightarrow> nat \<Rightarrow> real \<Rightarrow> nat option" where
  "closest distances j [] next_member_index min_val = Some next_member_index"
| "closest distances j (i # is) next_member_index min_val =
     (case elem distances i j of
        None \<Rightarrow> None
      | Some d \<Rightarrow> if d < min_val then closest distances j is i d
                  else closest distances j is next_member_index min_val)"

fun last_position :: "nat list \<Rightarrow> nat \<Rightarrow> nat \<Rightarrow> int \<Rightarrow> int" where
  "last_position [] v i to_del_front = to_del_front"
| "last_position (x # xs) v i to_del_front =
     last_position xs v (Suc i) (if x = v then int i else to_del_front)"

definition erase_at :: "'a list \<Rightarrow> nat \<Rightarrow> 'a list" where
  "erase_at xs k = take k xs @ drop (Suc k) xs"

definition niching_step ::
  "('g, 'm) Genetic \<Rightarrow> nat \<Rightarrow> nat list \<Rightarrow> real Matrix \<Rightarrow> niching
     \<Rightarrow> (niching \<times> ('g, 'm) Genetic) option" where
  "niching_step e N_chromosomes associated_ref_vector distances s =
     (if \<not> enable_reference_vectors e
      then (case random01 e of (r, e') \<Rightarrow>
              (let msz = length (last_front s);
                   k = nat \<lfloor>real msz * r\<rfloor>;
                   to_add_index = (if k \<ge> msz then 0 else k)
               in (case vec_at (last_front s) (int to_add_index) of
                     None \<Rightarrow> None
                   | Some i \<Rightarrow>
                       Some (s\<lparr>to_add := to_add s @ [i],
                               last_front := erase_at (last_front s) to_add_index\<rparr>, e'))))
      else
        (let min_niche_index = index_of_min (niche_count s)
         in (case neighbors_of associated_ref_vector min_niche_index (last_front s) of
               None \<Rightarrow> None
             | Some min_vec_neighbors \<Rightarrow>
                 if min_vec_neighbors = []
                 then (if min_niche_index < length (niche_count s)
                       then Some (s\<lparr>niche_count :=
                                      (niche_count s)
                                        [min_niche_index := uint (10 * int N_chromosomes)]\<rparr>, e)
                       else None)
                 else
                   (case vec_at (niche_count s) (int min_niche_index) of
                      None \<Rightarrow> None
                    | Some cnt \<Rightarrow>
                        (case (if cnt = 0
                               then (case elem distances (hd min_vec_neighbors) min_niche_index of
                                       None \<Rightarrow> None
                                     | Some min_val \<Rightarrow>
                                         map_option (\<lambda>k. (k, e))
                                           (closest distances min_niche_index min_vec_neighbors
                                              0 min_val))
                               else (case random01 e of (r, e') \<Rightarrow>
                                       (let msz = length min_vec_neighbors;
                                            k = nat \<lfloor>real msz * r\<rfloor>
                                        in Some (if k \<ge> msz then 0 else k, e')))) of
                           None \<Rightarrow> None
                         | Some (next_member_index, e') \<Rightarrow>
                             (case vec_at min_vec_neighbors (int next_member_index) of
                                None \<Rightarrow> None
                              | Some to_add_index \<Rightarrow>
                                  (let to_del_front =
                                         last_position (last_front s) to_add_index 0 (- 1)
                                   in Some (s\<lparr>to_add := to_add s @ [to_add_index],
                                              last_front :=
                                                (if to_del_front \<ge> 0
                                                 then erase_at (last_front s) (nat to_del_front)
                                                 else last_front s),
                                              niche_count :=
                                                (niche_count s)[min_niche_index := Suc cnt]\<rparr>,
                                            e'))))))))"

text \<open>
  Of \<^verbatim>\<open>associate_to_references\<close>, the counting: \<^verbatim>\<open>niche_count\<close> starts as \<^verbatim>\<open>N_ref\<close> zeros and is
  incremented at the associated reference vector of every chromosome of the generation, in
  the order of the chromosomes. The niching loop starts from these counts, the last front and
  an empty \<^verbatim>\<open>to_add\<close>.
\<close>

fun count_niches :: "nat list \<Rightarrow> nat list \<Rightarrow> nat list option" where
  "count_niches [] counts = Some counts"
| "count_niches (dist_min_index # rest) counts =
     (if dist_min_index < length counts
      then count_niches rest (counts[dist_min_index := Suc (counts ! dist_min_index)])
      else None)"

definition niching_start :: "nat \<Rightarrow> nat list \<Rightarrow> nat list \<Rightarrow> niching option" where
  "niching_start N_ref associated_ref_vector front =
     map_option (\<lambda>counts. \<lparr>last_front = front, to_add = [], niche_count = counts\<rparr>)
       (count_niches associated_ref_vector (replicate N_ref 0))"

section \<open>Settings and the initial population\<close>

text \<open>
  A member function that can throw returns an \<open>outcome\<close>: its result and the engine it leaves,
  or the exception and the engine as it was at the \<^verbatim>\<open>throw\<close>. Around it, \<open>None\<close> is undefined
  behaviour (a null callback called, a vector read out of range) or a loop that does not return.
\<close>

datatype ('a, 'g, 'm) outcome = Returns 'a "('g, 'm) Genetic" | Throws error "('g, 'm) Genetic"

text \<open>
  \<^verbatim>\<open>check_settings\<close>: the checks in the order of the source, each \<^verbatim>\<open>if (c) throw
  runtime_error(msg)\<close> as \<open>throw_if c msg\<close> around the statements that follow it.
\<close>

definition throw_if :: "bool \<Rightarrow> string \<Rightarrow> error + unit \<Rightarrow> error + unit" where
  "throw_if c msg rest = (if c then Inl (Runtime_error msg) else rest)"

definition check_settings :: "('g, 'm) Genetic \<Rightarrow> error + unit" where
  "check_settings e =
     (case (if is_interactive e
            then
              throw_if (calculate_IGA_total_fitness e = None)
                ''calculate_IGA_total_fitness is null in interactive mode!''
             (throw_if (calculate_SO_total_fitness e \<noteq> None)
                ''calculate_SO_total_fitness is not null in interactive mode!''
             (throw_if (calculate_MO_objectives e \<noteq> None)
                ''calculate_MO_objectives is not null in interactive mode!''
             (throw_if (distribution_objective_reductions e \<noteq> None)
                ''distribution_objective_reductions is not null in interactive mode!''
             (throw_if (MO_report_generation e \<noteq> None)
                ''MO_report_generation is not null in interactive mode!''
             (throw_if (eval_solution_IGA e = None)
                ''eval_solution_IGA is null in interactive mode!''
             (throw_if (eval_solution e \<noteq> None)
                ''eval_solution is not null in interactive mode (use eval_solution_IGA instead)!''
             (Inr ())))))))
            else
              throw_if (calculate_IGA_total_fitness e \<noteq> None)
                ''calculate_IGA_total_fitness is not null in non-interactive mode!''
             (throw_if (eval_solution_IGA e \<noteq> None)
                ''eval_solution_IGA is not null in non-interactive mode!''
             (throw_if (eval_solution e = None) ''eval_solution is null!''
             (if is_single_objective e
              then
                throw_if (calculate_SO_total_fitness e = None)
                  ''calculate_SO_total_fitness is null in single objective mode!''
               (throw_if (calculate_MO_objectives e \<noteq> None)
                  ''calculate_MO_objectives is not null in single objective mode!''
               (throw_if (distribution_objective_reductions e \<noteq> None)
                  ''distribution_objective_reductions is not null in single objective mode!''
               (throw_if (MO_report_generation e \<noteq> None)
                  ''MO_report_generation is not null in single objective mode!''
               (Inr ()))))
              else
                throw_if (calculate_SO_total_fitness e \<noteq> None)
                  ''calculate_SO_total_fitness is no null in multi-objective mode!''
               (throw_if (calculate_MO_objectives e = None)
                  ''calculate_MO_objectives is null in multi-objective mode!''
               (throw_if (MO_report_generation e = None)
                  ''MO_report_generation is null in multi-objective mode!''
               (Inr ()))))))) of
        Inl err \<Rightarrow> Inl err
      | Inr u \<Rightarrow>
          throw_if (init_genes e = None) ''init_genes is not adjusted.''
         (throw_if (mutate e = None) ''mutate is not adjusted.''
         (throw_if (crossover e = None) ''crossover is not adjusted.''
         (throw_if (N_threads e < 1) ''Number of threads is below 1.''
         (throw_if (population e < 1) ''population is below 1.''
         (if is_single_objective e
          then
            throw_if (SO_report_generation e = None)
              ''SO_report_generation is not adjusted while problem mode is single-objective''
           (throw_if (MO_report_generation e \<noteq> None)
              ''MO_report_generation is adjusted while problem mode is single-objective''
           (Inr ()))
          else
            throw_if (SO_report_generation e \<noteq> None)
              ''SO_report_generation is adjusted while problem mode is multi-objective''
           (throw_if (MO_report_generation e = None)
              ''MO_report_generation is not adjusted while problem mode is multi-objective''
           (Inr ()))))))))"

text \<open>
  A default-constructed chromosome with its genes and middle costs set. The callbacks
  \<^verbatim>\<open>eval_solution\<close> and \<^verbatim>\<open>eval_solution_IGA\<close> return the middle costs of an accepted solution,
  \<open>None\<close> for a rejected one; \<^verbatim>\<open>init_genes\<close>, \<^verbatim>\<open>mutate\<close> and \<^verbatim>\<open>crossover\<close> take the generator
  they draw from and return what is left of it.
\<close>

definition new_chromosome :: "'g \<Rightarrow> 'm \<Rightarrow> ('g, 'm) ChromosomeType" where
  "new_chromosome X_genes X_middle_costs =
     \<lparr>genes = X_genes, middle_costs = X_middle_costs, total_cost = 0, objectives = []\<rparr>"

definition init_population_try ::
  "('g, 'm) Genetic \<Rightarrow> ('g, 'm) GenerationType \<Rightarrow> 'g \<Rightarrow> int
     \<Rightarrow> (bool \<times> ('g, 'm) GenerationType) option" where
  "init_population_try e generation0 X_genes index =
     (if is_interactive e
      then (case eval_solution_IGA e of
              None \<Rightarrow> None
            | Some eval \<Rightarrow>
                (case eval X_genes generation0 of
                   Some X_middle_costs \<Rightarrow>
                     Some (True, generation0\<lparr>chromosomes :=
                             chromosomes generation0 @ [new_chromosome X_genes X_middle_costs]\<rparr>)
                 | None \<Rightarrow> Some (False, generation0)))
      else (case eval_solution e of
              None \<Rightarrow> None
            | Some eval \<Rightarrow>
                (case eval X_genes of
                   Some X_middle_costs \<Rightarrow>
                     (if index \<ge> 0
                      then (if index < int (length (chromosomes generation0))
                            then Some (True, generation0\<lparr>chromosomes :=
                                   (chromosomes generation0)
                                     [nat index := new_chromosome X_genes X_middle_costs]\<rparr>)
                            else None)
                      else Some (True, generation0\<lparr>chromosomes :=
                             chromosomes generation0 @ [new_chromosome X_genes X_middle_costs]\<rparr>))
                 | None \<Rightarrow> Some (False, generation0))))"

text \<open>
  \<^verbatim>\<open>init_population_range\<close>: for every index the \<^verbatim>\<open>while (!accepted)\<close> loop, which need not
  end; \<^verbatim>\<open>sequential_action\<close> calls the range function \<^verbatim>\<open>N_add\<close> times with the range
  \<open>-1 .. -1\<close>, as long as no stop is requested.
\<close>

partial_function (option) init_until_accepted ::
  "('g, 'm) Genetic \<Rightarrow> ('g, 'm) GenerationType \<Rightarrow> int
     \<Rightarrow> (('g, 'm) GenerationType \<times> ('g, 'm) Genetic) option" where
  "init_until_accepted e generation0 index =
     (case init_genes e of
        None \<Rightarrow> None
      | Some init \<Rightarrow>
          (case init (rng e) of (X_genes, rng') \<Rightarrow>
             Option.bind (init_population_try (e\<lparr>rng := rng'\<rparr>) generation0 X_genes index)
               (\<lambda>(accepted, generation0').
                  if accepted then Some (generation0', e\<lparr>rng := rng'\<rparr>)
                  else init_until_accepted (e\<lparr>rng := rng'\<rparr>) generation0' index)))"

function init_population_range ::
  "('g, 'm) Genetic \<Rightarrow> ('g, 'm) GenerationType \<Rightarrow> int \<Rightarrow> int
     \<Rightarrow> (('g, 'm) GenerationType \<times> ('g, 'm) Genetic) option" where
  "init_population_range e generation0 index_from index_to =
     (if index_from \<le> index_to
      then (case init_until_accepted e generation0 index_from of
              None \<Rightarrow> None
            | Some (generation0', e') \<Rightarrow>
                init_population_range e' generation0' (index_from + 1) index_to)
      else Some (generation0, e))"
  by pat_completeness auto
termination
  by (relation "measure (\<lambda>(e, generation0, index_from, index_to). nat (index_to - index_from + 1))")
     auto

declare init_population_range.simps [simp del]

fun sequential_init ::
  "nat \<Rightarrow> ('g, 'm) Genetic \<Rightarrow> ('g, 'm) GenerationType
     \<Rightarrow> (('g, 'm) GenerationType \<times> ('g, 'm) Genetic) option" where
  "sequential_init 0 e generation = Some (generation, e)"
| "sequential_init (Suc n) e generation =
     (if user_request_stop e then Some (generation, e)
      else (case init_population_range e generation (- 1) (- 1) of
              None \<Rightarrow> None
            | Some (generation', e') \<Rightarrow> sequential_init n e' generation'))"

text \<open>The loop of \<^verbatim>\<open>init_population\<close> over \<^verbatim>\<open>user_initial_solutions\<close>.\<close>

fun add_user_solutions ::
  "('g, 'm) Genetic \<Rightarrow> 'g list \<Rightarrow> ('g, 'm) GenerationType \<Rightarrow> ('g, 'm) GenerationType option" where
  "add_user_solutions e [] generation0 = Some generation0"
| "add_user_solutions e (solution # rest) generation0 =
     (case init_population_try e generation0 solution (- 1) of
        None \<Rightarrow> None
      | Some (accepted, generation0') \<Rightarrow>
          if length (chromosomes generation0') \<ge> population e then Some generation0'
          else add_user_solutions e rest generation0')"

text \<open>
  The two threaded drivers run the same range function as the sequential one, on worker threads;
  what they leave behind depends on the scheduling, so they are a parameter here: from the
  engine, the generation and \<^verbatim>\<open>N_add\<close> to the generation and the generator they leave
  (the range functions write nothing else of the engine), or \<open>None\<close>.
\<close>

type_synonym ('g, 'm) thread_action =
  "('g, 'm) Genetic \<Rightarrow> ('g, 'm) GenerationType \<Rightarrow> nat \<Rightarrow> (('g, 'm) GenerationType \<times> rnd) option"

definition init_population ::
  "('g, 'm) thread_action \<Rightarrow> ('g, 'm) Genetic \<Rightarrow> ('g, 'm) GenerationType
     \<Rightarrow> (('g, 'm) GenerationType \<times> ('g, 'm) Genetic) option" where
  "init_population threaded_init e generation0 =
     (let cleared = generation0\<lparr>chromosomes := []\<rparr>;
          new_solutions_offset = length (chromosomes cleared);
          N_add = nat (max 0 (int (population e) - int new_solutions_offset))
      in case add_user_solutions e (user_initial_solutions e) cleared of
           None \<Rightarrow> None
         | Some seeded \<Rightarrow>
             if \<not> multi_threading e \<or> N_threads e = 1 \<or> is_interactive e
             then sequential_init N_add e seeded
             else map_option (\<lambda>(generation, rng'). (generation, e\<lparr>rng := rng'\<rparr>))
                    (threaded_init e seeded N_add))"

definition finalize_objectives ::
  "('g, 'm) Genetic \<Rightarrow> ('g, 'm) GenerationType \<Rightarrow> ('g, 'm) GenerationType option" where
  "finalize_objectives e g =
     (if user_request_stop e then Some g
      else case problem_mode e of
             SOGA \<Rightarrow>
               (case calculate_SO_total_fitness e of
                  None \<Rightarrow> None
                | Some fitness \<Rightarrow>
                    Some (g\<lparr>chromosomes := map (\<lambda>c. c\<lparr>total_cost := fitness c\<rparr>) (chromosomes g)\<rparr>))
           | IGA \<Rightarrow>
               (case calculate_IGA_total_fitness e of
                  None \<Rightarrow> None
                | Some fitness \<Rightarrow> Some (fitness g))
           | NSGA_III \<Rightarrow>
               (case calculate_MO_objectives e of
                  None \<Rightarrow> None
                | Some objs \<Rightarrow>
                    Some (g\<lparr>chromosomes := map (\<lambda>c. c\<lparr>objectives := objs c\<rparr>) (chromosomes g)\<rparr>)))"

text \<open>
  The set-up of the reference vector divisions in \<^verbatim>\<open>solve_init\<close>. The binomial coefficient is
  computed in \<^verbatim>\<open>int\<close>, and its intermediate product \<^verbatim>\<open>nCr *= (N - i + 1)\<close> leaves the 32 bits
  for large arguments; a signed overflow is undefined behaviour in C++, and what the compiled
  code does, the two's complement wrap-around, is written out here: \<open>to_int\<close> is the value of an
  integer in the 32 bits of an \<^verbatim>\<open>int\<close>, which is also the conversion from \<^verbatim>\<open>unsigned int\<close>. The
  loop counter \<open>i\<close> stays below \<open>2 ^ 31\<close> for every \<open>r\<close> other than the largest \<^verbatim>\<open>int\<close>.
\<close>

definition to_int :: "int \<Rightarrow> int" where
  "to_int x = (x + 2 ^ 31) mod 2 ^ 32 - 2 ^ 31"

definition c_div :: "int \<Rightarrow> int \<Rightarrow> int" where
  \<comment> \<open>\<^verbatim>\<open>a / b\<close> on \<^verbatim>\<open>int\<close>, which truncates towards zero\<close>
  "c_div a b = sgn a * sgn b * (\<bar>a\<bar> div \<bar>b\<bar>)"

function combination_loop :: "int \<Rightarrow> int \<Rightarrow> int \<Rightarrow> int \<Rightarrow> int" where
  "combination_loop N r i nCr =
     (if i \<le> r
      then combination_loop N r (i + 1) (c_div (to_int (nCr * to_int (N - i + 1))) i)
      else nCr)"
  by pat_completeness auto
termination
  by (relation "measure (\<lambda>(N, r, i, nCr). nat (r - i + 1))") auto

declare combination_loop.simps [simp del]

definition fast_combination_count :: "int \<Rightarrow> int \<Rightarrow> int" where
  "fast_combination_count N r =
     (let r' = (if to_int (r * 2) > N then to_int (N - r) else r)
      in if r' = 0 then 1 else combination_loop N r' 2 N)"

definition get_number_reference_vectors :: "int \<Rightarrow> int \<Rightarrow> int" where
  "get_number_reference_vectors N_objectives N_divisions =
     fast_combination_count (to_int (to_int (N_objectives + N_divisions) - 1)) N_divisions"

text \<open>
  The loop \<^verbatim>\<open>while (get_number_reference_vectors(N_robj, reference_vector_divisions + 1) <=
  (int)population) reference_vector_divisions++\<close>, on the \<^verbatim>\<open>unsigned int\<close> members.
\<close>

partial_function (option) grow_divisions :: "('g, 'm) Genetic \<Rightarrow> nat \<Rightarrow> nat option" where
  "grow_divisions e d =
     (if get_number_reference_vectors (to_int (int (N_robj e))) (to_int (int (uint (int d + 1))))
           \<le> to_int (int (population e))
      then grow_divisions e (uint (int d + 1)) else Some d)"

text \<open>
  \<^verbatim>\<open>distribution_objective_reductions(objectives)\<close> if the callback is set, the objectives
  themselves otherwise. \<open>multi_objective_setup\<close> is the block of \<^verbatim>\<open>solve_init\<close> under
  \<^verbatim>\<open>if (!is_single_objective())\<close>, with \<^verbatim>\<open>calculate_N_robj\<close> inlined.
\<close>

definition reduced :: "('g, 'm) Genetic \<Rightarrow> real list \<Rightarrow> real list" where
  "reduced e objs =
     (case distribution_objective_reductions e of Some reduce \<Rightarrow> reduce objs | None \<Rightarrow> objs)"

definition multi_objective_setup ::
  "('g, 'm) Genetic \<Rightarrow> ('g, 'm) GenerationType \<Rightarrow> (unit, 'g, 'm) outcome option" where
  "multi_objective_setup e generation0 =
     (if \<not> is_single_objective e
      then (case chromosomes generation0 of
              [] \<Rightarrow> Some (Throws (Runtime_error ''Code should not reach here. A87946516564'') e)
            | c0 # cs \<Rightarrow>
                (let e1 = e\<lparr>N_robj := length (reduced e (objectives c0))\<rparr>
                 in if N_robj e1 = 0
                    then Some (Throws (Runtime_error ''Number of the reduced objective is zero'') e1)
                    else if reference_vector_divisions e1 = 0
                    then (let e2 = e1\<lparr>reference_vector_divisions := 2\<rparr>
                          in if N_robj e2 = 1
                             then Some (Throws (Runtime_error
                                    ''The length of objective vector is 1 in a multi-objective optimization'') e2)
                             else (case grow_divisions e2 2 of
                                     None \<Rightarrow> None
                                   | Some d \<Rightarrow> Some (Returns () (e2\<lparr>reference_vector_divisions := d\<rparr>))))
                    else Some (Returns () e1)))
      else Some (Returns () e))"


section \<open>Ranking, finalisation and report of a generation\<close>

text \<open>
  \<^verbatim>\<open>rank_population_MO\<close>: the domination sets and counts of all pairs (the exception of
  \<^verbatim>\<open>dominates\<close> passes through), the fronts by the \<^verbatim>\<open>do ... while\<close> loop, the ranks from the
  fronts, and the selection chances.
\<close>

fun dominate_pairs ::
  "('g, 'm) ChromosomeType list \<Rightarrow> nat \<Rightarrow> nat list \<Rightarrow> nat list list \<times> int list
     \<Rightarrow> error + nat list list \<times> int list" where
  "dominate_pairs cs i [] st = Inr st"
| "dominate_pairs cs i (j # js) (domination_set, dominated_count) =
     (case dominates (cs ! i) (cs ! j) of
        Inl err \<Rightarrow> Inl err
      | Inr i_dominates_j \<Rightarrow>
          (let ds1 = (if i_dominates_j then domination_set[i := domination_set ! i @ [j]]
                      else domination_set);
               dc1 = (if i_dominates_j then dominated_count[j := dominated_count ! j + 1]
                      else dominated_count)
           in case dominates (cs ! j) (cs ! i) of
                Inl err \<Rightarrow> Inl err
              | Inr j_dominates_i \<Rightarrow>
                  dominate_pairs cs i js
                    (if j_dominates_i then ds1[j := ds1 ! j @ [i]] else ds1,
                     if j_dominates_i then dc1[i := dc1 ! i + 1] else dc1)))"

fun dominate_all ::
  "('g, 'm) ChromosomeType list \<Rightarrow> nat list \<Rightarrow> nat list list \<times> int list \<times> nat list
     \<Rightarrow> error + nat list list \<times> int list \<times> nat list" where
  "dominate_all cs [] st = Inr st"
| "dominate_all cs (i # is) (domination_set, dominated_count, pareto_front) =
     (case dominate_pairs cs i [Suc i..<length cs] (domination_set, dominated_count) of
        Inl err \<Rightarrow> Inl err
      | Inr (ds, dc) \<Rightarrow>
          dominate_all cs is (ds, dc, if dc ! i = 0 then pareto_front @ [i] else pareto_front))"

fun release :: "nat list \<Rightarrow> int list \<times> nat list \<Rightarrow> int list \<times> nat list" where
  "release [] st = st"
| "release (j # js) (dominated_count, next_front) =
     (let dc = dominated_count[j := dominated_count ! j - 1]
      in release js (dc, if dc ! j = 0 then next_front @ [j] else next_front))"

fun release_front :: "nat list list \<Rightarrow> nat list \<Rightarrow> int list \<times> nat list \<Rightarrow> int list \<times> nat list" where
  "release_front domination_set [] st = st"
| "release_front domination_set (i # is) st =
     release_front domination_set is (release (domination_set ! i) st)"

partial_function (option) build_fronts ::
  "nat list list \<Rightarrow> int list \<Rightarrow> nat list list \<Rightarrow> nat list list option" where
  "build_fronts domination_set dominated_count front_list =
     (if front_list = [] then None
      else (case release_front domination_set (last front_list) (dominated_count, []) of
              (dc, next_front) \<Rightarrow>
                if next_front \<noteq> [] then build_fronts domination_set dc (front_list @ [next_front])
                else Some front_list))"

fun front_ranks :: "nat list list \<Rightarrow> nat \<Rightarrow> int list \<Rightarrow> int list" where
  "front_ranks [] i ranks = ranks"
| "front_ranks (front # rest) i ranks =
     front_ranks rest (Suc i) (fold (\<lambda>k rs. rs[k := int i]) front ranks)"

definition bind_outcome ::
  "('a, 'g, 'm) outcome option \<Rightarrow> ('a \<Rightarrow> ('g, 'm) Genetic \<Rightarrow> ('b, 'g, 'm) outcome option)
     \<Rightarrow> ('b, 'g, 'm) outcome option" where
  \<comment> \<open>sequencing: an exception or an undefined step ends the function\<close>
  "bind_outcome x f =
     (case x of
        None \<Rightarrow> None
      | Some (Throws err e) \<Rightarrow> Some (Throws err e)
      | Some (Returns a e) \<Rightarrow> f a e)"

definition rank_population_MO ::
  "('g, 'm) Genetic \<Rightarrow> ('g, 'm) GenerationType
     \<Rightarrow> (('g, 'm) GenerationType, 'g, 'm) outcome option" where
  "rank_population_MO e gen =
     (let N = length (chromosomes gen)
      in case dominate_all (chromosomes gen) [0..<N] (replicate N [], replicate N 0, []) of
           Inl err \<Rightarrow> Some (Throws err e)
         | Inr (domination_set, dominated_count, pareto_front) \<Rightarrow>
             (case build_fronts domination_set dominated_count [pareto_front] of
                None \<Rightarrow> None
              | Some front_list \<Rightarrow>
                  map_option (\<lambda>ranked. Returns ranked e)
                    (generate_selection_chance e (gen\<lparr>fronts := front_list\<rparr>)
                       (front_ranks front_list 0 (replicate N 0)))))"

definition rank_population ::
  "((int \<Rightarrow> int \<Rightarrow> bool) \<Rightarrow> int list \<Rightarrow> int list) \<Rightarrow> ('g, 'm) Genetic \<Rightarrow> ('g, 'm) GenerationType
     \<Rightarrow> (('g, 'm) GenerationType, 'g, 'm) outcome option" where
  "rank_population std_sort e gen =
     (if user_request_stop e then Some (Returns gen e)
      else if is_single_objective e
      then map_option (\<lambda>ranked. Returns ranked e) (rank_population_SO std_sort e gen)
      else rank_population_MO e gen)"

text \<open>
  \<^verbatim>\<open>finalize_generation\<close>; reading \<^verbatim>\<open>chromosomes[0]\<close> of an empty generation is \<open>None\<close>.
\<close>

fun best_and_sum :: "real list \<Rightarrow> nat \<Rightarrow> real \<times> real \<times> int \<Rightarrow> real \<times> real \<times> int" where
  "best_and_sum [] i st = st"
| "best_and_sum (current_cost # rest) i (best, cost_sum, best_index) =
     best_and_sum rest (Suc i)
       (min (if current_cost \<le> best then current_cost else best) current_cost,
        cost_sum + current_cost,
        if current_cost \<le> best then int i else best_index)"

definition finalize_generation ::
  "('g, 'm) Genetic \<Rightarrow> ('g, 'm) GenerationType \<Rightarrow> ('g, 'm) GenerationType option" where
  "finalize_generation e new_generation =
     (if user_request_stop e then Some new_generation
      else if is_single_objective e
      then (case chromosomes new_generation of
              [] \<Rightarrow> None
            | c0 # cs \<Rightarrow>
                (case best_and_sum (map total_cost (chromosomes new_generation)) 0
                        (total_cost c0, 0, 0) of
                   (best, cost_sum, best_index) \<Rightarrow>
                     Some (new_generation\<lparr>best_chromosome_index := best_index,
                             best_total_cost := Some best,
                             average_cost := cost_sum / real (length (chromosomes new_generation))\<rparr>)))
      else Some new_generation)"

text \<open>\<^verbatim>\<open>update_ideal_objectives\<close>.\<close>

fun lower_ideal :: "real list \<Rightarrow> nat list \<Rightarrow> real list \<Rightarrow> real list option" where
  "lower_ideal obj_reduced [] ideal = Some ideal"
| "lower_ideal obj_reduced (i # is) ideal =
     (case vec_at obj_reduced (int i) of
        None \<Rightarrow> None
      | Some v \<Rightarrow> lower_ideal obj_reduced is (if v < ideal ! i then ideal[i := v] else ideal))"

fun lower_ideal_all ::
  "('g, 'm) Genetic \<Rightarrow> ('g, 'm) ChromosomeType list \<Rightarrow> nat \<Rightarrow> real list \<Rightarrow> real list option" where
  "lower_ideal_all e [] N_r_objectives ideal = Some ideal"
| "lower_ideal_all e (x # xs) N_r_objectives ideal =
     (case lower_ideal (reduced e (objectives x)) [0..<N_r_objectives] ideal of
        None \<Rightarrow> None
      | Some ideal' \<Rightarrow> lower_ideal_all e xs N_r_objectives ideal')"

definition update_ideal_objectives ::
  "('g, 'm) Genetic \<Rightarrow> ('g, 'm) GenerationType \<Rightarrow> bool \<Rightarrow> (unit, 'g, 'm) outcome option" where
  "update_ideal_objectives e g reset =
     (if user_request_stop e then Some (Returns () e)
      else if is_single_objective e then Some (Throws (Runtime_error ''Wrong code A0812473247.'') e)
      else
        (case (if reset
               then (case chromosomes g of
                       [] \<Rightarrow> None
                     | c0 # cs \<Rightarrow> Some (e\<lparr>ideal_objectives := reduced e (objectives c0)\<rparr>))
               else Some e) of
           None \<Rightarrow> None
         | Some e1 \<Rightarrow>
             (case lower_ideal_all e1 (chromosomes g) (length (ideal_objectives e1))
                     (ideal_objectives e1) of
                None \<Rightarrow> None
              | Some ideal \<Rightarrow> Some (Returns () (e1\<lparr>ideal_objectives := ideal\<rparr>)))))"

text \<open>
  \<^verbatim>\<open>report_generation\<close> calls the report callback of the mode; the callbacks return nothing, so
  what is left of the call is whether it is defined.
\<close>

definition report_generation :: "('g, 'm) Genetic \<Rightarrow> ('g, 'm) GenerationType \<Rightarrow> unit option" where
  "report_generation e new_generation =
     (if is_single_objective e
      then (case SO_report_generation e of
              None \<Rightarrow> None
            | Some report \<Rightarrow>
                (case vec_at (chromosomes new_generation) (best_chromosome_index new_generation) of
                   None \<Rightarrow> None
                 | Some best \<Rightarrow> Some (report (generation_step e) new_generation (genes best))))
      else (case MO_report_generation e of
              None \<Rightarrow> None
            | Some report \<Rightarrow>
                (case fronts new_generation of
                   [] \<Rightarrow> None
                 | front0 # rest \<Rightarrow> Some (report (generation_step e) new_generation front0))))"

section \<open>The first generation: \<^verbatim>\<open>solve_init\<close>\<close>

text \<open>
  \<^verbatim>\<open>solve_init\<close>, statement by statement; the output under \<^verbatim>\<open>verbose\<close> and the timer are left
  out. \<open>std_sort\<close> and \<open>threaded_init\<close> stand for \<^verbatim>\<open>std::sort\<close> and the threaded drivers.
\<close>

definition clear :: "'a Matrix \<Rightarrow> 'a Matrix" where
  "clear m = m\<lparr>n_rows := 0, n_cols := 0, data := []\<rparr>"

definition push_and_report ::
  "('g, 'm) Genetic \<Rightarrow> ('g, 'm) GenerationType \<Rightarrow> ('g, 'm) Genetic option" where
  \<comment> \<open>\<^verbatim>\<open>if (!user_request_stop) { generations_so_abs.push_back(...); report_generation(...); }\<close>\<close>
  "push_and_report e generation =
     (if \<not> user_request_stop e
      then map_option
             (\<lambda>reported. e\<lparr>generations_so_abs := generations_so_abs e @ [ThisGenSOAbs generation]\<rparr>)
             (report_generation
                (e\<lparr>generations_so_abs := generations_so_abs e @ [ThisGenSOAbs generation]\<rparr>)
                generation)
      else Some e)"

definition solve_init ::
  "((int \<Rightarrow> int \<Rightarrow> bool) \<Rightarrow> int list \<Rightarrow> int list) \<Rightarrow> ('g, 'm) thread_action \<Rightarrow> ('g, 'm) Genetic
     \<Rightarrow> (unit, 'g, 'm) outcome option" where
  "solve_init std_sort threaded_init e =
     (case check_settings e of
        Inl err \<Rightarrow> Some (Throws err e)
      | Inr checked \<Rightarrow>
          Option.bind
            (init_population threaded_init
               (e\<lparr>average_stall_count := 0, best_stall_count := 0, generation_step := - 1\<rparr>)
               GenerationType0)
            (\<lambda>(populated, e1).
               Option.bind (finalize_objectives (e1\<lparr>generation_step := 0\<rparr>) populated)
                 (\<lambda>evaluated.
                    bind_outcome (multi_objective_setup (e1\<lparr>generation_step := 0\<rparr>) evaluated)
                      (\<lambda>u e2.
                         bind_outcome (rank_population std_sort e2 evaluated)
                           (\<lambda>ranked e3.
                              Option.bind (finalize_generation e3 ranked)
                                (\<lambda>generation0.
                                   bind_outcome
                                     (if \<not> is_single_objective e3
                                      then bind_outcome (update_ideal_objectives e3 generation0 True)
                                             (\<lambda>u e4. Some (Returns ()
                                                (e4\<lparr>extreme_objectives := clear (extreme_objectives e4),
                                                    scalarized_objectives_min := []\<rparr>)))
                                      else Some (Returns () e3))
                                     (\<lambda>u e4.
                                        map_option
                                          (\<lambda>e5. Returns () (e5\<lparr>last_generation := generation0\<rparr>))
                                          (push_and_report e4 generation0))))))))"

section \<open>The variation of the next generation\<close>

text \<open>
  \<^verbatim>\<open>transfer\<close>, then \<^verbatim>\<open>crossover_and_mutation_range\<close> with its \<^verbatim>\<open>while (!successful)\<close> loop
  (two parents are drawn, and drawn again when they are equal; the child is crossed over,
  mutated with probability \<^verbatim>\<open>mutation_rate\<close>, and evaluated), and \<^verbatim>\<open>crossover_and_mutation\<close>
  with its guards in the order of the source.
\<close>

fun transfer_first :: "('g, 'm) GenerationType \<Rightarrow> nat list \<Rightarrow> ('g, 'm) ChromosomeType list
     \<Rightarrow> ('g, 'm) ChromosomeType list option" where
  "transfer_first g [] chosen = Some chosen"
| "transfer_first g (i # is) chosen =
     (case vec_at (sorted_indices g) (int i) of
        None \<Rightarrow> None
      | Some s \<Rightarrow>
          (case vec_at (chromosomes g) s of
             None \<Rightarrow> None
           | Some c \<Rightarrow> transfer_first g is (chosen @ [c])))"

definition transfer ::
  "('g, 'm) Genetic \<Rightarrow> ('g, 'm) GenerationType \<Rightarrow> ('g, 'm) GenerationType option" where
  "transfer e new_generation =
     (if user_request_stop e then Some new_generation
      else if \<not> is_interactive e
      then Some (new_generation\<lparr>chromosomes :=
                   chromosomes new_generation @ chromosomes (last_generation e)\<rparr>)
      else map_option (\<lambda>cs. new_generation\<lparr>chromosomes := cs\<rparr>)
             (transfer_first (last_generation e) [0..<nat (elite_count e)]
                (chromosomes new_generation)))"

definition draw_parent :: "('g, 'm) Genetic \<Rightarrow> (int \<times> ('g, 'm) Genetic) option" where
  "draw_parent e =
     (case random01 e of (r, e') \<Rightarrow>
        map_option (\<lambda>position. (position, e')) (select_parent (last_generation e) r))"

definition mutated :: "('g, 'm) Genetic \<Rightarrow> 'g \<Rightarrow> ('g \<times> ('g, 'm) Genetic) option" where
  "mutated e X_genes =
     (case random01 e of (r, e1) \<Rightarrow>
        if r \<le> mutation_rate e1
        then (case get_shrink_scale e1 (generation_step e1) (rng e1) of
                (shrink_scale, rng2) \<Rightarrow>
                  (case mutate e1 of
                     None \<Rightarrow> None
                   | Some mut \<Rightarrow>
                       (case mut X_genes rng2 shrink_scale of
                          (X_genes', rng3) \<Rightarrow> Some (X_genes', e1\<lparr>rng := rng3\<rparr>))))
        else Some (X_genes, e1))"

definition offspring ::
  "('g, 'm) Genetic \<Rightarrow> int \<Rightarrow> int \<Rightarrow> ('g \<times> ('g, 'm) Genetic) option" where
  "offspring e pidx_c1 pidx_c2 =
     (case vec_at (chromosomes (last_generation e)) pidx_c1 of
        None \<Rightarrow> None
      | Some p1 \<Rightarrow>
          (case vec_at (chromosomes (last_generation e)) pidx_c2 of
             None \<Rightarrow> None
           | Some p2 \<Rightarrow>
               (case crossover e of
                  None \<Rightarrow> None
                | Some cross \<Rightarrow>
                    (case cross (genes p1) (genes p2) (rng e) of
                       (X_genes, rng1) \<Rightarrow> mutated (e\<lparr>rng := rng1\<rparr>) X_genes))))"

definition accept_offspring ::
  "('g, 'm) Genetic \<Rightarrow> ('g, 'm) GenerationType \<Rightarrow> int \<Rightarrow> 'g
     \<Rightarrow> (bool \<times> ('g, 'm) GenerationType) option" where
  "accept_offspring e new_generation index X_genes =
     (if is_interactive e
      then (case eval_solution_IGA e of
              None \<Rightarrow> None
            | Some eval \<Rightarrow>
                (case eval X_genes new_generation of
                   Some X_middle_costs \<Rightarrow>
                     Some (True, new_generation\<lparr>chromosomes :=
                             chromosomes new_generation @ [new_chromosome X_genes X_middle_costs]\<rparr>)
                 | None \<Rightarrow> Some (False, new_generation)))
      else (case eval_solution e of
              None \<Rightarrow> None
            | Some eval \<Rightarrow>
                (case eval X_genes of
                   Some X_middle_costs \<Rightarrow>
                     (if index \<ge> 0
                      then (if nat index < length (chromosomes new_generation)
                            then Some (True, new_generation\<lparr>chromosomes :=
                                   (chromosomes new_generation)
                                     [nat index := new_chromosome X_genes X_middle_costs]\<rparr>)
                            else None)
                      else Some (True, new_generation\<lparr>chromosomes :=
                             chromosomes new_generation @ [new_chromosome X_genes X_middle_costs]\<rparr>))
                 | None \<Rightarrow> Some (False, new_generation))))"

partial_function (option) crossover_until_accepted ::
  "('g, 'm) Genetic \<Rightarrow> ('g, 'm) GenerationType \<Rightarrow> int
     \<Rightarrow> (('g, 'm) GenerationType \<times> ('g, 'm) Genetic) option" where
  "crossover_until_accepted e new_generation index =
     Option.bind (draw_parent e)
       (\<lambda>(pidx_c1, e1).
          Option.bind (draw_parent e1)
            (\<lambda>(pidx_c2, e2).
               if pidx_c1 = pidx_c2 then crossover_until_accepted e2 new_generation index
               else Option.bind (offspring e2 pidx_c1 pidx_c2)
                      (\<lambda>(X_genes, e3).
                         Option.bind (accept_offspring e3 new_generation index X_genes)
                           (\<lambda>(successful, new_generation').
                              if successful then Some (new_generation', e3)
                              else crossover_until_accepted e3 new_generation' index))))"

function crossover_and_mutation_range ::
  "('g, 'm) Genetic \<Rightarrow> ('g, 'm) GenerationType \<Rightarrow> int \<Rightarrow> int
     \<Rightarrow> (('g, 'm) GenerationType \<times> ('g, 'm) Genetic) option" where
  "crossover_and_mutation_range e new_generation x_index_begin x_index_end =
     (if x_index_begin \<le> x_index_end
      then (case crossover_until_accepted e new_generation x_index_begin of
              None \<Rightarrow> None
            | Some (new_generation', e') \<Rightarrow>
                crossover_and_mutation_range e' new_generation' (x_index_begin + 1) x_index_end)
      else Some (new_generation, e))"
  by pat_completeness auto
termination
  by (relation "measure (\<lambda>(e, new_generation, x_index_begin, x_index_end).
                  nat (x_index_end - x_index_begin + 1))")
     auto

declare crossover_and_mutation_range.simps [simp del]

fun sequential_variation ::
  "nat \<Rightarrow> ('g, 'm) Genetic \<Rightarrow> ('g, 'm) GenerationType
     \<Rightarrow> (('g, 'm) GenerationType \<times> ('g, 'm) Genetic) option" where
  "sequential_variation 0 e generation = Some (generation, e)"
| "sequential_variation (Suc n) e generation =
     (if user_request_stop e then Some (generation, e)
      else (case crossover_and_mutation_range e generation (- 1) (- 1) of
              None \<Rightarrow> None
            | Some (generation', e') \<Rightarrow> sequential_variation n e' generation'))"

definition crossover_and_mutation ::
  "('g, 'm) thread_action \<Rightarrow> ('g, 'm) Genetic \<Rightarrow> ('g, 'm) GenerationType
     \<Rightarrow> (('g, 'm) GenerationType, 'g, 'm) outcome option" where
  "crossover_and_mutation threaded_variation e new_generation =
     (if user_request_stop e then Some (Returns new_generation e)
      else if crossover_fraction e \<le> 0 \<or> crossover_fraction e > 1
      then Some (Throws (Runtime_error ''Wrong crossover fractoin'') e)
      else if mutation_rate e < 0 \<or> mutation_rate e > 1
      then Some (Throws (Runtime_error ''Wrong mutation rate'') e)
      else if generation_step e \<le> 0 then Some (Returns new_generation e)
      else
        (let N_add = uint (round (real (population e) * crossover_fraction e))
         in if is_interactive e \<and> uint (int N_add + elite_count e) \<noteq> population e
            then Some (Throws (Runtime_error
                   ''In IGA mode, elite fraction + crossover fraction must be equal to 1.0 !'') e)
            else map_option (\<lambda>(generation, e'). Returns generation e')
                   (if \<not> multi_threading e \<or> N_threads e = 1 \<or> is_interactive e
                    then sequential_variation N_add e new_generation
                    else map_option (\<lambda>(generation, rng'). (generation, e\<lparr>rng := rng'\<rparr>))
                           (threaded_variation e new_generation N_add))))"

text \<open>
  The error of the three settings guards of \<^verbatim>\<open>crossover_and_mutation\<close>, in the order of the
  source, as a function of the settings alone.
\<close>

definition variation_error :: "('g, 'm) Genetic \<Rightarrow> error option" where
  "variation_error e =
     (if crossover_fraction e \<le> 0 \<or> crossover_fraction e > 1
      then Some (Runtime_error ''Wrong crossover fractoin'')
      else if mutation_rate e < 0 \<or> mutation_rate e > 1
      then Some (Runtime_error ''Wrong mutation rate'')
      else if is_interactive e \<and>
              uint (int (uint (round (real (population e) * crossover_fraction e))) + elite_count e)
                \<noteq> population e
      then Some (Runtime_error
             ''In IGA mode, elite fraction + crossover fraction must be equal to 1.0 !'')
      else None)"

text \<open>
  The first three statements of \<^verbatim>\<open>solve_next_generation\<close>: the step counter, the transfer
  and the variation.
\<close>

definition solve_next_generation_variation ::
  "('g, 'm) thread_action \<Rightarrow> ('g, 'm) Genetic
     \<Rightarrow> (('g, 'm) GenerationType, 'g, 'm) outcome option" where
  "solve_next_generation_variation threaded_variation e =
     (case transfer (e\<lparr>generation_step := generation_step e + 1\<rparr>) GenerationType0 of
        None \<Rightarrow> None
      | Some new_generation \<Rightarrow>
          crossover_and_mutation threaded_variation
            (e\<lparr>generation_step := generation_step e + 1\<rparr>) new_generation)"

section \<open>The many-objective selection\<close>

text \<open>
  \<^verbatim>\<open>select_population_MO\<close> computes the objectives relative to the ideal point
  (\<^verbatim>\<open>zb_objectives\<close>), updates the extreme points (\<^verbatim>\<open>scalarize_objectives\<close>), solves for the
  intercepts of the hyperplane through them (\<^verbatim>\<open>build_hyperplane_intercepts\<close>), divides by the
  intercepts (\<^verbatim>\<open>norm_objectives\<close>), associates every chromosome with a reference vector
  (\<^verbatim>\<open>associate_to_references\<close>), takes whole fronts as long as they fit into the population
  and fills the rest from the next front in the niching loop.

  \<open>Matrix_sized\<close> is the constructor \<^verbatim>\<open>Matrix(n_rows, n_cols)\<close>, \<open>zeros_all\<close> is \<^verbatim>\<open>zeros()\<close> and
  \<open>zeros\<close> is \<^verbatim>\<open>zeros(rows, cols)\<close>. A division by a divisor that depends on the objectives is
  \<open>quotient\<close>: the divisor 0 gives an infinity or a NaN in C++, which the model does not
  represent, and \<open>None\<close> here.
\<close>

definition Matrix_sized :: "nat \<Rightarrow> nat \<Rightarrow> 'a::zero Matrix" where
  "Matrix_sized rows cols =
     \<lparr>n_rows = rows, n_cols = cols, data = replicate ((rows * cols) mod 2 ^ 32) 0\<rparr>"

definition zeros_all :: "'a::zero Matrix \<Rightarrow> 'a Matrix" where
  "zeros_all m = m\<lparr>data := map (\<lambda>x. 0) (data m)\<rparr>"

definition zeros :: "'a::zero Matrix \<Rightarrow> nat \<Rightarrow> nat \<Rightarrow> 'a Matrix" where
  "zeros m rows cols =
     m\<lparr>n_rows := rows, n_cols := cols, data := replicate ((rows * cols) mod 2 ^ 32) 0\<rparr>"

definition quotient :: "real \<Rightarrow> real \<Rightarrow> real option" where
  "quotient x y = (if y = 0 then None else Some (x / y))"

text \<open>The two loops that fill \<^verbatim>\<open>zb_objectives(i, j) = robj_x[j] - ideal_objectives[j]\<close>.\<close>

fun zb_cols ::
  "real Matrix \<Rightarrow> real list \<Rightarrow> real list \<Rightarrow> nat \<Rightarrow> nat list \<Rightarrow> real Matrix option" where
  "zb_cols zb robj_x ideal i [] = Some zb"
| "zb_cols zb robj_x ideal i (j # js) =
     (case vec_at robj_x (int j) of
        None \<Rightarrow> None
      | Some x \<Rightarrow>
          (case vec_at ideal (int j) of
             None \<Rightarrow> None
           | Some z \<Rightarrow>
               (case set_elem zb i j (x - z) of
                  None \<Rightarrow> None
                | Some zb' \<Rightarrow> zb_cols zb' robj_x ideal i js)))"

fun zb_rows ::
  "('g, 'm) Genetic \<Rightarrow> ('g, 'm) GenerationType \<Rightarrow> real Matrix \<Rightarrow> nat list
     \<Rightarrow> real Matrix option" where
  "zb_rows e g zb [] = Some zb"
| "zb_rows e g zb (i # is) =
     (case vec_at (chromosomes g) (int i) of
        None \<Rightarrow> None
      | Some c \<Rightarrow>
          (case zb_cols zb (reduced e (objectives c)) (ideal_objectives e) i [0..<N_robj e] of
             None \<Rightarrow> None
           | Some zb' \<Rightarrow> zb_rows e g zb' is))"

text \<open>
  \<^verbatim>\<open>scalarize_objectives\<close>. \<open>val_max_loop\<close> is the loop over \<open>k\<close> (the weights \<open>w\<close> are
  \<open>1\<close> and \<open>1e-10\<close>, never 0), \<open>scalarized\<close> the loop over \<open>j\<close> that fills \<open>s\<close>,
  \<open>copy_extreme\<close> the loop that copies a row of \<^verbatim>\<open>zb_objectives\<close> into
  \<^verbatim>\<open>extreme_objectives\<close>. The entries of \<^verbatim>\<open>scalarized_objectives_min\<close> start at
  \<^verbatim>\<open>+infinity\<close>, which is \<open>None\<close>. \<^verbatim>\<open>Nx\<close> is an \<^verbatim>\<open>int\<close>; were it negative, the allocation of \<open>s\<close>
  would fail with an exception of the standard library, which the model leaves out (\<open>None\<close>).
\<close>

fun val_max_loop :: "real Matrix \<Rightarrow> real list \<Rightarrow> nat \<Rightarrow> nat list \<Rightarrow> real \<Rightarrow> real option" where
  "val_max_loop zb w j [] val_max = Some val_max"
| "val_max_loop zb w j (k # ks) val_max =
     (case elem zb j k of
        None \<Rightarrow> None
      | Some z \<Rightarrow>
          (case vec_at w (int k) of
             None \<Rightarrow> None
           | Some wk \<Rightarrow> val_max_loop zb w j ks (max val_max (z / wk))))"

fun scalarized :: "real Matrix \<Rightarrow> real list \<Rightarrow> nat \<Rightarrow> nat list \<Rightarrow> real list option" where
  "scalarized zb w N_objectives [] = Some []"
| "scalarized zb w N_objectives (j # js) =
     (case val_max_loop zb w j [0..<N_objectives] (- (10 ^ 300)) of
        None \<Rightarrow> None
      | Some val_max \<Rightarrow> map_option ((#) val_max) (scalarized zb w N_objectives js))"

fun copy_extreme ::
  "real Matrix \<Rightarrow> real Matrix \<Rightarrow> nat \<Rightarrow> nat \<Rightarrow> nat list \<Rightarrow> real Matrix option" where
  "copy_extreme extreme zb i min_sc_idx [] = Some extreme"
| "copy_extreme extreme zb i min_sc_idx (j # js) =
     (case elem zb min_sc_idx j of
        None \<Rightarrow> None
      | Some z \<Rightarrow>
          (case set_elem extreme i j z of
             None \<Rightarrow> None
           | Some extreme' \<Rightarrow> copy_extreme extreme' zb i min_sc_idx js))"

fun scalarize_loop ::
  "real Matrix \<Rightarrow> nat \<Rightarrow> nat list \<Rightarrow> ('g, 'm) Genetic \<Rightarrow> ('g, 'm) Genetic option" where
  "scalarize_loop zb N_objectives [] e = Some e"
| "scalarize_loop zb N_objectives (i # is) e =
     (let w = (replicate N_objectives (1 / 10 ^ 10))[i := 1];
          Nx = to_int (int (get_n_rows zb))
      in if Nx < 0 then None
         else
           (case scalarized zb w N_objectives [0..<nat Nx] of
              None \<Rightarrow> None
            | Some s \<Rightarrow>
                (let min_sc_idx = index_of_min s
                 in (case vec_at s (int min_sc_idx) of
                       None \<Rightarrow> None
                     | Some min_sc \<Rightarrow>
                         (case vec_at (scalarized_objectives_min e) (int i) of
                            None \<Rightarrow> None
                          | Some bound \<Rightarrow>
                              if (case bound of None \<Rightarrow> True | Some b \<Rightarrow> min_sc < b)
                              then (case copy_extreme (extreme_objectives e) zb i min_sc_idx
                                           [0..<N_objectives] of
                                      None \<Rightarrow> None
                                    | Some extreme \<Rightarrow>
                                        scalarize_loop zb N_objectives is
                                          (e\<lparr>scalarized_objectives_min :=
                                                (scalarized_objectives_min e)[i := Some min_sc],
                                             extreme_objectives := extreme\<rparr>))
                              else scalarize_loop zb N_objectives is e)))))"

definition scalarize_objectives ::
  "('g, 'm) Genetic \<Rightarrow> real Matrix \<Rightarrow> ('g, 'm) Genetic option" where
  "scalarize_objectives e zb_objectives =
     (let N_objectives = get_n_cols zb_objectives;
          e1 = (if scalarized_objectives_min e = []
                then e\<lparr>extreme_objectives :=
                          zeros (extreme_objectives e) N_objectives N_objectives,
                       scalarized_objectives_min := replicate N_objectives None\<rparr>
                else e)
      in scalarize_loop zb_objectives N_objectives [0..<N_objectives] e1)"

text \<open>
  \<^verbatim>\<open>build_hyperplane_intercepts\<close>: the decomposition of the transposed matrix of the extreme
  points into \<open>L\<close> and \<open>U\<close> without pivoting, the two substitutions and the reciprocals.
  \<open>dot_LU L U a b\<close> is the inner loop \<^verbatim>\<open>sum += L(a, j) * U(j, b)\<close>, \<open>dot_row M v i\<close> the inner
  loop \<^verbatim>\<open>sum += M(i, k) * v[k]\<close>. As in \<open>scalarize_loop\<close>, a negative \<open>n\<close> is \<open>None\<close>.
\<close>

fun dot_LU ::
  "real Matrix \<Rightarrow> real Matrix \<Rightarrow> nat \<Rightarrow> nat \<Rightarrow> nat list \<Rightarrow> real \<Rightarrow> real option" where
  "dot_LU L U a b [] partial = Some partial"
| "dot_LU L U a b (j # js) partial =
     (case elem L a j of
        None \<Rightarrow> None
      | Some l \<Rightarrow>
          (case elem U j b of
             None \<Rightarrow> None
           | Some u \<Rightarrow> dot_LU L U a b js (partial + l * u)))"

fun dot_row :: "real Matrix \<Rightarrow> real list \<Rightarrow> nat \<Rightarrow> nat list \<Rightarrow> real \<Rightarrow> real option" where
  "dot_row M v i [] partial = Some partial"
| "dot_row M v i (k # ks) partial =
     (case elem M i k of
        None \<Rightarrow> None
      | Some m \<Rightarrow>
          (case vec_at v (int k) of
             None \<Rightarrow> None
           | Some x \<Rightarrow> dot_row M v i ks (partial + m * x)))"

fun upper_row ::
  "real Matrix \<Rightarrow> real Matrix \<Rightarrow> real Matrix \<Rightarrow> nat \<Rightarrow> nat list \<Rightarrow> real Matrix option" where
  "upper_row extreme L U i [] = Some U"
| "upper_row extreme L U i (k # ks) =
     (case dot_LU L U i k [0..<i] 0 of
        None \<Rightarrow> None
      | Some partial \<Rightarrow>
          (case elem extreme k i of
             None \<Rightarrow> None
           | Some x \<Rightarrow>
               (case set_elem U i k (x - partial) of
                  None \<Rightarrow> None
                | Some U' \<Rightarrow> upper_row extreme L U' i ks)))"

fun lower_column ::
  "real Matrix \<Rightarrow> real Matrix \<Rightarrow> real Matrix \<Rightarrow> nat \<Rightarrow> nat list \<Rightarrow> real Matrix option" where
  "lower_column extreme L U i [] = Some L"
| "lower_column extreme L U i (k # ks) =
     (if i = k
      then (case set_elem L i i 1 of
              None \<Rightarrow> None
            | Some L' \<Rightarrow> lower_column extreme L' U i ks)
      else (case dot_LU L U k i [0..<i] 0 of
              None \<Rightarrow> None
            | Some partial \<Rightarrow>
                (case elem extreme i k of
                   None \<Rightarrow> None
                 | Some x \<Rightarrow>
                     (case elem U i i of
                        None \<Rightarrow> None
                      | Some u \<Rightarrow>
                          (case quotient (x - partial) u of
                             None \<Rightarrow> None
                           | Some q \<Rightarrow>
                               (case set_elem L k i q of
                                  None \<Rightarrow> None
                                | Some L' \<Rightarrow> lower_column extreme L' U i ks))))))"

fun decompose ::
  "real Matrix \<Rightarrow> nat \<Rightarrow> nat list \<Rightarrow> real Matrix \<times> real Matrix
     \<Rightarrow> (real Matrix \<times> real Matrix) option" where
  "decompose extreme n [] (L, U) = Some (L, U)"
| "decompose extreme n (i # is) (L, U) =
     (case upper_row extreme L U i [i..<n] of
        None \<Rightarrow> None
      | Some U' \<Rightarrow>
          (case lower_column extreme L U' i [i..<n] of
             None \<Rightarrow> None
           | Some L' \<Rightarrow> decompose extreme n is (L', U')))"

fun forward :: "real Matrix \<Rightarrow> nat list \<Rightarrow> real list \<Rightarrow> real list option" where
  "forward L [] y = Some y"
| "forward L (i # is) y =
     (case dot_row L y i [0..<i] 0 of
        None \<Rightarrow> None
      | Some partial \<Rightarrow>
          (case elem L i i of
             None \<Rightarrow> None
           | Some l \<Rightarrow>
               (case quotient (1 - partial) l of
                  None \<Rightarrow> None
                | Some q \<Rightarrow> if i < length y then forward L is (y[i := q]) else None)))"

fun backward :: "real Matrix \<Rightarrow> real list \<Rightarrow> nat \<Rightarrow> nat list \<Rightarrow> real list \<Rightarrow> real list option" where
  "backward U y n [] x = Some x"
| "backward U y n (ii # iis) x =
     (let i = n - 1 - ii
      in (case dot_row U x i [i + 1..<n] 0 of
            None \<Rightarrow> None
          | Some partial \<Rightarrow>
              (case vec_at y (int i) of
                 None \<Rightarrow> None
               | Some yi \<Rightarrow>
                   (case elem U i i of
                      None \<Rightarrow> None
                    | Some u \<Rightarrow>
                        (case quotient (yi - partial) u of
                           None \<Rightarrow> None
                         | Some q \<Rightarrow>
                             if i < length x then backward U y n iis (x[i := q]) else None)))))"

fun reciprocals :: "real list \<Rightarrow> nat list \<Rightarrow> real list \<Rightarrow> real list option" where
  "reciprocals x [] xinv = Some xinv"
| "reciprocals x (i # is) xinv =
     (case vec_at x (int i) of
        None \<Rightarrow> None
      | Some xi \<Rightarrow>
          (case quotient 1 xi of
             None \<Rightarrow> None
           | Some q \<Rightarrow> if i < length xinv then reciprocals x is (xinv[i := q]) else None))"

definition build_hyperplane_intercepts ::
  "('g, 'm) Genetic \<Rightarrow> real list \<Rightarrow> (error + real list) option" where
  "build_hyperplane_intercepts e xinv =
     (if get_n_rows (extreme_objectives e) \<noteq> get_n_cols (extreme_objectives e)
      then Some (Inl (Assertion_failed ''extreme_objectives must be square! A21658463546''))
      else
        (let n = to_int (int (get_n_rows (extreme_objectives e)));
             L = zeros_all (Matrix_sized (uint n) (uint n));
             U = zeros_all (Matrix_sized (uint n) (uint n))
         in if n < 0 then None
            else
              (case decompose (extreme_objectives e) (nat n) [0..<nat n] (L, U) of
                 None \<Rightarrow> None
               | Some (L', U') \<Rightarrow>
                   (case forward L' [0..<nat n] (replicate (nat n) 0) of
                      None \<Rightarrow> None
                    | Some y \<Rightarrow>
                        (case backward U' y (nat n) [0..<nat n] (replicate (nat n) 0) of
                           None \<Rightarrow> None
                         | Some x \<Rightarrow>
                             map_option Inr
                               (reciprocals x [0..<nat n] (resize xinv (nat n) 0)))))))"

text \<open>The two loops that fill \<^verbatim>\<open>norm_objectives(i, j) = zb_objectives(i, j) / intercepts[j]\<close>.\<close>

fun norm_cols ::
  "real Matrix \<Rightarrow> real Matrix \<Rightarrow> real list \<Rightarrow> nat \<Rightarrow> nat list \<Rightarrow> real Matrix option" where
  "norm_cols norm_objectives zb intercepts i [] = Some norm_objectives"
| "norm_cols norm_objectives zb intercepts i (j # js) =
     (case elem zb i j of
        None \<Rightarrow> None
      | Some z \<Rightarrow>
          (case vec_at intercepts (int j) of
             None \<Rightarrow> None
           | Some c \<Rightarrow>
               (case quotient z c of
                  None \<Rightarrow> None
                | Some q \<Rightarrow>
                    (case set_elem norm_objectives i j q of
                       None \<Rightarrow> None
                     | Some norm_objectives' \<Rightarrow> norm_cols norm_objectives' zb intercepts i js))))"

fun norm_rows ::
  "real Matrix \<Rightarrow> real Matrix \<Rightarrow> real list \<Rightarrow> nat \<Rightarrow> nat list \<Rightarrow> real Matrix option" where
  "norm_rows norm_objectives zb intercepts N [] = Some norm_objectives"
| "norm_rows norm_objectives zb intercepts N (i # is) =
     (case norm_cols norm_objectives zb intercepts i [0..<N] of
        None \<Rightarrow> None
      | Some norm_objectives' \<Rightarrow> norm_rows norm_objectives' zb intercepts N is)"

text \<open>
  \<^verbatim>\<open>associate_to_references\<close>: for every chromosome \<open>i\<close> and reference vector \<open>j\<close> the distance of
  the normalised objectives of \<open>i\<close> from the line along \<open>j\<close>, stored in \<^verbatim>\<open>distances(i, j)\<close>; the
  chromosome is associated with the first vector at the smallest distance, whose
  \<^verbatim>\<open>niche_count\<close> is incremented. The four results are returned as a tuple: the associated
  vectors, their distances, the niche counts and the matrix of distances.
\<close>

definition norm2 :: "real list \<Rightarrow> real" where
  "norm2 x_vec = sqrt (foldl (\<lambda>partial e. partial + e * e) 0 x_vec)"

definition line_distance :: "real list \<Rightarrow> real list \<Rightarrow> (error + real) option" where
  \<comment> \<open>the body of the loop over \<open>j\<close>, from \<^verbatim>\<open>norm2\<close> to the distance \<^verbatim>\<open>dist\<close>\<close>
  "line_distance reference_vectors_row_j norm_obj =
     (let ref_vec_j_norm2 = norm2 reference_vectors_row_j
      in if ref_vec_j_norm2 = 0 \<and> reference_vectors_row_j \<noteq> [] then None
         else
           (let w = map (\<lambda>x. x / ref_vec_j_norm2) reference_vectors_row_j
            in if length w \<noteq> length norm_obj
               then Some (Inl (Assertion_failed ''Vector size mismatch! A349687921''))
               else (let scalar_wtnorm =
                           foldl (\<lambda>partial k. partial + w ! k * norm_obj ! k) 0
                             [0..<length norm_obj];
                         dist2 =
                           foldl (\<lambda>partial k. partial + (norm_obj ! k - scalar_wtnorm * w ! k)
                                                      * (norm_obj ! k - scalar_wtnorm * w ! k))
                             0 [0..<length norm_obj]
                     in Some (Inr (sqrt dist2)))))"

fun associate_one ::
  "real Matrix \<Rightarrow> real Matrix \<Rightarrow> nat \<Rightarrow> nat list \<Rightarrow> real \<times> nat \<times> real Matrix
     \<Rightarrow> (error + real \<times> nat \<times> real Matrix) option" where
  "associate_one refs norm_objectives i [] found = Some (Inr found)"
| "associate_one refs norm_objectives i (j # js) (dist_min, dist_min_index, dists) =
     (case get_row refs j of
        None \<Rightarrow> None
      | Some reference_vectors_row_j \<Rightarrow>
          (case get_row norm_objectives i of
             None \<Rightarrow> None
           | Some norm_obj \<Rightarrow>
               (case line_distance reference_vectors_row_j norm_obj of
                  None \<Rightarrow> None
                | Some (Inl err) \<Rightarrow> Some (Inl err)
                | Some (Inr distance_ij) \<Rightarrow>
                    (case set_elem dists i j distance_ij of
                       None \<Rightarrow> None
                     | Some dists' \<Rightarrow>
                         associate_one refs norm_objectives i js
                           (if j = 0 \<or> distance_ij < dist_min then (distance_ij, j, dists')
                            else (dist_min, dist_min_index, dists'))))))"

fun associate_all ::
  "real Matrix \<Rightarrow> real Matrix \<Rightarrow> nat \<Rightarrow> nat list
     \<Rightarrow> nat list \<times> real list \<times> nat list \<times> real Matrix
     \<Rightarrow> (error + nat list \<times> real list \<times> nat list \<times> real Matrix) option" where
  "associate_all refs norm_objectives N_ref [] found = Some (Inr found)"
| "associate_all refs norm_objectives N_ref (i # is)
       (associated, distance_ref_vector, counts, dists) =
     (case associate_one refs norm_objectives i [0..<N_ref] (0, 0, dists) of
        None \<Rightarrow> None
      | Some (Inl err) \<Rightarrow> Some (Inl err)
      | Some (Inr (dist_min, dist_min_index, dists')) \<Rightarrow>
          if i < length associated \<and> i < length distance_ref_vector
               \<and> dist_min_index < length counts
          then associate_all refs norm_objectives N_ref is
                 (associated[i := dist_min_index], distance_ref_vector[i := dist_min],
                  counts[dist_min_index := Suc (counts ! dist_min_index)], dists')
          else None)"

definition associate_to_references ::
  "('g, 'm) Genetic \<Rightarrow> ('g, 'm) GenerationType \<Rightarrow> real Matrix
     \<Rightarrow> (error + nat list \<times> real list \<times> nat list \<times> real Matrix) option" where
  "associate_to_references e gen norm_objectives =
     (let N_ref = get_n_rows (reference_vectors e);
          N_x = length (chromosomes gen) mod 2 ^ 32
      in associate_all (reference_vectors e) norm_objectives N_ref [0..<N_x]
           (replicate (length (chromosomes gen)) 0, replicate (length (chromosomes gen)) 0,
            replicate N_ref 0, zeros Matrix0 N_x N_ref))"

text \<open>
  The rest of \<^verbatim>\<open>select_population_MO\<close>: the loop that takes whole fronts as long as they fit
  into the population, the niching loop over the front that does not fit, and the copy of the
  chromosomes it has chosen. The niching loop need not end (an exhausted last front is asked
  again and again).
\<close>

fun chromosomes_at ::
  "('g, 'm) GenerationType \<Rightarrow> nat list \<Rightarrow> ('g, 'm) ChromosomeType list option" where
  "chromosomes_at g [] = Some []"
| "chromosomes_at g (i # is) =
     (case vec_at (chromosomes g) (int i) of
        None \<Rightarrow> None
      | Some c \<Rightarrow> map_option ((#) c) (chromosomes_at g is))"

function take_fronts ::
  "('g, 'm) GenerationType \<Rightarrow> nat \<Rightarrow> nat \<Rightarrow> ('g, 'm) ChromosomeType list
     \<Rightarrow> (('g, 'm) ChromosomeType list \<times> nat) option" where
  "take_fronts g P last_front_index chosen =
     (if last_front_index < length (fronts g)
      then (if length chosen + length (fronts g ! last_front_index) \<le> P
            then (case chromosomes_at g (fronts g ! last_front_index) of
                    None \<Rightarrow> None
                  | Some cs \<Rightarrow> take_fronts g P (Suc last_front_index) (chosen @ cs))
            else Some (chosen, last_front_index))
      else None)"
  by pat_completeness auto
termination
  by (relation "measure (\<lambda>(g, P, last_front_index, chosen). length (fronts g) - last_front_index)")
     auto

declare take_fronts.simps [simp del]

partial_function (option) niching_loop ::
  "('g, 'm) Genetic \<Rightarrow> nat \<Rightarrow> nat list \<Rightarrow> real Matrix \<Rightarrow> nat \<Rightarrow> niching
     \<Rightarrow> (niching \<times> ('g, 'm) Genetic) option" where
  "niching_loop e N_chromosomes associated dists taken s =
     (if taken + length (to_add s) < population e
      then (case niching_step e N_chromosomes associated dists s of
              None \<Rightarrow> None
            | Some (s', e') \<Rightarrow> niching_loop e' N_chromosomes associated dists taken s')
      else Some (s, e))"

definition select_by_niches ::
  "('g, 'm) Genetic \<Rightarrow> ('g, 'm) GenerationType \<Rightarrow> real Matrix \<Rightarrow> ('g, 'm) GenerationType
     \<Rightarrow> (error + ('g, 'm) GenerationType \<times> ('g, 'm) Genetic) option" where
  "select_by_niches e g norm_objectives g2 =
     (case associate_to_references e g norm_objectives of
        None \<Rightarrow> None
      | Some (Inl err) \<Rightarrow> Some (Inl err)
      | Some (Inr (associated, distance_ref_vector, counts, dists)) \<Rightarrow>
          (case take_fronts g (population e) 0 (chromosomes g2) of
             None \<Rightarrow> None
           | Some (chosen, last_front_index) \<Rightarrow>
               (case niching_loop e (length (chromosomes g)) associated dists (length chosen)
                       \<lparr>last_front = fronts g ! last_front_index, to_add = [],
                        niche_count = counts\<rparr> of
                  None \<Rightarrow> None
                | Some (s, e') \<Rightarrow>
                    map_option (\<lambda>cs. Inr (g2\<lparr>chromosomes := chosen @ cs\<rparr>, e'))
                      (chromosomes_at g (to_add s)))))"

text \<open>
  \<open>normalize_objectives\<close> is \<^verbatim>\<open>select_population_MO\<close> from \<^verbatim>\<open>zb_objectives\<close> to
  \<^verbatim>\<open>norm_objectives\<close>; \<open>with_reference_vectors\<close> is the statement that generates the reference
  vectors when there are none.
\<close>

definition normalize_objectives ::
  "('g, 'm) Genetic \<Rightarrow> ('g, 'm) GenerationType \<Rightarrow> (real Matrix, 'g, 'm) outcome option" where
  "normalize_objectives e g =
     (let N_chromosomes = length (chromosomes g) mod 2 ^ 32
      in (case zb_rows e g (Matrix_sized N_chromosomes (N_robj e)) [0..<N_chromosomes] of
            None \<Rightarrow> None
          | Some zb_objectives \<Rightarrow>
              (case scalarize_objectives e zb_objectives of
                 None \<Rightarrow> None
               | Some e1 \<Rightarrow>
                   (case build_hyperplane_intercepts e1 [] of
                      None \<Rightarrow> None
                    | Some (Inl err) \<Rightarrow> Some (Throws err e1)
                    | Some (Inr intercepts) \<Rightarrow>
                        map_option (\<lambda>norm_objectives. Returns norm_objectives e1)
                          (norm_rows
                             (Matrix_sized (length (chromosomes g) mod 2 ^ 32)
                                (length intercepts mod 2 ^ 32))
                             zb_objectives intercepts (N_robj e1) [0..<N_chromosomes])))))"

definition with_reference_vectors ::
  "('g, 'm) Genetic \<Rightarrow> ('g, 'm) GenerationType \<Rightarrow> (unit, 'g, 'm) outcome option" where
  "with_reference_vectors e g =
     (if empty_Matrix (reference_vectors e)
      then (case chromosomes g of
              [] \<Rightarrow> None
            | c0 # cs \<Rightarrow>
                (let obj_dept = length (reduced e (objectives c0)) mod 2 ^ 32
                 in (case generate_referenceVectors (to_int (int obj_dept))
                            (to_int (int (reference_vector_divisions e))) of
                       Inl err \<Rightarrow> Some (Throws err e)
                     | Inr refs \<Rightarrow> Some (Returns () (e\<lparr>reference_vectors := refs\<rparr>)))))
      else Some (Returns () e))"

definition select_population_MO ::
  "('g, 'm) Genetic \<Rightarrow> ('g, 'm) GenerationType \<Rightarrow> ('g, 'm) GenerationType
     \<Rightarrow> (('g, 'm) GenerationType, 'g, 'm) outcome option" where
  "select_population_MO e g g2 =
     (case update_ideal_objectives e g False of
        None \<Rightarrow> None
      | Some (Throws err e1) \<Rightarrow> Some (Throws err e1)
      | Some (Returns u e1) \<Rightarrow>
          if generation_step e1 \<le> 0 then Some (Returns g e1)
          else if N_robj e1 = 0
          then Some (Throws (Runtime_error
                  ''Number of the reduced objectives is zero. A68756541321'') e1)
          else
            (case normalize_objectives e1 g of
               None \<Rightarrow> None
             | Some (Throws err e2) \<Rightarrow> Some (Throws err e2)
             | Some (Returns norm_objectives e2) \<Rightarrow>
                 if length (chromosomes g) = population e2 then Some (Returns g e2)
                 else
                   (case with_reference_vectors e2 g of
                      None \<Rightarrow> None
                    | Some (Throws err e3) \<Rightarrow> Some (Throws err e3)
                    | Some (Returns u e3) \<Rightarrow>
                        (case select_by_niches e3 g norm_objectives
                                (g2\<lparr>chromosomes := []\<rparr>) of
                           None \<Rightarrow> None
                         | Some (Inl err) \<Rightarrow> Some (Throws err e3)
                         | Some (Inr (selected, e4)) \<Rightarrow> Some (Returns selected e4)))))"

text \<open>
  The niche count as the specification defines it: the number of the chromosomes already
  selected that are associated with the reference vector.
\<close>

definition selected_niche_count :: "nat list \<Rightarrow> nat list \<Rightarrow> nat \<Rightarrow> nat" where
  "selected_niche_count associated selected j = length (filter (\<lambda>i. associated ! i = j) selected)"

section \<open>Verified properties\<close>

subsection \<open>Dominance\<close>

text \<open>
  Claim C7. For two chromosomes whose objective vectors have the same length,
  \<open>dominates a b\<close> returns true exactly when no component of \<open>a\<close> strictly exceeds the
  corresponding component of \<open>b\<close> and at least one component of \<open>a\<close> is strictly less; when
  the two objective vectors are equal, neither chromosome dominates the other.
\<close>

theorem dominates_iff:
  assumes "length (objectives a) = length (objectives b)"
  shows "dominates a b =
           Inr ((\<forall>i<length (objectives a). \<not> objectives a ! i > objectives b ! i)
              \<and> (\<exists>i<length (objectives a). objectives a ! i < objectives b ! i))
       \<and> (objectives a = objectives b \<longrightarrow> dominates a b = Inr False \<and> dominates b a = Inr False)"
proof -
  let ?n = "length (objectives a)"
  have ex1: "list_ex (\<lambda>i. objectives a ! i > objectives b ! i) [0..<?n]
               \<longleftrightarrow> (\<exists>i<?n. objectives a ! i > objectives b ! i)"
    by (auto simp: list_ex_iff)
  have ex2: "list_ex (\<lambda>i. objectives a ! i < objectives b ! i) [0..<?n]
               \<longleftrightarrow> (\<exists>i<?n. objectives a ! i < objectives b ! i)"
    by (auto simp: list_ex_iff)
  have main: "dominates a b =
           Inr ((\<forall>i<?n. \<not> objectives a ! i > objectives b ! i)
              \<and> (\<exists>i<?n. objectives a ! i < objectives b ! i))"
    using assms unfolding dominates_def ex1 ex2 by auto
  have eq: "dominates a b = Inr False \<and> dominates b a = Inr False"
    if "objectives a = objectives b"
    using that by (simp add: dominates_def list_ex_iff)
  from main eq show ?thesis by blast
qed

theorem dominates_iff_witness:
  "dominates \<lparr>genes = (), middle_costs = (), total_cost = 0, objectives = [1, 2]\<rparr>
             \<lparr>genes = (), middle_costs = (), total_cost = 0, objectives = [1, 3]\<rparr> = Inr True
   \<and> dominates \<lparr>genes = (), middle_costs = (), total_cost = 0, objectives = [1, 3]\<rparr>
               \<lparr>genes = (), middle_costs = (), total_cost = 0, objectives = [1, 2]\<rparr> = Inr False
   \<and> dominates \<lparr>genes = (), middle_costs = (), total_cost = 0, objectives = [1, 2]\<rparr>
               \<lparr>genes = (), middle_costs = (), total_cost = 0, objectives = [1, 2]\<rparr> = Inr False"
  using dominates_iff [of "\<lparr>genes = (), middle_costs = (), total_cost = 0, objectives = [1, 2]\<rparr>"
                          "\<lparr>genes = (), middle_costs = (), total_cost = 0, objectives = [1, 3]\<rparr>"]
        dominates_iff [of "\<lparr>genes = (), middle_costs = (), total_cost = 0, objectives = [1, 3]\<rparr>"
                          "\<lparr>genes = (), middle_costs = (), total_cost = 0, objectives = [1, 2]\<rparr>"]
        dominates_iff [of "\<lparr>genes = (), middle_costs = (), total_cost = 0, objectives = [1, 2]\<rparr>"
                          "\<lparr>genes = (), middle_costs = (), total_cost = 0, objectives = [1, 2]\<rparr>"]
  by (simp add: All_less_Suc Ex_less_Suc numeral_2_eq_2)

subsection \<open>Printing a matrix\<close>

lemma print_cols_length:
  "print_cols m i js = Some out \<Longrightarrow> length out = 2 * length js"
  by (induction js arbitrary: out) (auto split: option.splits)

lemma print_cols_defined:
  "\<forall>j\<in>set js. elem_index m i j < length (data m) \<Longrightarrow> \<exists>out. print_cols m i js = Some out"
  by (induction js) (auto simp: elem_def)

lemma print_rows_defined:
  "\<forall>i\<in>set is. \<forall>j<n_cols m. elem_index m i j < length (data m)
     \<Longrightarrow> \<exists>out. print_rows m is = Some out"
proof (induction "is")
  case Nil
  then show ?case by simp
next
  case (Cons i "is")
  from Cons.prems have "\<forall>j\<in>set [0..<n_cols m]. elem_index m i j < length (data m)"
    by simp
  then obtain line where "print_cols m i [0..<n_cols m] = Some line"
    using print_cols_defined by blast
  moreover obtain out where "print_rows m is = Some out"
    using Cons by auto
  ultimately show ?case by simp
qed

text \<open>
  Claim C10. \<open>print\<close> is not a read-only operation: when it returns, the element storage
  has been cleared (\<open>empty()\<close> is true and \<open>data\<close> holds nothing) while \<open>get_n_rows()\<close> and
  \<open>get_n_cols()\<close> still report the dimensions the matrix had, so a matrix that held elements
  is changed by printing it. It does return for every matrix whose storage holds an element
  for each position \<open>(i, j)\<close> it reads.
\<close>

theorem print_clears_data:
  "(print m = Some (out, m') \<longrightarrow>
      empty_Matrix m' \<and> data m' = [] \<and> get_n_rows m' = get_n_rows m \<and> get_n_cols m' = get_n_cols m
      \<and> (data m \<noteq> [] \<longrightarrow> m' \<noteq> m))
   \<and> ((\<forall>i<n_rows m. \<forall>j<n_cols m. elem_index m i j < length (data m)) \<longrightarrow>
        (\<exists>out. print m = Some (out, m\<lparr>data := []\<rparr>)))"
proof -
  have cleared: "empty_Matrix m' \<and> data m' = [] \<and> get_n_rows m' = get_n_rows m
      \<and> get_n_cols m' = get_n_cols m \<and> (data m \<noteq> [] \<longrightarrow> m' \<noteq> m)"
    if "print m = Some (out, m')"
  proof -
    from that have m': "m' = m\<lparr>data := []\<rparr>"
      by (auto simp: print_def split: option.splits)
    then have "data m' = []"
      by simp
    moreover from this have "data m \<noteq> [] \<longrightarrow> m' \<noteq> m"
      by auto
    ultimately show ?thesis
      using m' by (simp add: empty_Matrix_def get_n_rows_def get_n_cols_def)
  qed
  have returns: "\<exists>out. print m = Some (out, m\<lparr>data := []\<rparr>)"
    if "\<forall>i<n_rows m. \<forall>j<n_cols m. elem_index m i j < length (data m)"
  proof -
    from that
    have "\<forall>i\<in>set [0..<n_rows m]. \<forall>j<n_cols m. elem_index m i j < length (data m)"
      by simp
    then obtain out where "print_rows m [0..<n_rows m] = Some out"
      using print_rows_defined by blast
    then show ?thesis
      by (simp add: print_def)
  qed
  from cleared returns show ?thesis
    by blast
qed

theorem print_clears_data_witness:
  "print \<lparr>n_rows = 2, n_cols = 2, data = [1, 2, 3, 4 :: int]\<rparr>
     = Some ([Tab, Val 1, Tab, Val 2, Endl, Tab, Val 3, Tab, Val 4, Endl],
             \<lparr>n_rows = 2, n_cols = 2, data = []\<rparr>)
   \<and> empty_Matrix \<lparr>n_rows = 2, n_cols = 2, data = [] :: int list\<rparr>
   \<and> get_n_rows \<lparr>n_rows = 2, n_cols = 2, data = [] :: int list\<rparr> = 2
   \<and> get_n_cols \<lparr>n_rows = 2, n_cols = 2, data = [] :: int list\<rparr> = 2
   \<and> \<not> empty_Matrix \<lparr>n_rows = 2, n_cols = 2, data = [1, 2, 3, 4 :: int]\<rparr>"
proof -
  let ?m = "\<lparr>n_rows = 2, n_cols = 2, data = [1, 2, 3, 4 :: int]\<rparr>"
  let ?out = "[Tab, Val 1, Tab, Val 2, Endl, Tab, Val 3, Tab, Val 4, Endl :: int out_item]"
  let ?m' = "\<lparr>n_rows = 2, n_cols = 2, data = [] :: int list\<rparr>"
  have run: "print ?m = Some (?out, ?m')"
    by (simp add: print_def elem_def elem_index_def upt_rec)
  have inside: "\<forall>i<2. \<forall>j<2. elem_index ?m i j < 4"
    by (auto simp: elem_index_def less_2_cases_iff)
  from print_clears_data [of ?m ?out ?m'] run inside show ?thesis
    by (simp add: get_n_rows_def get_n_cols_def empty_Matrix_def)
qed

subsection \<open>Reference vectors\<close>

lemma vec_at_nat: "vec_at v (int k) = (if k < length v then Some (v ! k) else None)"
  by (simp add: vec_at_def)

lemma elem_index_small:
  "row * n_cols m + col < 2 ^ 32 \<Longrightarrow> elem_index m row col = row * n_cols m + col"
  by (simp add: elem_index_def)

lemma assign_cols_writes:
  assumes "n_cols m = c" "i * c + c \<le> length (data m)" "length (data m) < 2 ^ 32"
    and "\<forall>j\<in>set js. j < c" "length Ai = c"
  shows "\<exists>m'. assign_cols m Ai i js = Some m' \<and> n_rows m' = n_rows m \<and> n_cols m' = c
           \<and> length (data m') = length (data m)
           \<and> (\<forall>k<length (data m). data m' ! k =
                  (if \<exists>j\<in>set js. k = i * c + j then Ai ! (k - i * c) else data m ! k))"
  using assms
proof (induction js arbitrary: m)
  case Nil
  then show ?case by simp
next
  case (Cons j js)
  let ?k = "i * c + j"
  let ?m1 = "m\<lparr>data := (data m)[?k := Ai ! j]\<rparr>"
  from Cons.prems have j: "j < c" and k: "?k < length (data m)"
    by auto
  with Cons.prems have idx: "elem_index m i j = ?k"
    by (simp add: elem_index_def)
  have rd: "vec_at Ai (int j) = Some (Ai ! j)"
    using j Cons.prems by (simp add: vec_at_def)
  have wr: "set_elem m i j (Ai ! j) = Some ?m1"
    using idx k by (simp add: set_elem_def Let_def)
  have "\<exists>m'. assign_cols ?m1 Ai i js = Some m' \<and> n_rows m' = n_rows ?m1 \<and> n_cols m' = c
           \<and> length (data m') = length (data ?m1)
           \<and> (\<forall>k<length (data ?m1). data m' ! k =
                  (if \<exists>j\<in>set js. k = i * c + j then Ai ! (k - i * c) else data ?m1 ! k))"
    by (rule Cons.IH) (use Cons.prems in auto)
  then obtain m' where m': "assign_cols ?m1 Ai i js = Some m'" "n_rows m' = n_rows m"
    "n_cols m' = c" "length (data m') = length (data m)"
    "\<forall>k<length (data m). data m' ! k =
        (if \<exists>j\<in>set js. k = i * c + j then Ai ! (k - i * c) else data ?m1 ! k)"
    by auto
  have "\<forall>k<length (data m). data m' ! k =
          (if \<exists>j'\<in>set (j # js). k = i * c + j' then Ai ! (k - i * c) else data m ! k)"
    using m'(5) by (auto simp: nth_list_update)
  with m' rd wr show ?case
    by simp
qed

definition holds_rows :: "'a Matrix \<Rightarrow> 'a list list \<Rightarrow> bool" where
  "holds_rows A L \<longleftrightarrow>
     n_rows A = length L \<and> length (data A) = n_rows A * n_cols A \<and> length (data A) < 2 ^ 32
     \<and> (\<forall>i<length L. length (L ! i) = n_cols A
          \<and> (\<forall>j<n_cols A. data A ! (i * n_cols A + j) = L ! i ! j))"

lemma in_row_iff:
  fixes c :: nat
  assumes "j < c" "j' < c"
  shows "i * c + j = i' * c + j' \<longleftrightarrow> i = i' \<and> j = j'"
proof
  assume eq: "i * c + j = i' * c + j'"
  have "(i * c + j) div c = i" "(i' * c + j') div c = i'"
    using assms by simp_all
  with eq have "i = i'" by simp
  with eq show "i = i' \<and> j = j'" by simp
qed simp

lemma assign_rows_writes:
  assumes "n_cols m = c" "length (data m) = r * c" "r * c < 2 ^ 32" "0 < c"
    and "\<forall>i\<in>set is. i < r" "length L = r" "\<forall>v\<in>set L. length v = c"
  shows "\<exists>m'. assign_rows m L c is = Inr m' \<and> n_rows m' = n_rows m \<and> n_cols m' = c
           \<and> length (data m') = r * c
           \<and> (\<forall>i<r. \<forall>j<c. data m' ! (i * c + j) =
                  (if i \<in> set is then L ! i ! j else data m ! (i * c + j)))"
  using assms
proof (induction "is" arbitrary: m)
  case Nil
  then show ?case by simp
next
  case (Cons i "is")
  from Cons.prems have i: "i < r" by simp
  then have rd: "vec_at L (int i) = Some (L ! i)" and len: "length (L ! i) = c"
    using Cons.prems by (simp_all add: vec_at_def)
  have "i * c + c \<le> r * c"
  proof -
    have "Suc i * c \<le> r * c" using i by (intro mult_le_mono1) simp
    then show ?thesis by simp
  qed
  then have "\<exists>m1. assign_cols m (L ! i) i [0..<c] = Some m1 \<and> n_rows m1 = n_rows m \<and> n_cols m1 = c
           \<and> length (data m1) = length (data m)
           \<and> (\<forall>k<length (data m). data m1 ! k =
                  (if \<exists>j\<in>set [0..<c]. k = i * c + j then (L ! i) ! (k - i * c) else data m ! k))"
    by (intro assign_cols_writes) (use Cons.prems len in auto)
  then obtain m1 where m1: "assign_cols m (L ! i) i [0..<c] = Some m1" "n_rows m1 = n_rows m"
    "n_cols m1 = c" "length (data m1) = r * c"
    "\<forall>k<r * c. data m1 ! k =
        (if \<exists>j\<in>set [0..<c]. k = i * c + j then (L ! i) ! (k - i * c) else data m ! k)"
    using Cons.prems by auto
  have "\<exists>m'. assign_rows m1 L c is = Inr m' \<and> n_rows m' = n_rows m1 \<and> n_cols m' = c
           \<and> length (data m') = r * c
           \<and> (\<forall>i<r. \<forall>j<c. data m' ! (i * c + j) =
                  (if i \<in> set is then L ! i ! j else data m1 ! (i * c + j)))"
    by (rule Cons.IH) (use Cons.prems m1 in auto)
  then obtain m' where m': "assign_rows m1 L c is = Inr m'" "n_rows m' = n_rows m"
    "n_cols m' = c" "length (data m') = r * c"
    "\<forall>i<r. \<forall>j<c. data m' ! (i * c + j) =
        (if i \<in> set is then L ! i ! j else data m1 ! (i * c + j))"
    using m1 by auto
  have "data m' ! (i' * c + j) =
          (if i' \<in> set (i # is) then L ! i' ! j else data m ! (i' * c + j))"
    if "i' < r" "j < c" for i' j
  proof -
    have "i' * c + c \<le> r * c"
    proof -
      have "Suc i' * c \<le> r * c" using that by (intro mult_le_mono1) simp
      then show ?thesis by simp
    qed
    then have k: "i' * c + j < r * c" using that by simp
    show ?thesis
    proof (cases "i' \<in> set is")
      case True
      then show ?thesis using m'(5) that by simp
    next
      case False
      then have "data m' ! (i' * c + j) = data m1 ! (i' * c + j)"
        using m'(5) that by simp
      also have "\<dots> = (if \<exists>j'\<in>set [0..<c]. i' * c + j = i * c + j'
                        then (L ! i) ! (i' * c + j - i * c) else data m ! (i' * c + j))"
        using m1(5) k by simp
      also have "\<dots> = (if i' = i then L ! i' ! j else data m ! (i' * c + j))"
        using that in_row_iff [of j c _ i' i] by auto
      finally show ?thesis using False by simp
    qed
  qed
  with m' m1 rd len Cons.prems show ?case
    by (simp add: Cons.prems(1))
qed

lemma assign_rectangular:
  assumes "L \<noteq> []" "0 < c" "\<forall>v\<in>set L. length v = c" "length L * c < 2 ^ 32"
  shows "\<exists>A. assign Matrix0 L = Inr A \<and> n_cols A = c \<and> holds_rows A L"
proof -
  let ?r = "length L"
  have r: "0 < ?r" using assms by simp
  have "?r * 1 \<le> ?r * c" using assms(2) by simp
  with assms(4) have rsmall: "?r < 2 ^ 32" by linarith
  have "1 * c \<le> ?r * c" using r by (simp add: Suc_le_eq)
  with assms(4) have csmall: "c < 2 ^ 32" by linarith
  have c0: "length (L ! 0) = c" using assms r by simp
  let ?m = "\<lparr>n_rows = ?r, n_cols = c, data = replicate (?r * c) (0::'a)\<rparr>"
  have unfold: "assign Matrix0 L = assign_rows ?m L c [0..<?r]"
    using r rsmall csmall c0 assms by (simp add: assign_def Matrix0_def resize_def Let_def)
  have "\<exists>m'. assign_rows ?m L c [0..<?r] = Inr m' \<and> n_rows m' = n_rows ?m \<and> n_cols m' = c
           \<and> length (data m') = ?r * c
           \<and> (\<forall>i<?r. \<forall>j<c. data m' ! (i * c + j) =
                  (if i \<in> set [0..<?r] then L ! i ! j else data ?m ! (i * c + j)))"
    by (rule assign_rows_writes) (use assms in auto)
  then show ?thesis
    unfolding unfold holds_rows_def using assms by auto
qed


lemma row_inside:
  fixes c :: nat
  assumes "i < r"
  shows "i * c + c \<le> r * c"
proof -
  have "Suc i * c \<le> r * c" using assms by (intro mult_le_mono1) simp
  then show ?thesis by simp
qed

lemma scale_cols_writes:
  assumes "n_cols A = c" "i * c + c \<le> length (data A)" "length (data A) < 2 ^ 32"
    and "\<forall>j\<in>set js. j < c" "distinct js"
  shows "\<exists>A'. scale_cols A d i js = Some A' \<and> n_rows A' = n_rows A \<and> n_cols A' = c
           \<and> length (data A') = length (data A)
           \<and> (\<forall>k<length (data A). data A' ! k =
                  (if \<exists>j\<in>set js. k = i * c + j then data A ! k / d else data A ! k))"
  using assms
proof (induction js arbitrary: A)
  case Nil
  then show ?case by simp
next
  case (Cons j js)
  let ?k = "i * c + j"
  let ?A1 = "A\<lparr>data := (data A)[?k := data A ! ?k / d]\<rparr>"
  from Cons.prems have j: "j < c" and k: "?k < length (data A)"
    by auto
  with Cons.prems have idx: "elem_index A i j = ?k"
    by (simp add: elem_index_def)
  have rd: "elem A i j = Some (data A ! ?k)"
    using idx k by (simp add: elem_def)
  have wr: "set_elem A i j (data A ! ?k / d) = Some ?A1"
    using idx k by (simp add: set_elem_def Let_def)
  have "\<exists>A'. scale_cols ?A1 d i js = Some A' \<and> n_rows A' = n_rows ?A1 \<and> n_cols A' = c
           \<and> length (data A') = length (data ?A1)
           \<and> (\<forall>k<length (data ?A1). data A' ! k =
                  (if \<exists>j\<in>set js. k = i * c + j then data ?A1 ! k / d else data ?A1 ! k))"
    by (rule Cons.IH) (use Cons.prems in auto)
  then obtain A' where A': "scale_cols ?A1 d i js = Some A'" "n_rows A' = n_rows A"
    "n_cols A' = c" "length (data A') = length (data A)"
    "\<forall>k<length (data A). data A' ! k =
        (if \<exists>j\<in>set js. k = i * c + j then data ?A1 ! k / d else data ?A1 ! k)"
    by auto
  have "data A' ! k =
          (if \<exists>j'\<in>set (j # js). k = i * c + j' then data A ! k / d else data A ! k)"
    if "k < length (data A)" for k
  proof (cases "k = ?k")
    case True
    with Cons.prems(5) have "\<not> (\<exists>j'\<in>set js. k = i * c + j')"
      by auto
    with A'(5) that have "data A' ! k = data ?A1 ! k"
      by simp
    with True that show ?thesis
      by simp
  next
    case False
    then have "data ?A1 ! k = data A ! k"
      by simp
    moreover from False have "(\<exists>j'\<in>set (j # js). k = i * c + j') \<longleftrightarrow> (\<exists>j'\<in>set js. k = i * c + j')"
      by auto
    ultimately show ?thesis
      using A'(5) that by simp
  qed
  then have "\<forall>k<length (data A). data A' ! k =
          (if \<exists>j'\<in>set (j # js). k = i * c + j' then data A ! k / d else data A ! k)"
    by blast
  with A' rd wr show ?case
    by simp
qed

lemma scale_rows_writes:
  assumes "n_cols A = c" "length (data A) = r * c" "r * c < 2 ^ 32"
    and "\<forall>i\<in>set is. i < r" "distinct is"
  shows "\<exists>A'. scale_rows A d is = Some A' \<and> n_rows A' = n_rows A \<and> n_cols A' = c
           \<and> length (data A') = r * c
           \<and> (\<forall>i<r. \<forall>j<c. data A' ! (i * c + j) =
                  (if i \<in> set is then data A ! (i * c + j) / d else data A ! (i * c + j)))"
  using assms
proof (induction "is" arbitrary: A)
  case Nil
  then show ?case by simp
next
  case (Cons i "is")
  from Cons.prems have i: "i < r" by simp
  then have "\<exists>A1. scale_cols A d i [0..<c] = Some A1 \<and> n_rows A1 = n_rows A \<and> n_cols A1 = c
           \<and> length (data A1) = length (data A)
           \<and> (\<forall>k<length (data A). data A1 ! k =
                  (if \<exists>j\<in>set [0..<c]. k = i * c + j then data A ! k / d else data A ! k))"
    by (intro scale_cols_writes) (use Cons.prems row_inside [of i r c] in auto)
  then obtain A1 where A1: "scale_cols A d i [0..<c] = Some A1" "n_rows A1 = n_rows A"
    "n_cols A1 = c" "length (data A1) = r * c"
    "\<forall>k<r * c. data A1 ! k =
        (if \<exists>j\<in>set [0..<c]. k = i * c + j then data A ! k / d else data A ! k)"
    using Cons.prems by auto
  have "\<exists>A'. scale_rows A1 d is = Some A' \<and> n_rows A' = n_rows A1 \<and> n_cols A' = c
           \<and> length (data A') = r * c
           \<and> (\<forall>i<r. \<forall>j<c. data A' ! (i * c + j) =
                  (if i \<in> set is then data A1 ! (i * c + j) / d else data A1 ! (i * c + j)))"
    by (rule Cons.IH) (use Cons.prems A1 in auto)
  then obtain A' where A': "scale_rows A1 d is = Some A'" "n_rows A' = n_rows A"
    "n_cols A' = c" "length (data A') = r * c"
    "\<forall>i<r. \<forall>j<c. data A' ! (i * c + j) =
        (if i \<in> set is then data A1 ! (i * c + j) / d else data A1 ! (i * c + j))"
    using A1 by auto
  have "data A' ! (i' * c + j) =
          (if i' \<in> set (i # is) then data A ! (i' * c + j) / d else data A ! (i' * c + j))"
    if "i' < r" "j < c" for i' j
  proof -
    have k: "i' * c + j < r * c"
      using row_inside [of i' r c] that by simp
    have A1k: "data A1 ! (i' * c + j) =
                 (if i' = i then data A ! (i' * c + j) / d else data A ! (i' * c + j))"
    proof -
      have "data A1 ! (i' * c + j) =
              (if \<exists>j'\<in>set [0..<c]. i' * c + j = i * c + j'
               then data A ! (i' * c + j) / d else data A ! (i' * c + j))"
        using A1(5) k by simp
      then show ?thesis
        using that in_row_iff [of j c _ i' i] by auto
    qed
    show ?thesis
    proof (cases "i' \<in> set is")
      case True
      with Cons.prems(5) have "i' \<noteq> i" by auto
      with True A'(5) that A1k show ?thesis by simp
    next
      case False
      with A'(5) that A1k show ?thesis by simp
    qed
  qed
  with A' A1 show ?case
    by (simp add: get_n_cols_def Cons.prems(1))
qed

lemma get_row_cols_reads:
  assumes "n_cols A = c" "i * c + c \<le> length (data A)" "length (data A) < 2 ^ 32"
    and "\<forall>j\<in>set js. j < c"
  shows "get_row_cols A i js = Some (map (\<lambda>j. data A ! (i * c + j)) js)"
  using assms
proof (induction js)
  case Nil
  then show ?case by simp
next
  case (Cons j js)
  from Cons.prems have k: "i * c + j < length (data A)" by auto
  with Cons.prems have "elem A i j = Some (data A ! (i * c + j))"
    by (simp add: elem_def elem_index_def)
  with Cons show ?case by simp
qed

lemma get_row_holds:
  assumes "holds_rows A L" "i < length L"
  shows "get_row A i = Some (L ! i)"
proof -
  let ?c = "n_cols A"
  from assms have len: "length (L ! i) = ?c"
    and vals: "\<forall>j<?c. data A ! (i * ?c + j) = L ! i ! j"
    and size: "length (data A) = length L * ?c" "length (data A) < 2 ^ 32"
    by (auto simp: holds_rows_def)
  have "get_row A i = Some (map (\<lambda>j. data A ! (i * ?c + j)) [0..<?c])"
    unfolding get_row_def
    by (rule get_row_cols_reads [OF refl]) (use size row_inside [of i "length L" ?c] assms in auto)
  also have "map (\<lambda>j. data A ! (i * ?c + j)) [0..<?c] = map (\<lambda>j. L ! i ! j) [0..<?c]"
    using vals by simp
  also have "\<dots> = L ! i"
    using len map_nth [of "L ! i"] by simp
  finally show ?thesis .
qed

lemma scale_holds:
  assumes "holds_rows A L"
  shows "\<exists>A'. scale_rows A d [0..<get_n_rows A] = Some A' \<and> n_cols A' = n_cols A
           \<and> holds_rows A' (map (map (\<lambda>x. x / d)) L)"
proof -
  let ?c = "n_cols A" and ?r = "length L"
  from assms have A: "n_rows A = ?r" "length (data A) = ?r * ?c" "?r * ?c < 2 ^ 32"
    "\<forall>i<?r. length (L ! i) = ?c \<and> (\<forall>j<?c. data A ! (i * ?c + j) = L ! i ! j)"
    by (auto simp: holds_rows_def)
  have "\<exists>A'. scale_rows A d [0..<?r] = Some A' \<and> n_rows A' = n_rows A \<and> n_cols A' = ?c
           \<and> length (data A') = ?r * ?c
           \<and> (\<forall>i<?r. \<forall>j<?c. data A' ! (i * ?c + j) =
                  (if i \<in> set [0..<?r] then data A ! (i * ?c + j) / d else data A ! (i * ?c + j)))"
    by (rule scale_rows_writes) (use A in auto)
  then obtain A' where A': "scale_rows A d [0..<?r] = Some A'" "n_rows A' = ?r" "n_cols A' = ?c"
    "length (data A') = ?r * ?c"
    "\<forall>i<?r. \<forall>j<?c. data A' ! (i * ?c + j) = data A ! (i * ?c + j) / d"
    using A by auto
  have "holds_rows A' (map (map (\<lambda>x. x / d)) L)"
    unfolding holds_rows_def using A A' by simp
  with A' A show ?thesis
    by (simp add: get_n_rows_def)
qed


definition lattice :: "int \<Rightarrow> int \<Rightarrow> real list list \<Rightarrow> bool" where
  "lattice dept N L \<longleftrightarrow>
     length L = (nat (dept + N - 1) choose nat N)
     \<and> (\<forall>v\<in>set L. length v = nat dept \<and> (\<forall>x\<in>set v. 0 \<le> x) \<and> sum_list v = real_of_int N)"

lemma foldl_tails:
  assumes "\<forall>i\<in>set is. g i = Inr (T i)"
  shows "foldl (\<lambda>result i.
                  case result of
                    Inl e \<Rightarrow> Inl e
                  | Inr res \<Rightarrow>
                      (case g i of
                         Inl e \<Rightarrow> Inl e
                       | Inr tail \<Rightarrow> Inr (res @ map (\<lambda>v1. real_of_int i # v1) tail)))
           (Inr acc) is
         = (Inr (acc @ concat (map (\<lambda>i. map (\<lambda>v1. real_of_int i # v1) (T i)) is))
              :: error + real list list)"
  using assms by (induction "is" arbitrary: acc) simp_all

lemma hockey_stick:
  "sum_list (map (\<lambda>i. (r + nat (int n - i)) choose nat (int n - i)) [0..int n])
     = Suc (r + n) choose n"
proof -
  have "sum_list (map (\<lambda>i. (r + nat (int n - i)) choose nat (int n - i)) [0..int n])
          = (\<Sum>i\<in>{0..int n}. (r + nat (int n - i)) choose nat (int n - i))"
    by (simp add: sum_list_distinct_conv_sum_set)
  also have "\<dots> = (\<Sum>k\<le>n. (r + k) choose k)"
    by (rule sum.reindex_bij_witness [where i = "\<lambda>k. int n - int k" and j = "\<lambda>i. nat (int n - i)"])
       auto
  also have "\<dots> = Suc (r + n) choose n"
    by (rule sum_choose_lower)
  finally show ?thesis .
qed

lemma lattice_generated:
  "1 \<le> dept \<Longrightarrow> 0 \<le> N \<Longrightarrow> \<exists>L. generate_integerReferenceVectors dept N = Inr L \<and> lattice dept N L"
proof (induction dept N rule: generate_integerReferenceVectors.induct)
  case (1 dept N)
  show ?case
  proof (cases "dept = 1")
    case True
    then show ?thesis
      using "1.prems" by (simp add: lattice_def generate_integerReferenceVectors.simps)
  next
    case False
    with "1.prems" have dept: "2 \<le> dept" by simp
    define T where "T i = projr (generate_integerReferenceVectors (dept - 1) (N - i))" for i
    have T: "generate_integerReferenceVectors (dept - 1) (N - i) = Inr (T i)
               \<and> lattice (dept - 1) (N - i) (T i)"
      if "i \<in> set [0..N]" for i
    proof -
      have "\<exists>L. generate_integerReferenceVectors (dept - 1) (N - i) = Inr L
              \<and> lattice (dept - 1) (N - i) L"
        by (rule "1.IH" [of i "Inr []" "[]"]) (use that dept in auto)
      then show ?thesis
        by (auto simp: T_def)
    qed
    let ?L = "concat (map (\<lambda>i. map (\<lambda>v1. real_of_int i # v1) (T i)) [0..N])"
    have run: "generate_integerReferenceVectors dept N = Inr ?L"
    proof -
      have "generate_integerReferenceVectors dept N = Inr ([] @ ?L)"
        using dept
        by (subst generate_integerReferenceVectors.simps, simp only: foldl_tails [of "[0..N]" _ T, OF ballI [OF conjunct1 [OF T]]])
           simp
      then show ?thesis by simp
    qed
    obtain r n where r: "dept = int r + 2" and n: "N = int n"
      using dept "1.prems" by (metis add.commute nonneg_int_cases zle_iff_zadd)
    have "length ?L = sum_list (map (\<lambda>i. length (T i)) [0..N])"
      by (simp add: length_concat comp_def)
    also have "\<dots> = sum_list (map (\<lambda>i. (r + nat (int n - i)) choose nat (int n - i)) [0..int n])"
    proof -
      have "length (T i) = ((r + nat (int n - i)) choose nat (int n - i))" if "i \<in> set [0..N]" for i
      proof -
        from T [OF that] have "length (T i) = (nat (dept - 1 + (N - i) - 1) choose nat (N - i))"
          by (simp add: lattice_def)
        moreover have "nat (dept - 1 + (N - i) - 1) = r + nat (int n - i)"
          using that r n by auto
        ultimately show ?thesis using n by simp
      qed
      then show ?thesis
        unfolding n by (intro arg_cong [where f = sum_list] map_cong) (simp_all add: n)
    qed
    also have "\<dots> = Suc (r + n) choose n"
      by (rule hockey_stick)
    also have "Suc (r + n) = nat (dept + N - 1)"
      using r n by simp
    finally have len: "length ?L = (nat (dept + N - 1) choose nat N)"
      using n by simp
    have rows: "length v = nat dept \<and> (\<forall>x\<in>set v. 0 \<le> x) \<and> sum_list v = real_of_int N"
      if "v \<in> set ?L" for v
    proof -
      from that obtain i v1 where i: "i \<in> set [0..N]" and v1: "v1 \<in> set (T i)"
        and v: "v = real_of_int i # v1"
        by auto
      from T [OF i] v1 have "length v1 = nat (dept - 1)" "\<forall>x\<in>set v1. 0 \<le> x"
        "sum_list v1 = real_of_int (N - i)"
        by (auto simp: lattice_def)
      with i v dept show ?thesis
        by auto
    qed
    from run len rows show ?thesis
      unfolding lattice_def by blast
  qed
qed


lemma sum_list_scaled: "sum_list (map (\<lambda>x. x / d) v) = sum_list v / (d::real)"
  by (induction v) (simp_all add: add_divide_distrib)

text \<open>
  Claim C9. For \<open>dept \<ge> 1\<close> and \<open>d \<ge> 1\<close> the reference-vector generator returns a matrix
  with exactly \<open>C(dept + d - 1, d)\<close> rows; every row has \<open>dept\<close> non-negative components
  that sum to 1, and every vector of the integer lattice sums to \<open>d\<close> before the division.
  For \<open>dept < 1\<close> it throws. The matrix stores \<open>rows * dept\<close> elements under an
  \<^verbatim>\<open>unsigned int\<close> index, so the statement is made for lattices of fewer than \<open>2 ^ 32\<close>
  elements.
\<close>

theorem reference_vectors_lattice:
  "(dept < 1 \<longrightarrow> generate_referenceVectors dept d = Inl (Runtime_error ''wrong vector dept!''))
   \<and> (1 \<le> dept \<and> 1 \<le> d \<and> (nat (dept + d - 1) choose nat d) * nat dept < 2 ^ 32 \<longrightarrow>
        (\<exists>L A. generate_integerReferenceVectors dept d = Inr L
           \<and> (\<forall>v\<in>set L. sum_list v = real_of_int d)
           \<and> generate_referenceVectors dept d = Inr A
           \<and> get_n_rows A = (nat (dept + d - 1) choose nat d)
           \<and> get_n_cols A = nat dept
           \<and> (\<forall>i<get_n_rows A. \<exists>row. get_row A i = Some row \<and> length row = nat dept
                 \<and> (\<forall>x\<in>set row. 0 \<le> x) \<and> sum_list row = 1)))"
proof (intro conjI impI)
  assume "dept < 1"
  then show "generate_referenceVectors dept d = Inl (Runtime_error ''wrong vector dept!'')"
    by (simp add: generate_referenceVectors_def generate_integerReferenceVectors.simps)
next
  assume "1 \<le> dept \<and> 1 \<le> d \<and> (nat (dept + d - 1) choose nat d) * nat dept < 2 ^ 32"
  then have dept: "1 \<le> dept" and d: "1 \<le> d"
    and small: "(nat (dept + d - 1) choose nat d) * nat dept < 2 ^ 32"
    by simp_all
  let ?n = "nat (dept + d - 1) choose nat d" and ?c = "nat dept"
  from dept d obtain L where L: "generate_integerReferenceVectors dept d = Inr L"
    and lat: "lattice dept d L"
    using lattice_generated [of dept d] by auto
  from lat have len: "length L = ?n"
    and rows: "\<forall>v\<in>set L. length v = ?c \<and> (\<forall>x\<in>set v. 0 \<le> x) \<and> sum_list v = real_of_int d"
    by (simp_all add: lattice_def)
  have "0 < ?n"
    using dept d by (intro zero_less_binomial) simp
  with len have nonempty: "L \<noteq> []"
    by auto
  have "\<exists>A. assign Matrix0 L = Inr A \<and> n_cols A = ?c \<and> holds_rows A L"
    by (rule assign_rectangular) (use nonempty dept rows len small in auto)
  then obtain A0 where A0: "assign Matrix0 L = Inr A0" "n_cols A0 = ?c" "holds_rows A0 L"
    by blast
  let ?L' = "map (map (\<lambda>x. x / real_of_int d)) L"
  from scale_holds [OF A0(3), of "real_of_int d"]
  obtain A where A: "scale_rows A0 (real_of_int d) [0..<get_n_rows A0] = Some A"
    "n_cols A = ?c" "holds_rows A ?L'"
    using A0(2) by auto
  have run: "generate_referenceVectors dept d = Inr A"
    by (simp add: generate_referenceVectors_def L A0 A)
  have nrows: "get_n_rows A = ?n"
    using A(3) len by (simp add: holds_rows_def get_n_rows_def)
  have "\<exists>row. get_row A i = Some row \<and> length row = ?c \<and> (\<forall>x\<in>set row. 0 \<le> x) \<and> sum_list row = 1"
    if "i < get_n_rows A" for i
  proof -
    from that nrows len have i: "i < length L" by simp
    then have "get_row A i = Some (map (\<lambda>x. x / real_of_int d) (L ! i))"
      using get_row_holds [OF A(3), of i] by simp
    moreover from i have "L ! i \<in> set L"
      by simp
    with rows have "length (L ! i) = ?c" "\<forall>x\<in>set (L ! i). 0 \<le> x"
      "sum_list (L ! i) = real_of_int d"
      by blast+
    ultimately show ?thesis
      using d by (auto simp: sum_list_scaled)
  qed
  with L rows run nrows A(2)
  show "\<exists>L A. generate_integerReferenceVectors dept d = Inr L
           \<and> (\<forall>v\<in>set L. sum_list v = real_of_int d)
           \<and> generate_referenceVectors dept d = Inr A
           \<and> get_n_rows A = ?n \<and> get_n_cols A = ?c
           \<and> (\<forall>i<get_n_rows A. \<exists>row. get_row A i = Some row \<and> length row = ?c
                 \<and> (\<forall>x\<in>set row. 0 \<le> x) \<and> sum_list row = 1)"
    by (auto simp: get_n_cols_def)
qed

theorem reference_vectors_lattice_witness:
  "generate_referenceVectors 0 4 = Inl (Runtime_error ''wrong vector dept!'')
   \<and> (\<exists>L A. generate_integerReferenceVectors 3 4 = Inr L
         \<and> (\<forall>v\<in>set L. sum_list v = 4)
         \<and> generate_referenceVectors 3 4 = Inr A
         \<and> get_n_rows A = 15 \<and> get_n_cols A = 3
         \<and> (\<forall>i<get_n_rows A. \<exists>row. get_row A i = Some row \<and> length row = 3
               \<and> (\<forall>x\<in>set row. 0 \<le> x) \<and> sum_list row = 1))"
proof -
  have c: "(6::nat) choose 4 = 15"
    by code_simp
  have h: "(1::int) \<le> 3 \<and> (1::int) \<le> 4 \<and> (nat (3 + 4 - 1) choose nat 4) * nat 3 < 2 ^ 32"
    using c by simp
  from reference_vectors_lattice [of 0 4] reference_vectors_lattice [of 3 4] h c
  show ?thesis
    by simp
qed

subsection \<open>Selection chances\<close>

text \<open>A chromosome of which only the cost matters.\<close>

definition cost_only :: "real \<Rightarrow> (unit, unit) ChromosomeType" where
  "cost_only c = \<lparr>genes = (), middle_costs = (), total_cost = c, objectives = []\<rparr>"

text \<open>
  Claim C1. The claim is that after \<open>generate_selection_chance\<close> the table is strictly
  increasing and ends at 1, also for the combined generation of parents and offspring that
  is larger than \<open>population\<close>. The code divides by the entry at \<open>population - 1\<close>, not by
  the last one, and it divides in place: once the loop has passed index \<open>population - 1\<close>
  that entry is 1 and the later entries are left as the raw sums. With \<open>population = 2\<close>
  and three chromosomes of ranks 0, 1, 2 the table ends at \<open>1 + 1 / sqrt 2 + 1 / sqrt 3\<close>,
  which is above 2.
\<close>

theorem selection_chance_combined_generation:
  "\<exists>g'. generate_selection_chance (Genetic0 8 (\<lambda>n. 0)\<lparr>population := 2\<rparr>)
            (GenerationType0\<lparr>chromosomes := [cost_only 1, cost_only 2, cost_only 3]\<rparr>) [0, 1, 2]
          = Some g'
      \<and> selection_chance_cumulative g'
          = [1 / (1 + 1 / sqrt 2), 1, 1 + 1 / sqrt 2 + 1 / sqrt 3]
      \<and> last (selection_chance_cumulative g') > 2"
proof -
  have pos: "1 + 1 / sqrt 2 \<noteq> 0"
    by (smt (verit) divide_pos_pos real_sqrt_gt_zero)
  have "1 / sqrt 2 + 1 / sqrt 3 > 1"
  proof -
    have "sqrt 2 < 2" "sqrt 3 < 2"
      by (simp_all add: real_less_lsqrt)
    then have "1 / sqrt 2 > 1 / 2" "1 / sqrt 3 > 1 / 2"
      by (simp_all add: field_simps)
    then show ?thesis by linarith
  qed
  then show ?thesis
    using pos
    by (simp add: generate_selection_chance_def upt_rec vec_at_def uint_def Let_def)
qed

text \<open>
  What the two loops of \<^verbatim>\<open>generate_selection_chance\<close> compute, for non-negative ranks and
  \<open>1 \<le> population \<le> N\<close>: with \<open>S i\<close> the sum of the chances \<open>1 / sqrt (rank[k] + 1)\<close> over
  \<open>k \<le> i\<close>, the entries before \<open>population - 1\<close> are \<open>S i / S (population - 1)\<close>, the entry at
  \<open>population - 1\<close> is 1, and the entries after it are the sums \<open>S i\<close> themselves. So the table
  is strictly increasing up to \<open>population - 1\<close>, where it is 1; for a generation of exactly
  \<open>population\<close> chromosomes this is the whole table.
\<close>

definition chance :: "int list \<Rightarrow> nat \<Rightarrow> real" where
  "chance rank k = 1 / sqrt (real_of_int (rank ! k + 1))"

definition raw_sum :: "int list \<Rightarrow> nat \<Rightarrow> real" where
  "raw_sum rank i = (\<Sum>k \<le> i. chance rank k)"

lemma cumulate_chances_from:
  assumes "N \<le> length rank" "i \<le> N"
  shows "cumulate_chances rank [i..<N] c tbl
           = Some (tbl @ map (\<lambda>m. c + (\<Sum>k = i..m. chance rank k)) [i..<N])"
  using assms
proof (induction "N - i" arbitrary: i c tbl)
  case 0
  then show ?case by simp
next
  case (Suc n)
  then have i: "i < N" and n: "n = N - Suc i" by simp_all
  have upt: "[i..<N] = i # [Suc i..<N]" using i by (simp add: upt_rec)
  have sums: "c + chance rank i + (\<Sum>k = Suc i..m. chance rank k) = c + (\<Sum>k = i..m. chance rank k)"
    if "Suc i \<le> m" for m
    using that by (simp add: sum.atLeast_Suc_atMost)
  have "cumulate_chances rank [Suc i..<N] (c + chance rank i) (tbl @ [c + chance rank i])
      = Some ((tbl @ [c + chance rank i]) @
              map (\<lambda>m. c + chance rank i + (\<Sum>k = Suc i..m. chance rank k)) [Suc i..<N])"
    using Suc.hyps(1) [OF n] Suc.prems i by simp
  also have "map (\<lambda>m. c + chance rank i + (\<Sum>k = Suc i..m. chance rank k)) [Suc i..<N]
      = map (\<lambda>m. c + (\<Sum>k = i..m. chance rank k)) [Suc i..<N]"
    by (rule map_cong) (simp_all add: sums)
  finally show ?case
    using i Suc.prems by (simp add: upt vec_at_def chance_def Let_def)
qed

lemma cumulate_chances_all:
  assumes "N \<le> length rank"
  shows "cumulate_chances rank [0..<N] 0 [] = Some (map (raw_sum rank) [0..<N])"
proof -
  have "(\<Sum>k = 0..m. chance rank k) = raw_sum rank m" for m
    by (simp add: raw_sum_def atMost_atLeast0)
  with cumulate_chances_from [OF assms, of 0 0 "[]"] show ?thesis by simp
qed


definition divided :: "real list \<Rightarrow> nat \<Rightarrow> nat \<Rightarrow> real" where
  "divided S d k = (if k < d then S ! k / S ! d else if k = d then 1 else S ! k)"

definition divided_up_to :: "real list \<Rightarrow> nat \<Rightarrow> nat \<Rightarrow> real list" where
  "divided_up_to S d i = map (\<lambda>k. if k < i then divided S d k else S ! k) [0..<length S]"

lemma normalize_chances_from:
  assumes d: "d < length S" "S ! d \<noteq> 0" and P: "uint (int P - 1) = d" and i: "i \<le> length S"
  shows "normalize_chances P [i..<length S] (divided_up_to S d i)
           = Some (divided_up_to S d (length S))"
  using i
proof (induction "length S - i" arbitrary: i)
  case 0
  then show ?case by simp
next
  case (Suc n)
  then have i: "i < length S" and n: "n = length S - Suc i" by simp_all
  have upt: "[i..<length S] = i # [Suc i..<length S]" using i by (simp add: upt_rec)
  have x: "vec_at (divided_up_to S d i) (int i) = Some (S ! i)"
    using i by (simp add: vec_at_def divided_up_to_def)
  have y: "vec_at (divided_up_to S d i) (int d) = Some (if d < i then 1 else S ! d)"
    using d by (simp add: vec_at_def divided_up_to_def divided_def)
  have step: "(divided_up_to S d i)[i := S ! i / (if d < i then 1 else S ! d)]
      = divided_up_to S d (Suc i)"
  proof (rule nth_equalityI)
    show "length ((divided_up_to S d i)[i := S ! i / (if d < i then 1 else S ! d)])
        = length (divided_up_to S d (Suc i))"
      by (simp add: divided_up_to_def)
  next
    fix k
    assume "k < length ((divided_up_to S d i)[i := S ! i / (if d < i then 1 else S ! d)])"
    then have k: "k < length S" by (simp add: divided_up_to_def)
    show "(divided_up_to S d i)[i := S ! i / (if d < i then 1 else S ! d)] ! k
        = divided_up_to S d (Suc i) ! k"
    proof (cases "k = i")
      case True
      with k d show ?thesis
        by (auto simp: divided_up_to_def divided_def)
    next
      case False
      with k show ?thesis
        by (auto simp: divided_up_to_def less_Suc_eq)
    qed
  qed
  from Suc.hyps(1) [OF n] i
  have "normalize_chances P [Suc i..<length S] (divided_up_to S d (Suc i))
      = Some (divided_up_to S d (length S))"
    by simp
  then show ?case
    by (simp add: upt x P y step del: upt_Suc)
qed

lemma normalize_chances_all:
  assumes "d < length S" "S ! d \<noteq> 0" "uint (int P - 1) = d"
  shows "normalize_chances P [0..<length S] S = Some (map (divided S d) [0..<length S])"
proof -
  have "divided_up_to S d 0 = S"
    by (simp add: divided_up_to_def map_nth)
  moreover have "divided_up_to S d (length S) = map (divided S d) [0..<length S]"
    by (simp add: divided_up_to_def)
  ultimately show ?thesis
    using normalize_chances_from [OF assms, of 0] by simp
qed


lemma chance_pos: "0 \<le> rank ! k \<Longrightarrow> 0 < chance rank k"
  by (simp add: chance_def)

lemma raw_sum_pos:
  assumes "\<forall>k \<le> i. 0 \<le> rank ! k"
  shows "0 < raw_sum rank i"
  unfolding raw_sum_def
  by (rule sum_pos) (use assms chance_pos in auto)

lemma raw_sum_less:
  assumes "i < j" "\<forall>k \<le> j. 0 \<le> rank ! k"
  shows "raw_sum rank i < raw_sum rank j"
  using assms
proof (induction j)
  case 0
  then show ?case by simp
next
  case (Suc j)
  have step: "raw_sum rank (Suc j) = raw_sum rank j + chance rank (Suc j)"
    by (simp add: raw_sum_def)
  have pos: "0 < chance rank (Suc j)" using Suc.prems(2) by (simp add: chance_pos)
  show ?case
  proof (cases "i = j")
    case True
    with step pos show ?thesis by simp
  next
    case False
    with Suc.prems have "i < j" "\<forall>k \<le> j. 0 \<le> rank ! k" by simp_all
    from Suc.IH [OF this] step pos show ?thesis by simp
  qed
qed

lemma generate_selection_chance_table:
  assumes P: "1 \<le> population e" "population e \<le> length (chromosomes gen)" "population e \<le> 2 ^ 32"
    and rank: "length (chromosomes gen) \<le> length rank"
      "\<forall>k < length (chromosomes gen). 0 \<le> rank ! k"
  shows "generate_selection_chance e gen rank
           = Some (gen\<lparr>selection_chance_cumulative :=
                     map (\<lambda>k. if k < population e - 1
                               then raw_sum rank k / raw_sum rank (population e - 1)
                               else if k = population e - 1 then 1 else raw_sum rank k)
                       [0..<length (chromosomes gen)]\<rparr>)"
proof -
  define N where "N = length (chromosomes gen)"
  define S where "S = map (raw_sum rank) [0..<N]"
  define d where "d = population e - 1"
  have d: "d < length S" using P by (simp add: d_def S_def N_def)
  have Sd: "S ! d = raw_sum rank d" using d by (simp add: S_def)
  have "0 < raw_sum rank d"
    by (rule raw_sum_pos) (use d rank(2) in \<open>auto simp: S_def N_def\<close>)
  with Sd have nz: "S ! d \<noteq> 0" by simp
  have u: "uint (int (population e) - 1) = d"
    using P by (simp add: uint_def d_def nat_diff_distrib' of_nat_diff)
  have len: "length S = N" by (simp add: S_def)
  have cum: "cumulate_chances rank [0..<N] 0 [] = Some S"
    using cumulate_chances_all [of N rank] rank(1) by (simp add: S_def N_def)
  have norm: "normalize_chances (population e) [0..<N] S = Some (map (divided S d) [0..<N])"
    using normalize_chances_all [OF d nz u] by (simp add: len)
  have "map (divided S d) [0..<N]
      = map (\<lambda>k. if k < d then raw_sum rank k / raw_sum rank d
                  else if k = d then 1 else raw_sum rank k) [0..<N]"
    using d by (intro map_cong refl) (auto simp: divided_def S_def)
  with cum norm show ?thesis
    by (simp add: generate_selection_chance_def Let_def N_def [symmetric] d_def)
qed


lemma selection_chance_first_entries:
  assumes P: "1 \<le> population e" "population e \<le> length (chromosomes gen)" "population e \<le> 2 ^ 32"
    and rank: "length (chromosomes gen) \<le> length rank"
      "\<forall>k < length (chromosomes gen). 0 \<le> rank ! k"
  shows "\<exists>g'. generate_selection_chance e gen rank = Some g'
           \<and> length (selection_chance_cumulative g') = length (chromosomes gen)
           \<and> (\<forall>i j. i < j \<and> j < population e \<longrightarrow>
                  selection_chance_cumulative g' ! i < selection_chance_cumulative g' ! j)
           \<and> 0 < selection_chance_cumulative g' ! 0
           \<and> selection_chance_cumulative g' ! (population e - 1) = 1
           \<and> (\<forall>k. population e \<le> k \<and> k < length (chromosomes gen) \<longrightarrow>
                  selection_chance_cumulative g' ! k = raw_sum rank k)"
proof -
  define N where "N = length (chromosomes gen)"
  define d where "d = population e - 1"
  define T where "T = map (\<lambda>k. if k < d then raw_sum rank k / raw_sum rank d
                               else if k = d then 1 else raw_sum rank k) [0..<N]"
  have d: "d < N" "population e = Suc d" using P by (simp_all add: d_def N_def)
  have pos: "0 < raw_sum rank k" if "k < N" for k
    by (rule raw_sum_pos) (use that rank(2) in \<open>auto simp: N_def\<close>)
  have less: "raw_sum rank i < raw_sum rank j" if "i < j" "j < N" for i j
    by (rule raw_sum_less) (use that rank(2) in \<open>auto simp: N_def\<close>)
  have table: "generate_selection_chance e gen rank = Some (gen\<lparr>selection_chance_cumulative := T\<rparr>)"
    using generate_selection_chance_table [OF assms] by (simp add: T_def d_def N_def)
  have nth: "T ! k = (if k < d then raw_sum rank k / raw_sum rank d
                      else if k = d then 1 else raw_sum rank k)" if "k < N" for k
    using that by (simp add: T_def)
  have increasing: "T ! i < T ! j" if "i < j" "j < population e" for i j
  proof -
    from that d have i: "i < d" "i < N" and j: "j \<le> d" "j < N" by simp_all
    show ?thesis
    proof (cases "j = d")
      case True
      have "raw_sum rank i / raw_sum rank d < 1"
        using less [of i d] pos [of d] i d by simp
      with True i j d show ?thesis by (simp add: nth)
    next
      case False
      with j have jd: "j < d" by simp
      have "raw_sum rank i / raw_sum rank d < raw_sum rank j / raw_sum rank d"
        using less [OF that(1) j(2)] pos [OF d(1)] by (simp add: divide_strict_right_mono)
      with i jd j show ?thesis by (simp add: nth)
    qed
  qed
  have first: "0 < T ! 0"
    using pos [of 0] pos [OF d(1)] d by (simp add: nth)
  have one: "T ! (population e - 1) = 1"
    using d by (simp add: nth)
  have tail: "T ! k = raw_sum rank k" if "population e \<le> k" "k < N" for k
    using that d by (simp add: nth)
  from table increasing first one tail show ?thesis
    by (simp add: T_def N_def [symmetric])
qed

lemma selection_chance_population_sized:
  assumes "length (chromosomes gen) = population e" "1 \<le> population e" "population e \<le> 2 ^ 32"
    and "population e \<le> length rank" "\<forall>k < population e. 0 \<le> rank ! k"
  shows "\<exists>g'. generate_selection_chance e gen rank = Some g'
           \<and> length (selection_chance_cumulative g') = population e
           \<and> (\<forall>i j. i < j \<and> j < population e \<longrightarrow>
                  selection_chance_cumulative g' ! i < selection_chance_cumulative g' ! j)
           \<and> last (selection_chance_cumulative g') = 1"
proof -
  from selection_chance_first_entries [of e gen rank] assms obtain g' where
    g': "generate_selection_chance e gen rank = Some g'"
      "length (selection_chance_cumulative g') = population e"
      "\<forall>i j. i < j \<and> j < population e \<longrightarrow>
          selection_chance_cumulative g' ! i < selection_chance_cumulative g' ! j"
      "selection_chance_cumulative g' ! (population e - 1) = 1"
    by auto
  from g'(2) assms(2) have "last (selection_chance_cumulative g')
      = selection_chance_cumulative g' ! (population e - 1)"
    by (subst last_conv_nth) auto
  with g' show ?thesis by simp
qed

subsection \<open>Parent selection\<close>

lemma select_parent_loop_least:
  "0 \<le> position \<Longrightarrow> N_max \<le> int (length table) \<Longrightarrow>
     \<exists>p. select_parent_loop table r N_max position = Some p \<and> position \<le> p
       \<and> (p \<le> N_max \<or> p = position)
       \<and> (\<forall>i. position \<le> i \<and> i < p \<longrightarrow> table ! nat i < r)
       \<and> (p < N_max \<longrightarrow> r \<le> table ! nat p)"
proof (induction table r N_max position rule: select_parent_loop.induct)
  case (1 table r N_max position)
  show ?case
  proof (cases "position < N_max")
    case False
    then show ?thesis
      by (subst select_parent_loop.simps) simp
  next
    case True
    with "1.prems" have rd: "vec_at table position = Some (table ! nat position)"
      by (simp add: vec_at_def)
    show ?thesis
    proof (cases "table ! nat position < r")
      case False
      with True rd show ?thesis
        by (subst select_parent_loop.simps) simp
    next
      case less: True
      have "\<exists>p. select_parent_loop table r N_max (position + 1) = Some p \<and> position + 1 \<le> p
         \<and> (p \<le> N_max \<or> p = position + 1)
         \<and> (\<forall>i. position + 1 \<le> i \<and> i < p \<longrightarrow> table ! nat i < r)
         \<and> (p < N_max \<longrightarrow> r \<le> table ! nat p)"
        by (rule "1.IH" [OF True rd less]) (use "1.prems" in auto)
      then obtain p where p: "select_parent_loop table r N_max (position + 1) = Some p"
        "position + 1 \<le> p" "p \<le> N_max \<or> p = position + 1"
        "\<forall>i. position + 1 \<le> i \<and> i < p \<longrightarrow> table ! nat i < r"
        "p < N_max \<longrightarrow> r \<le> table ! nat p"
        by blast
      have "table ! nat i < r" if "position \<le> i \<and> i < p" for i
        using that p(4) less by (cases "i = position") auto
      moreover have "select_parent_loop table r N_max position = Some p"
        using True rd less p(1) by (subst select_parent_loop.simps) simp
      ultimately show ?thesis
        using p True by auto
    qed
  qed
qed

text \<open>
  The loop by itself, on any table with an entry for every chromosome: it returns the smallest
  index whose entry is at least \<open>r\<close>, and the number of chromosomes when no entry is.
\<close>

lemma select_parent_any_table:
  assumes "length (chromosomes g) \<le> length (selection_chance_cumulative g)"
  shows "\<exists>p. select_parent g r = Some (int p) \<and> p \<le> length (chromosomes g)
           \<and> (\<forall>i<p. selection_chance_cumulative g ! i < r)
           \<and> (p < length (chromosomes g) \<longrightarrow> r \<le> selection_chance_cumulative g ! p)
           \<and> ((\<forall>i<length (chromosomes g). selection_chance_cumulative g ! i < r)
                 \<longrightarrow> p = length (chromosomes g))"
proof -
  let ?t = "selection_chance_cumulative g" and ?N = "length (chromosomes g)"
  from select_parent_loop_least [of 0 "int ?N" ?t r] assms
  obtain q where q: "select_parent_loop ?t r (int ?N) 0 = Some q" "0 \<le> q"
    "q \<le> int ?N \<or> q = 0" "\<forall>i. 0 \<le> i \<and> i < q \<longrightarrow> ?t ! nat i < r"
    "q < int ?N \<longrightarrow> r \<le> ?t ! nat q"
    by auto
  define p where "p = nat q"
  have q_eq: "q = int p" using q(2) by (simp add: p_def)
  have 1: "select_parent g r = Some (int p)"
    using q(1) by (simp add: select_parent_def q_eq)
  have 2: "p \<le> ?N" using q(3) q_eq by auto
  have 3: "\<forall>i<p. ?t ! i < r"
  proof (intro allI impI)
    fix i assume "i < p"
    then have "0 \<le> int i \<and> int i < q" by (simp add: q_eq)
    with q(4) have "?t ! nat (int i) < r" by blast
    then show "?t ! i < r" by simp
  qed
  have 4: "p < ?N \<longrightarrow> r \<le> ?t ! p"
    using q(5) by (simp add: q_eq)
  have 5: "(\<forall>i<?N. ?t ! i < r) \<longrightarrow> p = ?N"
    using 2 4 by (metis le_neq_implies_less not_less)
  from 1 2 3 4 5 show ?thesis by blast
qed

text \<open>
  On a table that \<^verbatim>\<open>generate_selection_chance\<close> computed (for non-negative ranks and
  \<open>1 \<le> population \<le> N\<close>) the loop of \<^verbatim>\<open>select_parent\<close> always stops at an entry: the entry at
  \<open>population - 1\<close> is 1, so for a draw \<open>r \<le> 1\<close> the index returned is below \<open>population\<close>.
\<close>

lemma select_parent_of_computed_table:
  assumes P: "1 \<le> population e" "population e \<le> length (chromosomes gen)" "population e \<le> 2 ^ 32"
    and rank: "length (chromosomes gen) \<le> length rank"
      "\<forall>k < length (chromosomes gen). 0 \<le> rank ! k"
    and computed: "generate_selection_chance e gen rank = Some g'"
    and r: "r \<le> 1"
  shows "\<exists>p. select_parent g' r = Some (int p) \<and> p < population e
           \<and> (\<forall>i<p. selection_chance_cumulative g' ! i < r)
           \<and> r \<le> selection_chance_cumulative g' ! p"
proof -
  let ?t = "selection_chance_cumulative g'" and ?N = "length (chromosomes gen)"
  from generate_selection_chance_table [OF P rank] computed
  have cs: "chromosomes g' = chromosomes gen" by auto
  from selection_chance_first_entries [OF P rank] computed
  have len: "length ?t = ?N" and one: "?t ! (population e - 1) = 1"
    by auto
  from select_parent_loop_least [of 0 "int ?N" ?t r] len
  obtain q where q: "select_parent_loop ?t r (int ?N) 0 = Some q" "0 \<le> q"
    "q \<le> int ?N \<or> q = 0" "\<forall>i. 0 \<le> i \<and> i < q \<longrightarrow> ?t ! nat i < r"
    "q < int ?N \<longrightarrow> r \<le> ?t ! nat q"
    by auto
  define p where "p = nat q"
  have q_eq: "q = int p" using q(2) by (simp add: p_def)
  have below: "?t ! i < r" if "i < p" for i
  proof -
    from that have "0 \<le> int i \<and> int i < q" by (simp add: q_eq)
    with q(4) have "?t ! nat (int i) < r" by blast
    then show ?thesis by simp
  qed
  have p: "p < population e"
  proof (rule ccontr)
    assume "\<not> p < population e"
    with P(1) have "population e - 1 < p" by simp
    from below [OF this] one r show False by simp
  qed
  with P(2) q(5) have "r \<le> ?t ! p" by (simp add: q_eq)
  moreover have "select_parent g' r = Some (int p)"
    using q(1) by (simp add: select_parent_def q_eq cs)
  ultimately show ?thesis using p below by blast
qed

lemma computed_table_population:
  assumes computed: "generate_selection_chance e gen rank = Some g"
    and ne: "chromosomes gen \<noteq> []"
    and P: "1 \<le> population e" "population e < 2 ^ 32"
    and rank: "length (chromosomes gen) \<le> length rank"
  shows "population e \<le> length (chromosomes gen)"
proof -
  define N where "N = length (chromosomes gen)"
  have N: "0 < N" using ne by (simp add: N_def)
  have cum: "cumulate_chances rank [0..<N] 0 [] = Some (map (raw_sum rank) [0..<N])"
    using cumulate_chances_all [of N rank] rank by (simp add: N_def)
  have upt: "[0..<N] = 0 # [1..<N]" using N by (simp add: upt_rec)
  have u: "uint (int (population e) - 1) = population e - 1"
    using P by (simp add: uint_def nat_diff_distrib' of_nat_diff)
  from computed cum have "normalize_chances (population e) [0..<N] (map (raw_sum rank) [0..<N]) \<noteq> None"
    by (auto simp: generate_selection_chance_def Let_def N_def [symmetric] split: option.splits)
  then have "vec_at (map (raw_sum rank) [0..<N]) (int (population e - 1)) \<noteq> None"
    by (subst (asm) upt) (auto simp: u split: option.splits)
  then have "population e - 1 < N"
    by (simp add: vec_at_def split: if_splits)
  with P show ?thesis by (simp add: N_def)
qed

text \<open>
  Claim C2. On a generation with chromosomes whose table \<^verbatim>\<open>generate_selection_chance\<close> has
  computed (for a population of at least 1 and the non-negative ranks that the ranking gives),
  and for a draw \<open>r\<close> in [0, 1), \<^verbatim>\<open>select_parent\<close> returns the smallest index whose entry is at
  least \<open>r\<close>. Such an entry always exists, because the entry at \<open>population - 1\<close> is 1; so
  the clause for the case that no entry reaches \<open>r\<close> holds too, for want of such a case.
\<close>

theorem select_parent_smallest_index:
  assumes computed: "generate_selection_chance e gen rank = Some g"
    and ne: "chromosomes gen \<noteq> []"
    and P: "1 \<le> population e" "population e < 2 ^ 32"
    and rank: "length (chromosomes gen) \<le> length rank"
      "\<forall>k < length (chromosomes gen). 0 \<le> rank ! k"
    and r: "0 \<le> r" "r < 1"
  shows "\<exists>p. select_parent g r = Some (int p) \<and> p < length (chromosomes g)
           \<and> r \<le> selection_chance_cumulative g ! p
           \<and> (\<forall>i < length (chromosomes g). r \<le> selection_chance_cumulative g ! i \<longrightarrow> p \<le> i)
           \<and> ((\<forall>i < length (chromosomes g). selection_chance_cumulative g ! i < r)
                 \<longrightarrow> p = length (chromosomes g) - 1)"
proof -
  have le: "population e \<le> length (chromosomes gen)"
    by (rule computed_table_population [OF computed ne P rank(1)])
  have P': "population e \<le> 2 ^ 32" using P(2) by simp
  from generate_selection_chance_table [OF P(1) le P' rank] computed
  have cs: "chromosomes g = chromosomes gen" by auto
  from select_parent_of_computed_table [OF P(1) le P' rank computed, of r] r
  obtain p where p: "select_parent g r = Some (int p)" "p < population e"
    "\<forall>i<p. selection_chance_cumulative g ! i < r" "r \<le> selection_chance_cumulative g ! p"
    by auto
  have least: "p \<le> i" if "r \<le> selection_chance_cumulative g ! i" for i
  proof (rule ccontr)
    assume "\<not> p \<le> i"
    then have "i < p" by simp
    with p(3) that show False by auto
  qed
  have "p < length (chromosomes g)" using p(2) le by (simp add: cs)
  moreover from this p(4) have "\<not> (\<forall>i < length (chromosomes g). selection_chance_cumulative g ! i < r)"
    by (auto simp: not_less)
  ultimately show ?thesis using p(1,4) least by blast
qed

text \<open>Two chromosomes of ranks 0 and 1 for a population of 2: the table is \<open>[1 / (1 + 1 / sqrt 2), 1]\<close>.\<close>

theorem select_parent_smallest_index_witness:
  "\<exists>g. generate_selection_chance (Genetic0 8 (\<lambda>n. 0)\<lparr>population := 2\<rparr>)
          (GenerationType0\<lparr>chromosomes := [cost_only 1, cost_only 2]\<rparr>) [0, 1] = Some g
       \<and> selection_chance_cumulative g = [1 / (1 + 1 / sqrt 2), 1]
       \<and> select_parent g (1 / 2) = Some 0
       \<and> select_parent g (9 / 10) = Some 1"
proof -
  let ?e = "Genetic0 8 (\<lambda>n. 0)\<lparr>population := 2\<rparr> :: (unit, unit) Genetic"
  let ?gen = "GenerationType0\<lparr>chromosomes := [cost_only 1, cost_only 2]\<rparr>"
  let ?g = "?gen\<lparr>selection_chance_cumulative := [1 / (1 + 1 / sqrt 2), 1]\<rparr>"
  have pos: "1 + 1 / sqrt 2 \<noteq> 0"
    by (smt (verit) divide_pos_pos real_sqrt_gt_zero)
  have computed: "generate_selection_chance ?e ?gen [0, 1] = Some ?g"
    using pos by (simp add: generate_selection_chance_def upt_rec vec_at_def uint_def Let_def)
  define x :: real where "x = 1 / sqrt 2"
  have "1 \<le> sqrt 2" "sqrt 2 \<le> 2"
    by (simp_all add: real_le_rsqrt real_le_lsqrt)
  then have x: "1 / 2 \<le> x" "x \<le> 1"
    by (simp_all add: x_def field_simps)
  then have "1 / 2 \<le> 1 / (1 + x)" "1 / (1 + x) < 9 / 10"
    by (simp_all add: field_simps)
  then have low: "1 / 2 \<le> 1 / (1 + 1 / sqrt 2)" "1 / (1 + 1 / sqrt 2) < 9 / 10"
    by (simp_all only: x_def)
  have hyps: "chromosomes ?gen \<noteq> []" "1 \<le> population ?e" "population ?e < 2 ^ 32"
    "length (chromosomes ?gen) \<le> length [0 :: int, 1]"
    "\<forall>k < length (chromosomes ?gen). 0 \<le> [0 :: int, 1] ! k"
    by (simp_all add: less_Suc_eq)
  from select_parent_smallest_index [OF computed hyps, of "1 / 2"]
  obtain p where p: "select_parent ?g (1 / 2) = Some (int p)"
    "\<forall>i < length (chromosomes ?g). 1 / 2 \<le> selection_chance_cumulative ?g ! i \<longrightarrow> p \<le> i"
    by auto
  from p(2) [rule_format, of 0] low(1) have "p = 0" by simp
  with p(1) have a: "select_parent ?g (1 / 2) = Some 0" by simp
  from select_parent_smallest_index [OF computed hyps, of "9 / 10"]
  obtain q where q: "select_parent ?g (9 / 10) = Some (int q)" "q < length (chromosomes ?g)"
    "9 / 10 \<le> selection_chance_cumulative ?g ! q"
    by auto
  have "q \<noteq> 0"
  proof
    assume "q = 0"
    with q(3) low(2) show False by simp
  qed
  with q(2) have "q = 1" by simp
  with q(1) have b: "select_parent ?g (9 / 10) = Some 1" by simp
  from computed a b show ?thesis by simp
qed

subsection \<open>The stop criteria\<close>

lemma last_two_reads:
  assumes "2 \<le> length gs"
  shows "vec_at gs (int (length gs) - 2) = Some (last (butlast gs))"
    and "vec_at gs (int (length gs) - 1) = Some (last gs)"
proof -
  from assms have ne: "gs \<noteq> []" "butlast gs \<noteq> []"
    by (auto simp: butlast_conv_take)
  have "nat (int (length gs) - 2) = length gs - 2" "nat (int (length gs) - 1) = length gs - 1"
    by simp_all
  moreover have "last (butlast gs) = gs ! (length gs - 2)"
    using ne assms by (simp add: last_conv_nth nth_butlast numeral_2_eq_2)
  moreover have "last gs = gs ! (length gs - 1)"
    using ne by (simp add: last_conv_nth)
  ultimately show "vec_at gs (int (length gs) - 2) = Some (last (butlast gs))"
    and "vec_at gs (int (length gs) - 1) = Some (last gs)"
    using assms ne by (simp_all add: vec_at_def)
qed

text \<open>
  Claim C4, amended. From generation step 2 on (and at any step once \<open>user_request_stop\<close>
  is set) the stop check of a single-objective run whose history holds at least two summaries
  first updates the stall counters from the last two summaries and then returns the first
  applicable reason in the order MaxGenerations, StallAverage, StallBest, UserRequest, else
  Undefined; with fewer than two summaries (a stop requested before the second generation was
  pushed) it reads the history out of range, which is undefined behaviour. In NSGA-III mode
  the counters are left as they are before the same ordered check. Below step 2 without a user
  request, which includes step 1, it returns Undefined and updates nothing.
\<close>

theorem stop_critera_from_step_two:
  "(generation_step e < 2 \<and> \<not> user_request_stop e \<longrightarrow> stop_critera e = Some (Undefined, e))
   \<and> ((2 \<le> generation_step e \<or> user_request_stop e) \<and> is_single_objective e
        \<and> 2 \<le> length (generations_so_abs e) \<longrightarrow>
          stop_critera e
            = Some (first_applicable_stop (update_stall_counters e), update_stall_counters e))
   \<and> ((2 \<le> generation_step e \<or> user_request_stop e) \<and> \<not> is_single_objective e \<longrightarrow>
          stop_critera e = Some (first_applicable_stop e, e))
   \<and> ((2 \<le> generation_step e \<or> user_request_stop e) \<and> is_single_objective e
        \<and> length (generations_so_abs e) < 2 \<longrightarrow> stop_critera e = None)"
proof (intro conjI impI)
  assume "generation_step e < 2 \<and> \<not> user_request_stop e"
  then show "stop_critera e = Some (Undefined, e)"
    by (simp add: stop_critera_def)
next
  assume a: "(2 \<le> generation_step e \<or> user_request_stop e) \<and> is_single_objective e
        \<and> 2 \<le> length (generations_so_abs e)"
  then have guard: "\<not> (generation_step e < 2 \<and> \<not> user_request_stop e)"
    by auto
  from a have so: "is_single_objective e" and len: "2 \<le> length (generations_so_abs e)"
    by simp_all
  show "stop_critera e
          = Some (first_applicable_stop (update_stall_counters e), update_stall_counters e)"
    unfolding stop_critera_def
    by (subst if_not_P [OF guard])
       (simp add: so last_two_reads [OF len] Let_def update_stall_counters_def
          first_applicable_stop_def)
next
  assume a: "(2 \<le> generation_step e \<or> user_request_stop e) \<and> \<not> is_single_objective e"
  then have guard: "\<not> (generation_step e < 2 \<and> \<not> user_request_stop e)"
    by auto
  show "stop_critera e = Some (first_applicable_stop e, e)"
    unfolding stop_critera_def
    by (subst if_not_P [OF guard]) (simp add: a first_applicable_stop_def)
next
  assume a: "(2 \<le> generation_step e \<or> user_request_stop e) \<and> is_single_objective e
        \<and> length (generations_so_abs e) < 2"
  then have guard: "\<not> (generation_step e < 2 \<and> \<not> user_request_stop e)"
    by auto
  from a have "vec_at (generations_so_abs e) (int (length (generations_so_abs e)) - 2) = None"
    by (simp add: vec_at_def)
  with a show "stop_critera e = None"
    unfolding stop_critera_def
    by (subst if_not_P [OF guard]) (simp add: Let_def)
qed

text \<open>Engines for the examples: a history of two equal summaries.\<close>

definition flat_history :: "GenerationTypeSOAbstract list" where
  "flat_history =
     [\<lparr>best_total_cost_abs = Some 1, average_cost_abs = 1\<rparr>,
      \<lparr>best_total_cost_abs = Some 1, average_cost_abs = 1\<rparr>]"

definition stalling_at_two :: "(unit, unit) Genetic" where
  "stalling_at_two =
     Genetic0 8 (\<lambda>n. 0)\<lparr>generation_step := 2, best_stall_count := 9, average_stall_count := 9,
                          generations_so_abs := flat_history\<rparr>"

definition capped_at_one :: "(unit, unit) Genetic" where
  "capped_at_one =
     Genetic0 8 (\<lambda>n. 0)\<lparr>generation_step := 1, generation_max := 1,
                          generations_so_abs := flat_history\<rparr>"

theorem stop_critera_from_step_two_witness:
  "stop_critera stalling_at_two
     = Some (StallAverage, stalling_at_two\<lparr>best_stall_count := 10, average_stall_count := 10\<rparr>)
   \<and> stop_critera (capped_at_one\<lparr>problem_mode := NSGA_III, generation_step := 2\<rparr>)
     = Some (MaxGenerations, capped_at_one\<lparr>problem_mode := NSGA_III, generation_step := 2\<rparr>)
   \<and> stop_critera capped_at_one = Some (Undefined, capped_at_one)
   \<and> stop_critera (capped_at_one\<lparr>user_request_stop := True, generations_so_abs := []\<rparr>) = None"
proof -
  have 1: "(2 \<le> generation_step stalling_at_two \<or> user_request_stop stalling_at_two)
      \<and> is_single_objective stalling_at_two \<and> 2 \<le> length (generations_so_abs stalling_at_two)"
    by (simp add: stalling_at_two_def Genetic0_def is_single_objective_def flat_history_def)
  have 2: "update_stall_counters stalling_at_two
             = stalling_at_two\<lparr>best_stall_count := 10, average_stall_count := 10\<rparr>"
    by (simp add: update_stall_counters_def stalling_at_two_def Genetic0_def flat_history_def
          stalled_def Let_def)
  have 3: "first_applicable_stop (stalling_at_two\<lparr>best_stall_count := 10, average_stall_count := 10\<rparr>)
             = StallAverage"
    by (simp add: first_applicable_stop_def stalling_at_two_def Genetic0_def)
  let ?mo = "capped_at_one\<lparr>problem_mode := NSGA_III, generation_step := 2\<rparr>"
  have 4: "(2 \<le> generation_step ?mo \<or> user_request_stop ?mo) \<and> \<not> is_single_objective ?mo"
    by (simp add: is_single_objective_def)
  have 5: "first_applicable_stop ?mo = MaxGenerations"
    by (simp add: first_applicable_stop_def capped_at_one_def)
  have 6: "generation_step capped_at_one < 2 \<and> \<not> user_request_stop capped_at_one"
    by (simp add: capped_at_one_def Genetic0_def)
  let ?early = "capped_at_one\<lparr>user_request_stop := True, generations_so_abs := []\<rparr>"
  have 7: "(2 \<le> generation_step ?early \<or> user_request_stop ?early) \<and> is_single_objective ?early
      \<and> length (generations_so_abs ?early) < 2"
    by (simp add: capped_at_one_def Genetic0_def is_single_objective_def)
  from stop_critera_from_step_two [of ?early] 7
  have 8: "stop_critera ?early = None"
    by blast
  from stop_critera_from_step_two [of stalling_at_two] stop_critera_from_step_two [of ?mo]
    stop_critera_from_step_two [of capped_at_one] 1 2 3 4 5 6 8
  show ?thesis
    by simp
qed

text \<open>
  The claim as stated covers every step beyond the zeroth. At step 1 with
  \<open>generation_max = 1\<close> and two equal summaries the check returns Undefined and leaves
  \<open>best_stall_count\<close> at 0, where the claim has the counter at 1 and the reason
  MaxGenerations.
\<close>

theorem stop_critera_step_one_counterexample:
  "generation_step capped_at_one = 1
   \<and> generation_max capped_at_one \<le> generation_step capped_at_one
   \<and> stop_critera capped_at_one = Some (Undefined, capped_at_one)
   \<and> best_stall_count capped_at_one = 0
   \<and> best_stall_count (update_stall_counters capped_at_one) = 1
   \<and> first_applicable_stop (update_stall_counters capped_at_one) = MaxGenerations"
  by (simp add: capped_at_one_def Genetic0_def stop_critera_def update_stall_counters_def
        first_applicable_stop_def flat_history_def stalled_def Let_def)

subsection \<open>Ranking by cost\<close>























text \<open>A sort that meets the contract, and a generation of four chromosomes, for the examples.\<close>

fun insert_by :: "(int \<Rightarrow> int \<Rightarrow> bool) \<Rightarrow> int \<Rightarrow> int list \<Rightarrow> int list" where
  "insert_by cmp v [] = [v]"
| "insert_by cmp v (y # ys) = (if cmp y v then y # insert_by cmp v ys else v # y # ys)"

definition insertion_sort :: "(int \<Rightarrow> int \<Rightarrow> bool) \<Rightarrow> int list \<Rightarrow> int list" where
  "insertion_sort cmp xs = foldr (insert_by cmp) xs []"







subsection \<open>Single-objective selection\<close>

text \<open>
  A combined generation of four chromosomes for a population of three with one elite, and
  a generator whose draws are all 0.
\<close>

definition combined_four :: "(unit, unit) GenerationType" where
  "combined_four =
     GenerationType0\<lparr>chromosomes := [cost_only 2, cost_only 1, cost_only 3, cost_only 4]\<rparr>"

definition third_step :: "(unit, unit) Genetic" where
  "third_step =
     Genetic0 8 (\<lambda>n. 0)\<lparr>population := 3, crossover_fraction := 3 / 10, elite_count := 1,
                          generation_step := 1\<rparr>"

lemma select_after_rank:
  assumes "0 \<le> t" "tail \<noteq> []"
  shows "select_population_SO third_step
           (combined_four\<lparr>sorted_indices := [1, 0, 2, 3],
                           selection_chance_cumulative := t # tail\<rparr>) GenerationType0
         = Some (GenerationType0\<lparr>chromosomes := [cost_only 1, cost_only 2, cost_only 2]\<rparr>,
                 third_step\<lparr>rng := \<lambda>n. 0\<rparr>)"
proof -
  have sp: "select_parent (combined_four\<lparr>sorted_indices := [1, 0, 2, 3],
                           selection_chance_cumulative := t # tail\<rparr>) 0 = Some 0"
    using assms by (simp add: select_parent_def select_parent_loop.simps vec_at_def combined_four_def)
  have rnd: "random01 (third_step\<lparr>rng := \<lambda>n. 0\<rparr>) = (0, third_step\<lparr>rng := \<lambda>n. 0\<rparr>)"
    "random01 third_step = (0, third_step\<lparr>rng := \<lambda>n. 0\<rparr>)"
    by (simp_all add: random01_def third_step_def Genetic0_def)
  have s1: "sample_allowed (combined_four\<lparr>sorted_indices := [1, 0, 2, 3],
                           selection_chance_cumulative := t # tail\<rparr>) [1] third_step
              = Some (0, third_step\<lparr>rng := \<lambda>n. 0\<rparr>)"
    by (subst sample_allowed.simps) (simp add: rnd sp)
  have s2: "sample_allowed (combined_four\<lparr>sorted_indices := [1, 0, 2, 3],
                           selection_chance_cumulative := t # tail\<rparr>) [1, 1] (third_step\<lparr>rng := \<lambda>n. 0\<rparr>)
              = Some (0, third_step\<lparr>rng := \<lambda>n. 0\<rparr>)"
    by (subst sample_allowed.simps) (simp add: rnd sp)
  have n: "nat (int (population third_step) - elite_count third_step) = Suc (Suc 0)"
    "[0..<nat (elite_count third_step)] = [0]" "\<not> generation_step third_step \<le> 0"
    by (simp_all add: third_step_def)
  let ?g = "combined_four\<lparr>sorted_indices := [1, 0, 2, 3],
                           selection_chance_cumulative := t # tail\<rparr>"
  have rd: "vec_at (chromosomes combined_four) 0 = Some (cost_only 2)"
    "vec_at (chromosomes combined_four) 1 = Some (cost_only 1)"
    "vec_at [1, 0, 2, 3] 0 = Some (1::int)"
    by (simp_all add: vec_at_def combined_four_def)
  have el: "transfer_elites ?g [0] (chromosomes (GenerationType0 :: (unit, unit) GenerationType), [])
              = Some ([cost_only 1], [1])"
    using rd by (simp add: GenerationType0_def)
  have rest: "sample_rest (Suc (Suc 0)) ?g [cost_only 1] [1] third_step
                = Some ([cost_only 1, cost_only 2, cost_only 2], third_step\<lparr>rng := \<lambda>n. 0\<rparr>)"
    by (simp add: s1 s2 rd)
  show ?thesis
    unfolding select_population_SO_def
    by (simp only: n if_False el rest Option.bind.simps prod.case)
qed

text \<open>
  Claim C3. The claim is that in single-objective selection every chromosome of the
  combined generation takes at most one slot of the selected generation. The elite loop
  and the test \<^verbatim>\<open>blocked[k] == j\<close> work with chromosome indices, but after a draw the code
  blocks \<^verbatim>\<open>g.sorted_indices[j]\<close> instead of \<open>j\<close>. With costs 2, 1, 3, 4 the ranking gives
  \<open>sorted_indices = [1, 0, 2, 3]\<close>; the elite is chromosome 1, the first draw selects
  chromosome 0 and blocks \<open>sorted_indices[0] = 1\<close> again, and the second draw selects
  chromosome 0 a second time.
\<close>

theorem select_population_SO_repeats:
  "\<exists>g g2 e'. rank_population_SO insertion_sort third_step combined_four = Some g
      \<and> sorted_indices g = [1, 0, 2, 3]
      \<and> select_population_SO third_step g GenerationType0 = Some (g2, e')
      \<and> chromosomes g2 = [cost_only 1, cost_only 2, cost_only 2]
      \<and> chromosomes combined_four ! 0 = cost_only 2"
proof -
  have pos: "1 / sqrt 2 + 1 + 1 / sqrt 3 > 0"
    by (intro add_pos_pos divide_pos_pos) simp_all
  have q: "quicksort_indices_SO combined_four [0, 1, 2, 3] 0 3 = Some [1, 0, 2, 3]"
    by (simp add: quicksort_indices_SO.simps partition_loop.simps advance_l.simps
          retreat_r.simps cost_at_def vec_at_def swap_at_def cost_only_def combined_four_def)
  have ix: "map int [0..<nat (int (length (chromosomes combined_four)))] = [0, 1, 2, 3]"
    "[0..<length (chromosomes combined_four)] = [0, 1, 2, 3]"
    "length (chromosomes combined_four) = 4"
    by (simp_all add: combined_four_def upt_rec)
  define t where "t = 1 / (sqrt 2 * (1 / sqrt 2 + 1 + 1 / sqrt 3))"
  define tail where "tail = [(1 / sqrt 2 + 1) / (1 / sqrt 2 + 1 + 1 / sqrt 3), 1,
              3 / 2 + (1 / sqrt 2 + 1 / sqrt 3)]"
  have g: "rank_population_SO insertion_sort third_step combined_four
          = Some (combined_four\<lparr>sorted_indices := [1, 0, 2, 3],
                                 selection_chance_cumulative := t # tail\<rparr>)"
    unfolding rank_population_SO_def Let_def ix t_def tail_def
    using pos
    by (simp add: third_step_def Genetic0_def q vec_at_def generate_selection_chance_def uint_def
          ix upt_rec Let_def)
  have t: "0 \<le> t" "tail \<noteq> []"
    using pos by (simp_all add: t_def tail_def)
  from g select_after_rank [OF t] show ?thesis
    by (simp add: combined_four_def)
qed

subsection \<open>The niching loop\<close>

text \<open>
  A loop state with three chromosomes of the last front associated with reference vector
  0, whose niche count is 0; their distances to it are 3, 1 and 2.
\<close>

definition three_neighbors :: niching where
  "three_neighbors = \<lparr>last_front = [1, 2, 3], to_add = [], niche_count = [0, 5]\<rparr>"

definition four_by_two :: "real Matrix" where
  "four_by_two = \<lparr>n_rows = 4, n_cols = 2, data = [0, 0, 3, 0, 1, 0, 2, 0]\<rparr>"

text \<open>
  The search loop of the branch for a count of 0 stores the chromosome index \<open>i\<close> in
  \<^verbatim>\<open>next_member_index\<close>, which is then used as a position in \<^verbatim>\<open>min_vec_neighbors\<close>. Run on
  this state, with the neighbours \<open>[1, 2, 3]\<close> at the distances 3, 1, 2, the body reads
  position 2 of the neighbours and adds chromosome 3; chromosome 2 is the closest.
\<close>

lemma niching_step_index_as_position:
  "niching_step (Genetic0 8 (\<lambda>n. 0) :: (unit, unit) Genetic) 4 [1, 0, 0, 0] four_by_two three_neighbors
     = Some (\<lparr>last_front = [1, 2], to_add = [3], niche_count = [1, 5]\<rparr>, Genetic0 8 (\<lambda>n. 0))
   \<and> index_of_min (niche_count three_neighbors) = 0
   \<and> neighbors_of [1, 0, 0, 0] 0 (last_front three_neighbors) = Some [1, 2, 3]
   \<and> elem four_by_two 1 0 = Some 3 \<and> elem four_by_two 2 0 = Some 1 \<and> elem four_by_two 3 0 = Some 2"
  by (simp add: niching_step_def three_neighbors_def four_by_two_def Genetic0_def index_of_min_def
        vec_at_def elem_def elem_index_def erase_at_def Let_def)

text \<open>
  The branch of the search loop is not reached by the loop as the engine runs it:
  \<^verbatim>\<open>associate_to_references\<close> counts every chromosome of the generation, the members of the last
  front included, so the count of a reference vector with a neighbour in the last front is never
  0. \<open>counted\<close> is the invariant: it holds at the start of the loop, every pass through the body
  keeps it, and under it the count at a minimum with a neighbour is positive.
\<close>

definition counted :: "nat list \<Rightarrow> niching \<Rightarrow> bool" where
  "counted associated_ref_vector s =
     (\<forall>i \<in> set (last_front s). \<forall>j. vec_at associated_ref_vector (int i) = Some j \<longrightarrow>
        j < length (niche_count s) \<and> 0 < niche_count s ! j)"

lemma count_niches_grows:
  assumes "count_niches a nc = Some nc'"
  shows "length nc' = length nc \<and> (\<forall>j < length nc. nc ! j \<le> nc' ! j) \<and>
         (\<forall>i < length a. a ! i < length nc \<and> 0 < nc' ! (a ! i))"
  using assms
proof (induction a arbitrary: nc)
  case Nil
  then show ?case by simp
next
  case (Cons d rest)
  from Cons.prems have d: "d < length nc"
    and rest: "count_niches rest (nc[d := Suc (nc ! d)]) = Some nc'"
    by (auto split: if_splits)
  from Cons.IH [OF rest] have
    len: "length nc' = length nc" and
    mono: "\<forall>j < length nc. (nc[d := Suc (nc ! d)]) ! j \<le> nc' ! j" and
    pos: "\<forall>i < length rest. rest ! i < length nc \<and> 0 < nc' ! (rest ! i)"
    by simp_all
  have mono': "nc ! j \<le> nc' ! j" if "j < length nc" for j
    using mono [rule_format, OF that] that by (cases "j = d") auto
  have "0 < nc' ! d"
    using mono [rule_format, OF d] d by simp
  with pos d have "\<forall>i < length (d # rest). (d # rest) ! i < length nc \<and> 0 < nc' ! ((d # rest) ! i)"
    by (auto simp: nth_Cons split: nat.splits)
  with len mono' show ?case by blast
qed

lemma counted_start:
  assumes "niching_start N_ref associated_ref_vector front = Some s"
  shows "counted associated_ref_vector s"
proof -
  from assms obtain counts where
    c: "count_niches associated_ref_vector (replicate N_ref 0) = Some counts" and
    s: "s = \<lparr>last_front = front, to_add = [], niche_count = counts\<rparr>"
    by (auto simp: niching_start_def)
  from count_niches_grows [OF c] show ?thesis
    by (auto simp: counted_def s vec_at_def split: if_splits)
qed

lemma neighbors_of_set:
  "neighbors_of a j front = Some C \<Longrightarrow>
     set C = {i \<in> set front. vec_at a (int i) = Some j} \<and>
     (\<forall>i \<in> set front. vec_at a (int i) \<noteq> None)"
proof (induction front arbitrary: C)
  case Nil
  then show ?case by simp
next
  case (Cons i front)
  then show ?case
    by (auto split: option.splits if_splits)
qed

lemma in_set_erase_at: "x \<in> set (erase_at xs k) \<Longrightarrow> x \<in> set xs"
  unfolding erase_at_def by (auto dest: in_set_takeD in_set_dropD)

lemma counted_zero_branch_unreached:
  assumes inv: "counted associated_ref_vector s"
    and nb: "neighbors_of associated_ref_vector (index_of_min (niche_count s)) (last_front s) = Some C"
    and ne: "C \<noteq> []"
  shows "\<exists>cnt. vec_at (niche_count s) (int (index_of_min (niche_count s))) = Some cnt \<and> 0 < cnt"
proof -
  from ne obtain i where "i \<in> set C" by (cases C) auto
  with neighbors_of_set [OF nb] have
    "i \<in> set (last_front s)" "vec_at associated_ref_vector (int i) = Some (index_of_min (niche_count s))"
    by auto
  with inv show ?thesis by (auto simp: counted_def vec_at_def)
qed

lemma counted_step:
  assumes inv: "counted associated_ref_vector s"
    and step: "niching_step e N_chromosomes associated_ref_vector distances s = Some (s', e')"
  shows "counted associated_ref_vector s'"
proof -
  define j where "j = index_of_min (niche_count s)"
  have front: "set (last_front s') \<subseteq> set (last_front s)"
    using step
    by (auto simp: niching_step_def Let_def random01_def dest: in_set_erase_at
          split: option.splits prod.splits if_splits)
  have counts: "niche_count s' = niche_count s \<or>
      (\<exists>v. niche_count s' = (niche_count s)[j := v] \<and>
           (0 < v \<or> (\<forall>i \<in> set (last_front s). vec_at associated_ref_vector (int i) \<noteq> Some j)))"
  proof (cases "enable_reference_vectors e")
    case False
    with step show ?thesis
      by (auto simp: niching_step_def Let_def random01_def split: option.splits prod.splits)
  next
    case True
    with step obtain C where nb: "neighbors_of associated_ref_vector j (last_front s) = Some C"
      by (auto simp: niching_step_def Let_def j_def split: option.splits)
    show ?thesis
    proof (cases "C = []")
      case True
      with step \<open>enable_reference_vectors e\<close> nb have
        "niche_count s' = (niche_count s)[j := uint (10 * int N_chromosomes)]"
        by (auto simp: niching_step_def Let_def j_def split: if_splits)
      moreover from neighbors_of_set [OF nb] True
      have "\<forall>i \<in> set (last_front s). vec_at associated_ref_vector (int i) \<noteq> Some j"
        by auto
      ultimately show ?thesis by blast
    next
      case False
      with step \<open>enable_reference_vectors e\<close> nb obtain cnt where
        "niche_count s' = (niche_count s)[j := Suc cnt]"
        by (auto simp: niching_step_def Let_def j_def split: option.splits prod.splits if_splits)
      then show ?thesis by blast
    qed
  qed
  show ?thesis
    unfolding counted_def
  proof (intro ballI allI impI)
    fix i k
    assume "i \<in> set (last_front s')" and a: "vec_at associated_ref_vector (int i) = Some k"
    with front have i: "i \<in> set (last_front s)" by auto
    with inv a have k: "k < length (niche_count s)" "0 < niche_count s ! k"
      by (auto simp: counted_def)
    from counts show "k < length (niche_count s') \<and> 0 < niche_count s' ! k"
    proof
      assume "niche_count s' = niche_count s"
      with k show ?thesis by simp
    next
      assume "\<exists>v. niche_count s' = (niche_count s)[j := v] \<and>
           (0 < v \<or> (\<forall>i \<in> set (last_front s). vec_at associated_ref_vector (int i) \<noteq> Some j))"
      then obtain v where v: "niche_count s' = (niche_count s)[j := v]"
        and c: "0 < v \<or> (\<forall>i \<in> set (last_front s). vec_at associated_ref_vector (int i) \<noteq> Some j)"
        by blast
      show ?thesis
      proof (cases "k = j")
        case True
        with c i a have "0 < v" by auto
        with v k True show ?thesis by simp
      next
        case False
        with v k show ?thesis by simp
      qed
    qed
  qed
qed

text \<open>
  The counts that \<^verbatim>\<open>associate_to_references\<close> returns are the counts of \<open>count_niches\<close>, so the
  niching loop of \<^verbatim>\<open>select_population_MO\<close> starts in the state \<open>niching_start\<close>.
\<close>

lemma associate_all_counts:
  assumes "associate_all refs norm_objectives N_ref ixs (a, dr, nc, ds) = Some (Inr (a', dr', nc', ds'))"
    and "distinct ixs"
  shows "count_niches (map ((!) a') ixs) nc = Some nc' \<and> length a' = length a
           \<and> (\<forall>k. k \<notin> set ixs \<longrightarrow> a' ! k = a ! k)"
  using assms
proof (induction ixs arbitrary: a dr nc ds)
  case Nil
  then show ?case by simp
next
  case (Cons i ixs)
  from Cons.prems(1) obtain dist_min idx ds1 where
    i: "i < length a" and idx: "idx < length nc" and
    rest: "associate_all refs norm_objectives N_ref ixs
             (a[i := idx], dr[i := dist_min], nc[idx := Suc (nc ! idx)], ds1)
           = Some (Inr (a', dr', nc', ds'))"
    by (auto split: option.splits sum.splits prod.splits if_splits)
  from Cons.prems(2) have d: "distinct ixs" "i \<notin> set ixs" by simp_all
  from Cons.IH [OF rest d(1)] have
    c: "count_niches (map ((!) a') ixs) (nc[idx := Suc (nc ! idx)]) = Some nc'" and
    len: "length a' = length a" and
    same: "\<forall>k. k \<notin> set ixs \<longrightarrow> a' ! k = a[i := idx] ! k"
    by simp_all
  from same d(2) i have "a' ! i = idx" by simp
  with c idx have "count_niches (map ((!) a') (i # ixs)) nc = Some nc'" by simp
  moreover from same have "\<forall>k. k \<notin> set (i # ixs) \<longrightarrow> a' ! k = a ! k" by simp
  ultimately show ?case using len by blast
qed

lemma associate_to_references_counts:
  assumes "associate_to_references e gen norm_objectives = Some (Inr (a, dr, nc, ds))"
    and "length (chromosomes gen) < 2 ^ 32"
  shows "niching_start (get_n_rows (reference_vectors e)) a front
           = Some \<lparr>last_front = front, to_add = [], niche_count = nc\<rparr>"
proof -
  let ?N = "length (chromosomes gen)"
  from assms have all: "associate_all (reference_vectors e) norm_objectives
       (get_n_rows (reference_vectors e)) [0..<?N]
       (replicate ?N 0, replicate ?N 0, replicate (get_n_rows (reference_vectors e)) 0,
        zeros Matrix0 ?N (get_n_rows (reference_vectors e))) = Some (Inr (a, dr, nc, ds))"
    by (simp add: associate_to_references_def Let_def)
  from associate_all_counts [OF all] have
    c: "count_niches (map ((!) a) [0..<?N]) (replicate (get_n_rows (reference_vectors e)) 0) = Some nc"
    and len: "length a = ?N"
    by simp_all
  from len have "map ((!) a) [0..<?N] = a" using map_nth [of a] by simp
  with c show ?thesis by (simp add: niching_start_def)
qed

text \<open>
  Two objectives, two divisions and a population of 3, which gives the three reference vectors
  \<open>(0, 1)\<close>, \<open>(1/2, 1/2)\<close> and \<open>(1, 0)\<close>. The engine is in the state that \<^verbatim>\<open>solve_init\<close> leaves
  and in its first step; the generation to select from has the four chromosomes with the
  objectives \<open>(0, 4)\<close>, \<open>(4, 0)\<close>, \<open>(6, 4)\<close> and \<open>(5, 5)\<close>. Every draw of the random generator is 0.
\<close>

definition directions :: "real Matrix" where
  "directions = \<lparr>n_rows = 3, n_cols = 2, data = [0, 1, 1 / 2, 1 / 2, 1, 0]\<rparr>"

definition objectives_only :: "real list \<Rightarrow> (unit, unit) ChromosomeType" where
  "objectives_only objs = \<lparr>genes = (), middle_costs = (), total_cost = 0, objectives = objs\<rparr>"

definition four_objectives :: "(unit, unit) GenerationType" where
  "four_objectives =
     GenerationType0\<lparr>chromosomes := [objectives_only [0, 4], objectives_only [4, 0],
                                       objectives_only [6, 4], objectives_only [5, 5]]\<rparr>"

definition niching_engine :: "(unit, unit) Genetic" where
  "niching_engine =
     Genetic0 8 (\<lambda>n. 0)\<lparr>problem_mode := NSGA_III, population := 3, N_robj := 2,
                          reference_vector_divisions := 2, ideal_objectives := [0, 0],
                          generation_step := 1\<rparr>"

lemma replicate_numerals:
  "replicate 2 x = [x, x]" "replicate 3 x = [x, x, x]" "replicate 4 x = [x, x, x, x]"
  "replicate 6 x = [x, x, x, x, x, x]" "replicate 8 x = [x, x, x, x, x, x, x, x]"
  "replicate 12 x = [x, x, x, x, x, x, x, x, x, x, x, x]"
  by (simp_all add: eval_nat_numeral)

lemma three_directions: "generate_referenceVectors 2 2 = Inr directions"
  by (simp add: generate_referenceVectors_def generate_integerReferenceVectors.simps upto.simps
        assign_def Matrix0_def resize_def vec_at_def set_elem_def elem_index_def elem_def
        get_n_rows_def get_n_cols_def upt_rec Let_def replicate_numerals directions_def)

lemma four_objectives_dominated:
  "dominate_all (chromosomes four_objectives) [0, 1, 2, 3] ([[], [], [], []], [0, 0, 0, 0], [])
     = Inr ([[2, 3], [2, 3], [], []], [0, 0, 2, 2], [0, 1])"
  by (simp add: four_objectives_def objectives_only_def dominates_def upt_rec)

lemma four_objectives_fronts:
  "build_fronts [[2, 3], [2, 3], [], []] [0, 0, 2, 2] [[0, 1]] = Some [[0, 1], [2, 3]]"
  apply (subst build_fronts.simps, simp)
  apply (subst build_fronts.simps, simp)
  done

lemma four_objectives_ranked:
  "\<exists>table. rank_population_MO niching_engine four_objectives
     = Some (Returns (four_objectives\<lparr>fronts := [[0, 1], [2, 3]],
                                        selection_chance_cumulative := table\<rparr>) niching_engine)"
proof -
  let ?g = "four_objectives\<lparr>fronts := [[0, 1], [2, 3]]\<rparr>"
  have cs: "length (chromosomes four_objectives) = 4" "length (chromosomes ?g) = 4"
    by (simp_all add: four_objectives_def)
  have ranks: "front_ranks [[0, 1], [2, 3]] 0 [0, 0, 0, 0] = [0, 0, 1, 1]"
    by simp
  have P: "1 \<le> population niching_engine" "population niching_engine \<le> length (chromosomes ?g)"
    "population niching_engine \<le> 2 ^ 32"
    by (simp_all add: niching_engine_def cs)
  have r: "length (chromosomes ?g) \<le> length [0 :: int, 0, 1, 1]"
    "\<forall>k < length (chromosomes ?g). 0 \<le> [0 :: int, 0, 1, 1] ! k"
    by (simp_all add: cs less_Suc_eq numeral_eq_Suc)
  from generate_selection_chance_table [OF P r] obtain table where
    chances: "generate_selection_chance niching_engine ?g [0, 0, 1, 1]
       = Some (?g\<lparr>selection_chance_cumulative := table\<rparr>)"
    by blast
  have upt_4: "[0..<4] = [0, 1, 2, 3]"
    by (simp add: upt_rec)
  have "rank_population_MO niching_engine four_objectives
     = Some (Returns (?g\<lparr>selection_chance_cumulative := table\<rparr>) niching_engine)"
    unfolding rank_population_MO_def Let_def cs upt_4 replicate_numerals
      four_objectives_dominated sum.case prod.case four_objectives_fronts option.case ranks
      chances
    by simp
  then show ?thesis by blast
qed

text \<open>The normalisation of the four objectives: the intercepts are 4 and 4.\<close>

definition four_points :: "real Matrix" where
  "four_points = \<lparr>n_rows = 4, n_cols = 2, data = [0, 1, 1, 0, 3 / 2, 1, 5 / 4, 5 / 4]\<rparr>"

definition normalized_engine :: "(unit, unit) Genetic" where
  "normalized_engine =
     niching_engine\<lparr>extreme_objectives := \<lparr>n_rows = 2, n_cols = 2, data = [4, 0, 0, 4]\<rparr>,
                     scalarized_objectives_min := [Some 4, Some 4]\<rparr>"

lemma four_objectives_ideal:
  assumes "chromosomes g = chromosomes four_objectives"
  shows "update_ideal_objectives niching_engine g False = Some (Returns () niching_engine)"
  using assms
  by (simp add: update_ideal_objectives_def niching_engine_def Genetic0_def
        is_single_objective_def four_objectives_def objectives_only_def reduced_def upt_rec
        vec_at_def)

lemma four_objectives_zb:
  assumes "chromosomes g = chromosomes four_objectives"
  shows "zb_rows niching_engine g (Matrix_sized 4 2) [0, 1, 2, 3]
           = Some \<lparr>n_rows = 4, n_cols = 2, data = [0, 4, 4, 0, 6, 4, 5, 5]\<rparr>"
  using assms
  by (simp add: niching_engine_def Genetic0_def four_objectives_def objectives_only_def
        reduced_def upt_rec vec_at_def Matrix_sized_def set_elem_def elem_index_def
        replicate_numerals)

lemma four_objectives_scalarized:
  "scalarize_objectives niching_engine \<lparr>n_rows = 4, n_cols = 2, data = [0, 4, 4, 0, 6, 4, 5, 5]\<rparr>
     = Some normalized_engine"
  by (simp add: scalarize_objectives_def normalized_engine_def niching_engine_def Genetic0_def
        get_n_cols_def get_n_rows_def zeros_def Matrix0_def to_int_def upt_rec vec_at_def
        elem_def elem_index_def set_elem_def index_of_min_def Let_def replicate_numerals)

lemma four_objectives_intercepts:
  "build_hyperplane_intercepts normalized_engine [] = Some (Inr [4, 4])"
  by (simp add: build_hyperplane_intercepts_def normalized_engine_def get_n_cols_def
        get_n_rows_def to_int_def uint_def Matrix_sized_def zeros_all_def upt_rec vec_at_def
        elem_def elem_index_def set_elem_def quotient_def resize_def Let_def replicate_numerals)

lemma four_objectives_normalized:
  assumes "chromosomes g = chromosomes four_objectives"
  shows "normalize_objectives niching_engine g = Some (Returns four_points normalized_engine)"
proof -
  have len: "length (chromosomes g) mod 2 ^ 32 = 4"
    by (simp add: assms four_objectives_def)
  have upt_4: "[0..<4] = [0, 1, 2, 3]"
    by (simp add: upt_rec)
  have N: "N_robj niching_engine = 2" "N_robj normalized_engine = 2"
    by (simp_all add: normalized_engine_def niching_engine_def)
  have rows: "norm_rows (Matrix_sized 4 2) \<lparr>n_rows = 4, n_cols = 2, data = [0, 4, 4, 0, 6, 4, 5, 5]\<rparr>
                [4, 4] 2 [0, 1, 2, 3] = Some four_points"
    by (simp add: Matrix_sized_def upt_rec vec_at_def elem_def elem_index_def set_elem_def
          quotient_def replicate_numerals four_points_def)
  have "length [4 :: real, 4] = 2"
    by simp
  then have "length [4 :: real, 4] mod 2 ^ 32 = 2 mod 2 ^ 32"
    by (rule arg_cong)
  also have "\<dots> = 2"
    by simp
  finally have sized: "Matrix_sized 4 (length [4 :: real, 4] mod 2 ^ 32) = Matrix_sized 4 2"
    by (rule arg_cong)
  show ?thesis
    unfolding normalize_objectives_def Let_def len upt_4 N four_objectives_zb [OF assms]
      option.case four_objectives_scalarized four_objectives_intercepts sum.case sized rows
    by simp
qed

lemma four_objectives_directions:
  assumes "chromosomes g = chromosomes four_objectives"
  shows "with_reference_vectors normalized_engine g
           = Some (Returns () (normalized_engine\<lparr>reference_vectors := directions\<rparr>))"
  using assms three_directions
  by (simp add: with_reference_vectors_def normalized_engine_def niching_engine_def Genetic0_def
        empty_Matrix_def Matrix0_def four_objectives_def objectives_only_def reduced_def
        to_int_def)

text \<open>
  The distances of a point of the plane from the lines along the three reference vectors, and
  the association of the four chromosomes.
\<close>

lemma line_distance_up: "line_distance [0, 1] [a, b] = Some (Inr \<bar>a\<bar>)"
  by (simp add: line_distance_def norm2_def upt_rec Let_def)

lemma line_distance_right: "line_distance [1, 0] [a, b] = Some (Inr \<bar>b\<bar>)"
  by (simp add: line_distance_def norm2_def upt_rec Let_def)

lemma line_distance_diagonal:
  "line_distance [1 / 2, 1 / 2] [a, b] = Some (Inr (sqrt ((a - b) * (a - b) / 2)))"
proof -
  define w :: real where "w = 1 / 2 / sqrt (1 / 2)"
  have half: "sqrt (1 / 2) * sqrt (1 / 2) = 1 / 2"
    by simp
  have pos: "sqrt (1 / 2) \<noteq> 0"
    by simp
  have "w * w = (1 / 2 * (1 / 2)) / (sqrt (1 / 2) * sqrt (1 / 2))"
    unfolding w_def by simp
  then have ww: "w * w = 1 / 2"
    unfolding half by simp
  have norm: "norm2 [1 / 2, 1 / 2] = sqrt (1 / 2)"
    by (simp add: norm2_def)
  have "(a - (w * a + w * b) * w) * (a - (w * a + w * b) * w)
          + (b - (w * a + w * b) * w) * (b - (w * a + w * b) * w)
        = (a - (a + b) * (w * w)) * (a - (a + b) * (w * w))
          + (b - (a + b) * (w * w)) * (b - (a + b) * (w * w))"
    by (simp add: algebra_simps)
  also have "\<dots> = (a - b) * (a - b) / 2"
    unfolding ww by (simp add: algebra_simps)
  finally have dist2:
    "(a - (w * a + w * b) * w) * (a - (w * a + w * b) * w)
       + (b - (w * a + w * b) * w) * (b - (w * a + w * b) * w) = (a - b) * (a - b) / 2" .
  have "line_distance [1 / 2, 1 / 2] [a, b]
      = Some (Inr (sqrt ((a - (w * a + w * b) * w) * (a - (w * a + w * b) * w)
                        + (b - (w * a + w * b) * w) * (b - (w * a + w * b) * w))))"
    unfolding line_distance_def norm Let_def w_def
    using pos by (simp add: upt_rec)
  then show ?thesis
    unfolding dist2 .
qed

definition four_distances :: "real Matrix" where
  "four_distances =
     \<lparr>n_rows = 4, n_cols = 3,
      data = [0, sqrt (1 / 2), 1, 1, sqrt (1 / 2), 0, 3 / 2, sqrt (1 / 8), 1, 5 / 4, 0, 5 / 4]\<rparr>"

definition directed_engine :: "(unit, unit) Genetic" where
  "directed_engine = normalized_engine\<lparr>reference_vectors := directions\<rparr>"

lemma four_points_associated:
  assumes "length (chromosomes gen) = 4"
  shows "associate_to_references directed_engine gen four_points
     = Some (Inr ([0, 2, 1, 1], [0, 0, sqrt (1 / 8), 0], [1, 2, 1], four_distances))"
proof -
  have less: "sqrt (1 / 8) < 3 / 2"
  proof -
    have "sqrt (1 / 8) < 1" by simp
    then show ?thesis by linarith
  qed
  show ?thesis
    using assms less
    by (simp add: associate_to_references_def directed_engine_def normalized_engine_def
          niching_engine_def Genetic0_def four_points_def directions_def get_n_rows_def
          zeros_def Matrix0_def upt_rec get_row_def elem_def elem_index_def set_elem_def
          Let_def replicate_numerals line_distance_up line_distance_right
          line_distance_diagonal four_distances_def)
qed

lemma four_objectives_selected:
  fixes table :: "real list"
  defines "g \<equiv> four_objectives\<lparr>fronts := [[0, 1], [2, 3]], selection_chance_cumulative := table\<rparr>"
  shows "\<exists>e'. select_by_niches directed_engine g four_points (GenerationType0\<lparr>chromosomes := []\<rparr>)
           = Some (Inr (GenerationType0\<lparr>chromosomes := [objectives_only [0, 4],
                          objectives_only [4, 0], objectives_only [6, 4]]\<rparr>, e'))"
proof -
  define associated :: "nat list" where "associated = [0, 2, 1, 1]"
  define s0 where "s0 = \<lparr>last_front = [2, 3], to_add = [], niche_count = [1, 2, 1]\<rparr>"
  define s1 where "s1 = \<lparr>last_front = [2, 3], to_add = [], niche_count = [40, 2, 1]\<rparr>"
  define s2 where "s2 = \<lparr>last_front = [2, 3], to_add = [], niche_count = [40, 2, 40]\<rparr>"
  define s3 where "s3 = \<lparr>last_front = [3], to_add = [2], niche_count = [40, 3, 40]\<rparr>"
  define e' where "e' = directed_engine\<lparr>rng := \<lambda>n. rng directed_engine (Suc n)\<rparr>"
  define c0 c1 c2 where "c0 = objectives_only [0, 4]" and "c1 = objectives_only [4, 0]"
    and "c2 = objectives_only [6, 4]"
  have cs: "chromosomes g = [c0, c1, c2, objectives_only [5, 5]]"
    "fronts g = [[0, 1], [2, 3]]"
    by (simp_all add: g_def four_objectives_def c0_def c1_def c2_def)
  have len: "length (chromosomes g) = 4" by (simp add: cs)
  have e: "population directed_engine = 3" "enable_reference_vectors directed_engine"
    "rng directed_engine 0 = 0" "population e' = 3"
    by (simp_all add: directed_engine_def normalized_engine_def niching_engine_def Genetic0_def
          e'_def)
  have taken: "take_fronts g 3 0 [] = Some ([c0, c1], 1)"
    by (simp add: take_fronts.simps cs vec_at_def)
  have step1: "niching_step directed_engine 4 associated four_distances s0
      = Some (s1, directed_engine)"
    by (simp add: niching_step_def e index_of_min_def vec_at_def uint_def Let_def
          s0_def s1_def associated_def)
  have step2: "niching_step directed_engine 4 associated four_distances s1
      = Some (s2, directed_engine)"
    by (simp add: niching_step_def e index_of_min_def vec_at_def uint_def Let_def
          s1_def s2_def associated_def)
  have step3: "niching_step directed_engine 4 associated four_distances s2 = Some (s3, e')"
    by (simp add: niching_step_def e index_of_min_def vec_at_def random01_def erase_at_def
          Let_def s2_def s3_def associated_def e'_def)
  have sizes: "length (to_add s0) = 0" "length (to_add s1) = 0" "length (to_add s2) = 0"
    "length (to_add s3) = 1"
    by (simp_all add: s0_def s1_def s2_def s3_def)
  have "niching_loop e' 4 associated four_distances 2 s3 = Some (s3, e')"
    by (subst niching_loop.simps) (simp add: e sizes)
  then have "niching_loop directed_engine 4 associated four_distances 2 s2 = Some (s3, e')"
    by (subst niching_loop.simps) (simp add: e sizes step3)
  then have "niching_loop directed_engine 4 associated four_distances 2 s1 = Some (s3, e')"
    by (subst niching_loop.simps) (simp add: e sizes step2)
  then have loop: "niching_loop directed_engine 4 associated four_distances 2 s0 = Some (s3, e')"
    by (subst niching_loop.simps) (simp add: e sizes step1)
  have added: "chromosomes_at g (to_add s3) = Some [c2]"
    by (simp add: s3_def cs vec_at_def)
  have assoc: "associate_to_references directed_engine g four_points
      = Some (Inr (associated, [0, 0, sqrt (1 / 8), 0], niche_count s0, four_distances))"
    unfolding four_points_associated [OF len]
    unfolding associated_def s0_def
    by simp
  have start: "\<lparr>last_front = fronts g ! Suc 0, to_add = [], niche_count = niche_count s0\<rparr> = s0"
    by (simp add: cs s0_def)
  have chosen: "length [c0, c1] = 2" "chromosomes (GenerationType0\<lparr>chromosomes := []\<rparr>) = []"
    by simp_all
  have "select_by_niches directed_engine g four_points (GenerationType0\<lparr>chromosomes := []\<rparr>)
           = Some (Inr (GenerationType0\<lparr>chromosomes := [c0, c1, c2]\<rparr>, e'))"
    unfolding select_by_niches_def assoc option.case sum.case prod.case e len chosen taken
    by (simp add: GenerationType0_def start loop added)
  then show ?thesis unfolding c0_def c1_def c2_def by blast
qed

lemma four_objectives_population:
  fixes table :: "real list"
  defines "g \<equiv> four_objectives\<lparr>fronts := [[0, 1], [2, 3]], selection_chance_cumulative := table\<rparr>"
  shows "\<exists>e'. select_population_MO niching_engine g GenerationType0
           = Some (Returns (GenerationType0\<lparr>chromosomes := [objectives_only [0, 4],
                              objectives_only [4, 0], objectives_only [6, 4]]\<rparr>) e')"
proof -
  have cs: "chromosomes g = chromosomes four_objectives"
    by (simp add: g_def)
  have e: "\<not> generation_step niching_engine \<le> 0" "N_robj niching_engine \<noteq> 0"
    "length (chromosomes g) \<noteq> population normalized_engine"
    by (simp_all add: niching_engine_def normalized_engine_def Genetic0_def cs
          four_objectives_def)
  from four_objectives_selected [of table] obtain e' where
    selected: "select_by_niches directed_engine g four_points (GenerationType0\<lparr>chromosomes := []\<rparr>)
           = Some (Inr (GenerationType0\<lparr>chromosomes := [objectives_only [0, 4],
                          objectives_only [4, 0], objectives_only [6, 4]]\<rparr>, e'))"
    unfolding g_def by blast
  have "select_population_MO niching_engine g GenerationType0
           = Some (Returns (GenerationType0\<lparr>chromosomes := [objectives_only [0, 4],
                              objectives_only [4, 0], objectives_only [6, 4]]\<rparr>) e')"
    unfolding select_population_MO_def four_objectives_ideal [OF cs] option.case outcome.case
      four_objectives_normalized [OF cs] four_objectives_directions [OF cs]
      directed_engine_def [symmetric] selected
    using e by simp
  then show ?thesis by blast
qed

text \<open>
  Claim C5. The claim is that with a niche count of 0 at the reference vector \<open>j*\<close> of minimum
  niche count and a non-empty set \<open>C\<close> of last-front chromosomes associated with \<open>j*\<close>, the
  member of \<open>C\<close> closest to \<open>j*\<close> is added. The niche count of the specification is the
  number of the chromosomes already selected that are associated with the vector. The code's
  \<^verbatim>\<open>niche_count\<close> is filled by \<^verbatim>\<open>associate_to_references\<close>, which counts every chromosome of the
  generation, those of the last front included: the count of a vector with a neighbour in the
  last front is never 0, the search for the closest member is never run, and a member of \<open>C\<close>
  is drawn at random. In the example chromosomes 0 and 1 are the first front and are selected,
  associated with the reference vectors 0 and 2; chromosomes 2 and 3 are the last front, both
  associated with reference vector 1, at the distances \<open>sqrt (1/8)\<close> and 0. No selected
  chromosome is associated with vector 1, which is the vector of minimum niche count, so
  chromosome 3 is the one to add. \<^verbatim>\<open>niche_count\<close> is \<open>[1, 2, 1]\<close>, and with the draw 0
  \<^verbatim>\<open>select_population_MO\<close> adds chromosome 2.
\<close>

theorem niching_adds_not_the_closest:
  "\<exists>ranked e'.
       rank_population_MO niching_engine four_objectives = Some (Returns ranked niching_engine)
     \<and> chromosomes ranked = chromosomes four_objectives
     \<and> fronts ranked = [[0, 1], [2, 3]]
     \<and> normalize_objectives niching_engine ranked = Some (Returns four_points normalized_engine)
     \<and> with_reference_vectors normalized_engine ranked = Some (Returns () directed_engine)
     \<and> associate_to_references directed_engine ranked four_points
          = Some (Inr ([0, 2, 1, 1], [0, 0, sqrt (1 / 8), 0], [1, 2, 1], four_distances))
     \<and> take_fronts ranked (population directed_engine) 0 []
          = Some ([objectives_only [0, 4], objectives_only [4, 0]], 1)
     \<and> map (selected_niche_count [0, 2, 1, 1] [0, 1]) [0, 1, 2] = [1, 0, 1]
     \<and> index_of_min [1 :: nat, 0, 1] = 1
     \<and> neighbors_of [0, 2, 1, 1] 1 [2, 3] = Some [2, 3]
     \<and> elem four_distances 2 1 = Some (sqrt (1 / 8)) \<and> elem four_distances 3 1 = Some 0
     \<and> 0 < sqrt (1 / 8)
     \<and> select_population_MO niching_engine ranked GenerationType0
          = Some (Returns (GenerationType0\<lparr>chromosomes := [objectives_only [0, 4],
                             objectives_only [4, 0], objectives_only [6, 4]]\<rparr>) e')"
proof -
  from four_objectives_ranked obtain table where
    ranked: "rank_population_MO niching_engine four_objectives
       = Some (Returns (four_objectives\<lparr>fronts := [[0, 1], [2, 3]],
                                          selection_chance_cumulative := table\<rparr>)
                 niching_engine)"
    by blast
  let ?g = "four_objectives\<lparr>fronts := [[0, 1], [2, 3]], selection_chance_cumulative := table\<rparr>"
  from four_objectives_population [of table] obtain e' where
    selected: "select_population_MO niching_engine ?g GenerationType0
       = Some (Returns (GenerationType0\<lparr>chromosomes := [objectives_only [0, 4],
                          objectives_only [4, 0], objectives_only [6, 4]]\<rparr>) e')"
    by blast
  have cs: "chromosomes ?g = chromosomes four_objectives"
    by simp
  have fs: "fronts ?g = [[0, 1], [2, 3]]"
    by simp
  have len: "length (chromosomes ?g) = 4"
    by (simp add: four_objectives_def)
  have normalized: "normalize_objectives niching_engine ?g
      = Some (Returns four_points normalized_engine)"
    by (rule four_objectives_normalized [OF cs])
  have directed: "with_reference_vectors normalized_engine ?g = Some (Returns () directed_engine)"
    unfolding directed_engine_def by (rule four_objectives_directions [OF cs])
  have assoc: "associate_to_references directed_engine ?g four_points
          = Some (Inr ([0, 2, 1, 1], [0, 0, sqrt (1 / 8), 0], [1, 2, 1], four_distances))"
    by (rule four_points_associated [OF len])
  have taken: "take_fronts ?g (population directed_engine) 0 []
          = Some ([objectives_only [0, 4], objectives_only [4, 0]], 1)"
    by (simp add: take_fronts.simps four_objectives_def vec_at_def directed_engine_def
          normalized_engine_def niching_engine_def)
  have spec: "map (selected_niche_count [0, 2, 1, 1] [0, 1]) [0, 1, 2] = [1, 0, 1]
     \<and> index_of_min [1 :: nat, 0, 1] = 1
     \<and> neighbors_of [0, 2, 1, 1] 1 [2, 3] = Some [2, 3]
     \<and> elem four_distances 2 1 = Some (sqrt (1 / 8)) \<and> elem four_distances 3 1 = Some 0
     \<and> 0 < sqrt (1 / 8)"
    by (simp add: selected_niche_count_def index_of_min_def vec_at_def elem_def elem_index_def
          four_distances_def)
  show ?thesis
    apply (rule exI [of _ ?g], rule exI [of _ e'])
    apply (intro conjI)
    apply (rule ranked cs fs normalized directed assoc taken selected
             spec [THEN conjunct1] spec [THEN conjunct2, THEN conjunct1]
             spec [THEN conjunct2, THEN conjunct2, THEN conjunct1]
             spec [THEN conjunct2, THEN conjunct2, THEN conjunct2, THEN conjunct1]
             spec [THEN conjunct2, THEN conjunct2, THEN conjunct2, THEN conjunct2, THEN conjunct1]
             spec [THEN conjunct2, THEN conjunct2, THEN conjunct2, THEN conjunct2, THEN conjunct2])+
    done
qed

subsection \<open>Configuration errors\<close>

text \<open>
  What \<^verbatim>\<open>solve_init\<close> leaves of the engine: the random generator is all that the
  initialisation writes, and every later step keeps the settings and, up to the push, the
  history.
\<close>


definition same_settings :: "('g, 'm) Genetic \<Rightarrow> ('g, 'm) Genetic \<Rightarrow> bool" where
  "same_settings e e' =
     (problem_mode e' = problem_mode e \<and> population e' = population e \<and>
      crossover_fraction e' = crossover_fraction e \<and> mutation_rate e' = mutation_rate e \<and>
      elite_count e' = elite_count e \<and> user_request_stop e' = user_request_stop e \<and>
      generations_so_abs e' = generations_so_abs e)"

lemma same_settings_refl [simp]: "same_settings e e"
  by (simp add: same_settings_def)

lemma init_until_accepted_rng:
  assumes "init_until_accepted e generation0 index = Some y"
  shows "\<exists>r. snd y = e\<lparr>rng := r\<rparr>"
proof (rule init_until_accepted.raw_induct
         [where P = "\<lambda>e generation0 index y. \<exists>r. snd y = e\<lparr>rng := r\<rparr>", OF _ assms], goal_cases)
  case (1 f e generation0 index y)
  have step: "\<exists>r. snd y = e\<lparr>rng := r\<rparr>" if "f (e\<lparr>rng := r0\<rparr>) b index = Some y" for r0 b
    using 1(1) [OF that] by simp
  have stop: "\<exists>r. snd (b, e\<lparr>rng := r0\<rparr>) = e\<lparr>rng := r\<rparr>" for r0 and b :: "('a, 'b) GenerationType"
    by auto
  from 1(2) show ?case
    by (auto split: option.splits prod.splits if_splits simp: bind_eq_Some_conv
          intro: step stop)
qed

lemma init_population_range_rng:
  "init_population_range e generation0 index_from index_to = Some y \<Longrightarrow> \<exists>r. snd y = e\<lparr>rng := r\<rparr>"
proof (induction e generation0 index_from index_to rule: init_population_range.induct)
  case (1 e generation0 index_from index_to)
  show ?case
  proof (cases "index_from \<le> index_to")
    case False
    with 1(2) have "y = (generation0, e)" by (simp add: init_population_range.simps)
    then have "snd y = e\<lparr>rng := rng e\<rparr>" by simp
    then show ?thesis by blast
  next
    case True
    with 1(2) obtain g1 e1 where
      a: "init_until_accepted e generation0 index_from = Some (g1, e1)" and
      b: "init_population_range e1 g1 (index_from + 1) index_to = Some y"
      by (auto simp: init_population_range.simps [of e generation0 index_from index_to]
            split: option.splits)
    from init_until_accepted_rng [OF a] obtain r1 where e1: "e1 = e\<lparr>rng := r1\<rparr>" by auto
    from 1(1) [OF True a refl b] obtain r where "snd y = e1\<lparr>rng := r\<rparr>" by auto
    with e1 have "snd y = e\<lparr>rng := r\<rparr>" by simp
    then show ?thesis by blast
  qed
qed

lemma sequential_init_rng:
  "sequential_init n e generation = Some y \<Longrightarrow> \<exists>r. snd y = e\<lparr>rng := r\<rparr>"
proof (induction n arbitrary: e generation)
  case 0
  then have "snd y = e\<lparr>rng := rng e\<rparr>" by auto
  then show ?case by blast
next
  case (Suc n)
  show ?case
  proof (cases "user_request_stop e")
    case True
    with Suc.prems have "snd y = e\<lparr>rng := rng e\<rparr>" by auto
    then show ?thesis by blast
  next
    case False
    with Suc.prems obtain g1 e1 where
      a: "init_population_range e generation (- 1) (- 1) = Some (g1, e1)" and
      b: "sequential_init n e1 g1 = Some y"
      by (auto split: option.splits)
    from init_population_range_rng [OF a] obtain r1 where e1: "e1 = e\<lparr>rng := r1\<rparr>" by auto
    from Suc.IH [OF b] obtain r where "snd y = e1\<lparr>rng := r\<rparr>" by auto
    with e1 have "snd y = e\<lparr>rng := r\<rparr>" by simp
    then show ?thesis by blast
  qed
qed

lemma init_population_rng:
  "init_population threaded_init e generation0 = Some y \<Longrightarrow> \<exists>r. snd y = e\<lparr>rng := r\<rparr>"
  unfolding init_population_def Let_def
  by (auto split: option.splits if_splits dest: sequential_init_rng)

lemma multi_objective_setup_settings:
  assumes "multi_objective_setup e generation0 = Some r"
  shows "case r of Returns u e' \<Rightarrow> same_settings e e' \<and> generation_step e' = generation_step e
         | Throws err e' \<Rightarrow> same_settings e e'"
  using assms unfolding multi_objective_setup_def Let_def
  by (auto split: if_splits list.splits option.splits simp: same_settings_def)

lemma rank_population_engine:
  assumes "rank_population std_sort e gen = Some r"
  shows "case r of Returns ranked e' \<Rightarrow> e' = e | Throws err e' \<Rightarrow> e' = e"
  using assms unfolding rank_population_def rank_population_MO_def Let_def
  by (auto split: if_splits sum.splits option.splits prod.splits)

lemma update_ideal_objectives_settings:
  assumes "update_ideal_objectives e g reset = Some r"
  shows "case r of Returns u e' \<Rightarrow> same_settings e e' \<and> generation_step e' = generation_step e
         | Throws err e' \<Rightarrow> same_settings e e'"
  using assms unfolding update_ideal_objectives_def
  by (auto split: if_splits list.splits option.splits simp: same_settings_def)

lemma push_and_report_history:
  assumes "push_and_report e generation = Some e'"
  shows "e' = (if user_request_stop e then e
               else e\<lparr>generations_so_abs := generations_so_abs e @ [ThisGenSOAbs generation]\<rparr>)"
  using assms unfolding push_and_report_def by (auto split: if_splits)


lemma bind_outcome_Some:
  assumes "bind_outcome x f = Some r"
  obtains (throws) err e' where "x = Some (Throws err e')" "r = Throws err e'"
  | (returns) a e' where "x = Some (Returns a e')" "f a e' = Some r"
  using assms unfolding bind_outcome_def by (auto split: option.splits outcome.splits)

definition solve_init_post ::
  "('g, 'm) Genetic \<Rightarrow> (unit, 'g, 'm) outcome \<Rightarrow> bool" where
  "solve_init_post e r =
     (case r of
        Throws err e' \<Rightarrow> generations_so_abs e' = generations_so_abs e
      | Returns u e1 \<Rightarrow>
          same_settings e (e1\<lparr>generations_so_abs := generations_so_abs e\<rparr>) \<and>
          generation_step e1 = 0 \<and>
          generations_so_abs e1 =
            generations_so_abs e @
              (if user_request_stop e then [] else [ThisGenSOAbs (last_generation e1)]))"

lemma solve_init_frame:
  assumes "solve_init std_sort threaded_init e = Some r"
  shows "solve_init_post e r"
proof (cases "check_settings e")
  case (Inl err)
  with assms have "r = Throws err e" by (simp add: solve_init_def)
  then show ?thesis by (simp add: solve_init_post_def)
next
  case (Inr checked)
  define e0 where "e0 = e\<lparr>average_stall_count := 0, best_stall_count := 0, generation_step := - 1\<rparr>"
  from assms Inr obtain populated e1 evaluated where
    init: "init_population threaded_init e0 GenerationType0 = Some (populated, e1)" and
    objs: "finalize_objectives (e1\<lparr>generation_step := 0\<rparr>) populated = Some evaluated" and
    rest: "bind_outcome (multi_objective_setup (e1\<lparr>generation_step := 0\<rparr>) evaluated)
             (\<lambda>u e2.
                bind_outcome (rank_population std_sort e2 evaluated)
                  (\<lambda>ranked e3.
                     Option.bind (finalize_generation e3 ranked)
                       (\<lambda>generation0.
                          bind_outcome
                            (if \<not> is_single_objective e3
                             then bind_outcome (update_ideal_objectives e3 generation0 True)
                                    (\<lambda>u e4. Some (Returns ()
                                       (e4\<lparr>extreme_objectives := clear (extreme_objectives e4),
                                           scalarized_objectives_min := []\<rparr>)))
                             else Some (Returns () e3))
                            (\<lambda>u e4.
                               map_option
                                 (\<lambda>e5. Returns () (e5\<lparr>last_generation := generation0\<rparr>))
                                 (push_and_report e4 generation0))))) = Some r"
    unfolding solve_init_def e0_def by (auto simp: bind_eq_Some_conv)
  from init_population_rng [OF init] obtain r1 where e1: "e1 = e0\<lparr>rng := r1\<rparr>" by auto
  define ea where "ea = e1\<lparr>generation_step := 0\<rparr>"
  have ea: "same_settings e ea" "generation_step ea = 0"
    by (simp_all add: ea_def e1 e0_def same_settings_def)
  from rest show ?thesis
  proof (cases rule: bind_outcome_Some)
    case (throws err e')
    with multi_objective_setup_settings [of ea evaluated] ea show ?thesis
      by (simp add: ea_def solve_init_post_def same_settings_def)
  next
    case (returns u e2)
    with multi_objective_setup_settings [of ea evaluated] ea
    have e2: "same_settings e e2" "generation_step e2 = 0"
      by (simp_all add: ea_def same_settings_def)
    from returns(2) show ?thesis
    proof (cases rule: bind_outcome_Some)
      case (throws err e')
      with rank_population_engine [of std_sort e2 evaluated] e2 show ?thesis
        by (simp add: solve_init_post_def same_settings_def)
    next
      case (returns ranked e3)
      with rank_population_engine [of std_sort e2 evaluated] have "e3 = e2" by simp
      with e2 have e3: "same_settings e e3" "generation_step e3 = 0" by simp_all
      from returns(2) obtain generation0 where
        fin: "finalize_generation e3 ranked = Some generation0" and
        rest2: "bind_outcome
                  (if \<not> is_single_objective e3
                   then bind_outcome (update_ideal_objectives e3 generation0 True)
                          (\<lambda>u e4. Some (Returns ()
                             (e4\<lparr>extreme_objectives := clear (extreme_objectives e4),
                                 scalarized_objectives_min := []\<rparr>)))
                   else Some (Returns () e3))
                  (\<lambda>u e4.
                     map_option
                       (\<lambda>e5. Returns () (e5\<lparr>last_generation := generation0\<rparr>))
                       (push_and_report e4 generation0)) = Some r"
        by (auto simp: bind_eq_Some_conv)
      have ideal: "same_settings e e4" if
        "(if \<not> is_single_objective e3
          then bind_outcome (update_ideal_objectives e3 generation0 True)
                 (\<lambda>u e4. Some (Returns ()
                    (e4\<lparr>extreme_objectives := clear (extreme_objectives e4),
                        scalarized_objectives_min := []\<rparr>)))
          else Some (Returns () e3)) = Some (Throws err e4)" for err e4
      proof (cases "is_single_objective e3")
        case True
        with that show ?thesis by simp
      next
        case False
        with that have "bind_outcome (update_ideal_objectives e3 generation0 True)
                 (\<lambda>u e4. Some (Returns ()
                    (e4\<lparr>extreme_objectives := clear (extreme_objectives e4),
                        scalarized_objectives_min := []\<rparr>))) = Some (Throws err e4)" by simp
        then show ?thesis
        proof (cases rule: bind_outcome_Some)
          case (throws err' e')
          with update_ideal_objectives_settings [of e3 generation0 True] e3 show ?thesis
            by (auto simp: same_settings_def)
        next
          case (returns a e')
          then show ?thesis by simp
        qed
      qed
      have ideal': "same_settings e e4 \<and> generation_step e4 = 0" if
        "(if \<not> is_single_objective e3
          then bind_outcome (update_ideal_objectives e3 generation0 True)
                 (\<lambda>u e4. Some (Returns ()
                    (e4\<lparr>extreme_objectives := clear (extreme_objectives e4),
                        scalarized_objectives_min := []\<rparr>)))
          else Some (Returns () e3)) = Some (Returns u e4)" for u e4
      proof (cases "is_single_objective e3")
        case True
        with that e3 show ?thesis by simp
      next
        case False
        with that have "bind_outcome (update_ideal_objectives e3 generation0 True)
                 (\<lambda>u e4. Some (Returns ()
                    (e4\<lparr>extreme_objectives := clear (extreme_objectives e4),
                        scalarized_objectives_min := []\<rparr>))) = Some (Returns u e4)" by simp
        then show ?thesis
        proof (cases rule: bind_outcome_Some)
          case (throws err' e')
          then show ?thesis by simp
        next
          case (returns a e')
          with update_ideal_objectives_settings [of e3 generation0 True] e3 show ?thesis
            by (auto simp: same_settings_def)
        qed
      qed
      from rest2 show ?thesis
      proof (cases rule: bind_outcome_Some)
        case (throws err e')
        with ideal [of err e'] show ?thesis
          by (simp add: solve_init_post_def same_settings_def)
      next
        case (returns u e4)
        from ideal' [OF returns(1)] have e4: "same_settings e e4" "generation_step e4 = 0"
          by simp_all
        from returns(2) obtain e5 where
          push: "push_and_report e4 generation0 = Some e5" and
          r: "r = Returns () (e5\<lparr>last_generation := generation0\<rparr>)"
          by auto
        from push_and_report_history [OF push] e4 r show ?thesis
          by (auto simp: solve_init_post_def same_settings_def)
      qed
    qed
  qed
qed


lemma crossover_and_mutation_throws:
  assumes "\<not> user_request_stop e" "0 < generation_step e" "variation_error e = Some err"
  shows "crossover_and_mutation threaded_variation e new_generation = Some (Throws err e)"
  using assms unfolding crossover_and_mutation_def variation_error_def Let_def
  by (auto split: if_splits)

lemma transfer_non_interactive:
  "\<not> is_interactive e \<Longrightarrow> \<exists>g. transfer e new_generation = Some g"
  by (simp add: transfer_def)

text \<open>
  A complete single-objective engine of population 1 over trivial genes, with the two rates as
  parameters; every solution is accepted and costs 0.
\<close>

definition unit_engine :: "real \<Rightarrow> real \<Rightarrow> (unit, unit) Genetic" where
  "unit_engine c m =
     Genetic0 8 (\<lambda>n. 0)
       \<lparr>population := 1, crossover_fraction := c, mutation_rate := m, multi_threading := False,
        calculate_SO_total_fitness := Some (\<lambda>X. 0),
        init_genes := Some (\<lambda>rnd01. ((), rnd01)),
        eval_solution := Some (\<lambda>genes. Some ()),
        mutate := Some (\<lambda>genes rnd01 shrink_scale. (genes, rnd01)),
        crossover := Some (\<lambda>X1 X2 rnd01. (X1, rnd01)),
        SO_report_generation := Some (\<lambda>generation_number last_generation best_genes. ())\<rparr>"

lemma unit_engine_checked: "check_settings (unit_engine c m) = Inr ()"
  by (simp add: check_settings_def throw_if_def unit_engine_def Genetic0_def is_interactive_def
        is_single_objective_def)

text \<open>
  \<^verbatim>\<open>solve_init\<close> returns on a checked sequential single-objective engine of population 1 whose
  first solution is accepted.
\<close>

lemma solve_init_one_chromosome:
  assumes checked: "check_settings e = Inr ()"
    and mode: "problem_mode e = SOGA"
    and running: "\<not> user_request_stop e"
    and one: "population e = 1"
    and sequential: "\<not> multi_threading e"
    and no_seeds: "user_initial_solutions e = []"
    and quick: "use_quick_sort e"
    and init: "init_genes e = Some (\<lambda>rnd01. (X_genes, rnd01))"
    and eval: "eval_solution e = Some eval" "eval X_genes = Some X_middle_costs"
    and fitness: "calculate_SO_total_fitness e = Some fitness"
    and report: "SO_report_generation e = Some report"
  shows "\<exists>e1. solve_init std_sort threaded_init e = Some (Returns () e1)"
proof -
  define e0 where "e0 = e\<lparr>average_stall_count := 0, best_stall_count := 0, generation_step := - 1\<rparr>"
  define X where "X = new_chromosome X_genes X_middle_costs"
  define populated where "populated = GenerationType0\<lparr>chromosomes := [X]\<rparr>"
  have so [simp]: "\<not> is_interactive e0" "is_single_objective e0"
    "\<not> is_interactive (e0\<lparr>rng := r\<rparr>)"
    for r
    by (simp_all add: e0_def is_interactive_def is_single_objective_def mode)
  have init0: "init_genes e0 = Some (\<lambda>rnd01. (X_genes, rnd01))"
    by (simp add: e0_def init)
  have tried: "init_population_try e0 (GenerationType0\<lparr>chromosomes := []\<rparr>) X_genes (- 1)
               = Some (True, populated)"
    unfolding init_population_try_def
    by (simp add: e0_def eval populated_def X_def GenerationType0_def is_interactive_def mode)
  have "init_until_accepted e0 (GenerationType0\<lparr>chromosomes := []\<rparr>) (- 1) = Some (populated, e0)"
    by (subst init_until_accepted.simps) (simp add: init0 tried)
  then have range: "init_population_range e0 (GenerationType0\<lparr>chromosomes := []\<rparr>) (- 1) (- 1)
      = Some (populated, e0)"
    by (simp add: init_population_range.simps)
  have settings0: "population e0 = 1" "\<not> multi_threading e0" "user_initial_solutions e0 = []"
    "\<not> user_request_stop e0"
    by (simp_all add: e0_def one sequential no_seeds running)
  have pop: "init_population threaded_init e0 GenerationType0 = Some (populated, e0)"
    unfolding init_population_def
    by (simp add: settings0 range)
  define ea where "ea = e0\<lparr>generation_step := 0\<rparr>"
  define Y where "Y = X\<lparr>total_cost := fitness X\<rparr>"
  define evaluated where "evaluated = populated\<lparr>chromosomes := [Y]\<rparr>"
  define ranked where
    "ranked = evaluated\<lparr>sorted_indices := [0], selection_chance_cumulative := [1]\<rparr>"
  define generation0 where
    "generation0 = ranked\<lparr>best_chromosome_index := 0, best_total_cost := Some (total_cost Y),
                           average_cost := total_cost Y\<rparr>"
  have settingsa: "problem_mode ea = SOGA" "\<not> user_request_stop ea" "population ea = 1"
    "use_quick_sort ea" "calculate_SO_total_fitness ea = Some fitness"
    "SO_report_generation ea = Some report" "is_single_objective ea"
    by (simp_all add: ea_def e0_def mode running one quick fitness report is_single_objective_def)
  have objs: "finalize_objectives ea populated = Some evaluated"
    by (simp add: finalize_objectives_def settingsa evaluated_def populated_def Y_def)
  have mo: "multi_objective_setup ea evaluated = Some (Returns () ea)"
    by (simp add: multi_objective_setup_def settingsa)
  have cs: "chromosomes evaluated = [Y]"
    by (simp add: evaluated_def)
  have rank: "rank_population std_sort ea evaluated = Some (Returns ranked ea)"
    by (simp add: rank_population_def rank_population_SO_def settingsa cs
          quicksort_indices_SO.simps vec_at_def generate_selection_chance_def uint_def ranked_def)
  have fin: "finalize_generation ea ranked = Some generation0"
    by (simp add: finalize_generation_def settingsa ranked_def cs generation0_def)
  have rep: "push_and_report ea generation0
      = Some (ea\<lparr>generations_so_abs := generations_so_abs ea @ [ThisGenSOAbs generation0]\<rparr>)"
    by (simp add: push_and_report_def report_generation_def settingsa generation0_def ranked_def
          cs vec_at_def is_single_objective_def)
  have ea_eq: "ea = e\<lparr>average_stall_count := 0, best_stall_count := 0, generation_step := 0\<rparr>"
    by (simp add: ea_def e0_def)
  have "solve_init std_sort threaded_init e
      = Some (Returns () (ea\<lparr>generations_so_abs := generations_so_abs ea @ [ThisGenSOAbs generation0],
                               last_generation := generation0\<rparr>))"
    unfolding solve_init_def
    by (simp add: checked pop [unfolded e0_def] objs [unfolded ea_eq]
          mo [unfolded ea_eq] rank [unfolded ea_eq] fin [unfolded ea_eq]
          rep [unfolded ea_eq] bind_outcome_def settingsa [unfolded ea_eq])
      (simp add: ea_eq)
  then show ?thesis by blast
qed


text \<open>\<^verbatim>\<open>check_settings\<close> does not read the two rates.\<close>

lemma check_settings_ignores_rates:
  "check_settings (e\<lparr>crossover_fraction := c, mutation_rate := m\<rparr>) = check_settings e"
  unfolding check_settings_def
  by (simp add: is_interactive_def is_single_objective_def cong: sum.case_cong)

lemma solve_init_pushes:
  assumes init: "solve_init std_sort threaded_init e = Some (Returns () e1)"
  shows "same_settings e (e1\<lparr>generations_so_abs := generations_so_abs e\<rparr>)"
    and "generation_step e1 = 0"
    and "generations_so_abs e1 =
           generations_so_abs e @
             (if user_request_stop e then [] else [ThisGenSOAbs (last_generation e1)])"
  using solve_init_frame [OF init] by (simp_all add: solve_init_post_def)

lemma first_variation_throws:
  assumes init: "solve_init std_sort threaded_init e = Some (Returns () e1)"
    and running: "\<not> user_request_stop e"
    and wrong: "variation_error e = Some err"
  shows "crossover_and_mutation threaded_variation (e1\<lparr>generation_step := 1\<rparr>) new_generation
           = Some (Throws err (e1\<lparr>generation_step := 1\<rparr>))"
    and "\<not> is_interactive e \<Longrightarrow>
           solve_next_generation_variation threaded_variation e1
             = Some (Throws err (e1\<lparr>generation_step := 1\<rparr>))"
    and "solve_next_generation_variation threaded_variation e1
           = (case transfer (e1\<lparr>generation_step := 1\<rparr>) GenerationType0 of
                None \<Rightarrow> None
              | Some transferred \<Rightarrow> Some (Throws err (e1\<lparr>generation_step := 1\<rparr>)))"
proof -
  note same = solve_init_pushes(1) [OF init] and step = solve_init_pushes(2) [OF init]
  have "variation_error (e1\<lparr>generation_step := 1\<rparr>) = variation_error e"
    using same by (simp add: same_settings_def variation_error_def is_interactive_def)
  with wrong have err: "variation_error (e1\<lparr>generation_step := 1\<rparr>) = Some err" by simp
  have run1: "\<not> user_request_stop (e1\<lparr>generation_step := 1\<rparr>)"
    using same running by (simp add: same_settings_def)
  show throws: "crossover_and_mutation threaded_variation (e1\<lparr>generation_step := 1\<rparr>) new_generation
           = Some (Throws err (e1\<lparr>generation_step := 1\<rparr>))" for new_generation
    by (rule crossover_and_mutation_throws [OF run1 _ err]) simp
  show whole: "solve_next_generation_variation threaded_variation e1
           = (case transfer (e1\<lparr>generation_step := 1\<rparr>) GenerationType0 of
                None \<Rightarrow> None
              | Some transferred \<Rightarrow> Some (Throws err (e1\<lparr>generation_step := 1\<rparr>)))"
    by (simp add: solve_next_generation_variation_def step throws split: option.splits)
  show "solve_next_generation_variation threaded_variation e1
             = Some (Throws err (e1\<lparr>generation_step := 1\<rparr>))" if "\<not> is_interactive e"
  proof -
    from that same have "\<not> is_interactive (e1\<lparr>generation_step := 1\<rparr>)"
      by (simp add: same_settings_def is_interactive_def)
    from transfer_non_interactive [OF this] obtain g where
      "transfer (e1\<lparr>generation_step := 1\<rparr>) GenerationType0 = Some g" by blast
    with whole show ?thesis by simp
  qed
qed

text \<open>
  Claim C6, amended. The errors of \<^verbatim>\<open>check_settings\<close> are raised by \<^verbatim>\<open>solve_init\<close> with the
  engine untouched, and whatever \<^verbatim>\<open>solve_init\<close> raises, it raises before anything is pushed to
  \<^verbatim>\<open>generations_so_abs\<close>. The three errors of the variation settings (\<^verbatim>\<open>crossover_fraction\<close>
  outside (0, 1], \<^verbatim>\<open>mutation_rate\<close> outside [0, 1], the IGA sum) are not among them: when
  \<^verbatim>\<open>solve_init\<close> returns and no stop was requested, the step counter is 0, the entry of
  generation 0 has been pushed, and it is \<^verbatim>\<open>crossover_and_mutation\<close> in the first
  \<^verbatim>\<open>solve_next_generation\<close> that raises them, whatever the transferred generation is. That
  call is reached whenever the \<^verbatim>\<open>transfer\<close> before it is defined: always in a non-interactive
  mode; in IGA mode \<^verbatim>\<open>transfer\<close> reads the first \<^verbatim>\<open>elite_count\<close> sorted indices of generation 0,
  and where it reads past them the first \<^verbatim>\<open>solve_next_generation\<close> is undefined behaviour
  before any check.
\<close>

theorem configuration_errors_timing:
  "(\<forall>err. check_settings e = Inl err \<longrightarrow>
       solve_init std_sort threaded_init e = Some (Throws err e)) \<and>
   (\<forall>err e'. solve_init std_sort threaded_init e = Some (Throws err e') \<longrightarrow>
       generations_so_abs e' = generations_so_abs e) \<and>
   (\<forall>e1. solve_init std_sort threaded_init e = Some (Returns () e1) \<and> \<not> user_request_stop e \<longrightarrow>
       generation_step e1 = 0 \<and>
       generations_so_abs e1 = generations_so_abs e @ [ThisGenSOAbs (last_generation e1)] \<and>
       (\<forall>err. variation_error e = Some err \<longrightarrow>
          (\<forall>threaded_variation new_generation.
             crossover_and_mutation threaded_variation (e1\<lparr>generation_step := 1\<rparr>) new_generation
               = Some (Throws err (e1\<lparr>generation_step := 1\<rparr>))) \<and>
          (\<not> is_interactive e \<longrightarrow>
             (\<forall>threaded_variation.
                solve_next_generation_variation threaded_variation e1
                  = Some (Throws err (e1\<lparr>generation_step := 1\<rparr>)))) \<and>
          (\<forall>threaded_variation transferred.
             transfer (e1\<lparr>generation_step := 1\<rparr>) GenerationType0 = Some transferred \<longrightarrow>
             solve_next_generation_variation threaded_variation e1
               = Some (Throws err (e1\<lparr>generation_step := 1\<rparr>))) \<and>
          (\<forall>threaded_variation.
             transfer (e1\<lparr>generation_step := 1\<rparr>) GenerationType0 = None \<longrightarrow>
             solve_next_generation_variation threaded_variation e1 = None)))"
proof (intro conjI allI impI)
  fix err
  assume "check_settings e = Inl err"
  then show "solve_init std_sort threaded_init e = Some (Throws err e)"
    by (simp add: solve_init_def)
next
  fix err e'
  assume "solve_init std_sort threaded_init e = Some (Throws err e')"
  from solve_init_frame [OF this] show "generations_so_abs e' = generations_so_abs e"
    by (simp add: solve_init_post_def)
next
  fix e1
  assume a: "solve_init std_sort threaded_init e = Some (Returns () e1) \<and> \<not> user_request_stop e"
  then have init: "solve_init std_sort threaded_init e = Some (Returns () e1)"
    and running: "\<not> user_request_stop e"
    by simp_all
  show "generation_step e1 = 0" by (rule solve_init_pushes(2) [OF init])
  from solve_init_pushes(3) [OF init] running
  show "generations_so_abs e1 = generations_so_abs e @ [ThisGenSOAbs (last_generation e1)]"
    by simp
  fix err
  assume wrong: "variation_error e = Some err"
  show "crossover_and_mutation threaded_variation (e1\<lparr>generation_step := 1\<rparr>) new_generation
            = Some (Throws err (e1\<lparr>generation_step := 1\<rparr>))" for threaded_variation new_generation
    by (rule first_variation_throws(1) [OF init running wrong])
  show "solve_next_generation_variation threaded_variation e1
               = Some (Throws err (e1\<lparr>generation_step := 1\<rparr>))"
    if "\<not> is_interactive e" for threaded_variation
    by (rule first_variation_throws(2) [OF init running wrong that])
  show "solve_next_generation_variation threaded_variation e1
               = Some (Throws err (e1\<lparr>generation_step := 1\<rparr>))"
    if "transfer (e1\<lparr>generation_step := 1\<rparr>) GenerationType0 = Some transferred"
    for threaded_variation transferred
    using first_variation_throws(3) [OF init running wrong, of threaded_variation] that by simp
  show "solve_next_generation_variation threaded_variation e1 = None"
    if "transfer (e1\<lparr>generation_step := 1\<rparr>) GenerationType0 = None"
    for threaded_variation
    using first_variation_throws(3) [OF init running wrong, of threaded_variation] that by simp
qed

lemma unit_engine_returns:
  "\<exists>e1. solve_init insertion_sort (\<lambda>e g n. None) (unit_engine c m) = Some (Returns () e1)"
  by (rule solve_init_one_chromosome [where X_genes = "()" and eval = "\<lambda>genes. Some ()"])
     (simp_all add: unit_engine_checked, simp_all add: unit_engine_def Genetic0_def)

lemma blank_engine_unchecked:
  "check_settings (Genetic0 8 (\<lambda>n. 0) :: (unit, unit) Genetic)
     = Inl (Runtime_error ''eval_solution is null!'')"
  by (simp add: check_settings_def throw_if_def Genetic0_def is_interactive_def)

lemma unit_engine_settings:
  "\<not> user_request_stop (unit_engine c m)" "generations_so_abs (unit_engine c m) = []"
  "\<not> is_interactive (unit_engine c m)"
  "variation_error (unit_engine 0 (1 / 10)) = Some (Runtime_error ''Wrong crossover fractoin'')"
  "variation_error (unit_engine (7 / 10) 2) = Some (Runtime_error ''Wrong mutation rate'')"
  by (simp_all add: unit_engine_def Genetic0_def variation_error_def is_interactive_def)



text \<open>
  \<^verbatim>\<open>solve_init\<close> returns on a checked interactive engine of population 1 whose first solution
  is accepted and whose fitness callback leaves the generation as it is.
\<close>

lemma solve_init_one_chromosome_IGA:
  assumes checked: "check_settings e = Inr ()"
    and mode: "problem_mode e = IGA"
    and running: "\<not> user_request_stop e"
    and one: "population e = 1"
    and no_seeds: "user_initial_solutions e = []"
    and quick: "use_quick_sort e"
    and init: "init_genes e = Some (\<lambda>rnd01. (X_genes, rnd01))"
    and eval: "eval_solution_IGA e = Some eval"
      "\<And>generation. eval X_genes generation = Some X_middle_costs"
    and fitness: "calculate_IGA_total_fitness e = Some (\<lambda>generation. generation)"
    and report: "SO_report_generation e = Some report"
  shows "\<exists>e1. solve_init std_sort threaded_init e = Some (Returns () e1)
           \<and> length (chromosomes (last_generation e1)) = 1
           \<and> sorted_indices (last_generation e1) = [0]"
proof -
  define e0 where "e0 = e\<lparr>average_stall_count := 0, best_stall_count := 0, generation_step := - 1\<rparr>"
  define X where "X = new_chromosome X_genes X_middle_costs"
  define populated where "populated = GenerationType0\<lparr>chromosomes := [X]\<rparr>"
  have init0: "init_genes e0 = Some (\<lambda>rnd01. (X_genes, rnd01))"
    by (simp add: e0_def init)
  have tried: "init_population_try e0 (GenerationType0\<lparr>chromosomes := []\<rparr>) X_genes (- 1)
               = Some (True, populated)"
    unfolding init_population_try_def
    by (simp add: e0_def eval populated_def X_def GenerationType0_def is_interactive_def mode)
  have "init_until_accepted e0 (GenerationType0\<lparr>chromosomes := []\<rparr>) (- 1) = Some (populated, e0)"
    by (subst init_until_accepted.simps) (simp add: init0 tried)
  then have range: "init_population_range e0 (GenerationType0\<lparr>chromosomes := []\<rparr>) (- 1) (- 1)
      = Some (populated, e0)"
    by (simp add: init_population_range.simps)
  have settings0: "population e0 = 1" "is_interactive e0" "user_initial_solutions e0 = []"
    "\<not> user_request_stop e0"
    by (simp_all add: e0_def one no_seeds running is_interactive_def mode)
  have pop: "init_population threaded_init e0 GenerationType0 = Some (populated, e0)"
    unfolding init_population_def
    by (simp add: settings0 range)
  define ea where "ea = e0\<lparr>generation_step := 0\<rparr>"
  define ranked where
    "ranked = populated\<lparr>sorted_indices := [0], selection_chance_cumulative := [1]\<rparr>"
  define generation0 where
    "generation0 = ranked\<lparr>best_chromosome_index := 0, best_total_cost := Some (total_cost X),
                           average_cost := total_cost X\<rparr>"
  have settingsa: "problem_mode ea = IGA" "\<not> user_request_stop ea" "population ea = 1"
    "use_quick_sort ea" "calculate_IGA_total_fitness ea = Some (\<lambda>generation. generation)"
    "SO_report_generation ea = Some report" "is_single_objective ea"
    by (simp_all add: ea_def e0_def mode running one quick fitness report is_single_objective_def)
  have objs: "finalize_objectives ea populated = Some populated"
    by (simp add: finalize_objectives_def settingsa)
  have mo: "multi_objective_setup ea populated = Some (Returns () ea)"
    by (simp add: multi_objective_setup_def settingsa)
  have cs: "chromosomes populated = [X]"
    by (simp add: populated_def)
  have rank: "rank_population std_sort ea populated = Some (Returns ranked ea)"
    by (simp add: rank_population_def rank_population_SO_def settingsa cs
          quicksort_indices_SO.simps vec_at_def generate_selection_chance_def uint_def ranked_def)
  have fin: "finalize_generation ea ranked = Some generation0"
    by (simp add: finalize_generation_def settingsa ranked_def cs generation0_def)
  have rep: "push_and_report ea generation0
      = Some (ea\<lparr>generations_so_abs := generations_so_abs ea @ [ThisGenSOAbs generation0]\<rparr>)"
    by (simp add: push_and_report_def report_generation_def settingsa generation0_def ranked_def
          cs vec_at_def is_single_objective_def)
  have ea_eq: "ea = e\<lparr>average_stall_count := 0, best_stall_count := 0, generation_step := 0\<rparr>"
    by (simp add: ea_def e0_def)
  have "solve_init std_sort threaded_init e
      = Some (Returns () (ea\<lparr>generations_so_abs := generations_so_abs ea @ [ThisGenSOAbs generation0],
                               last_generation := generation0\<rparr>))"
    unfolding solve_init_def
    by (simp add: checked pop [unfolded e0_def] objs [unfolded ea_eq]
          mo [unfolded ea_eq] rank [unfolded ea_eq] fin [unfolded ea_eq]
          rep [unfolded ea_eq] bind_outcome_def settingsa [unfolded ea_eq])
      (simp add: ea_eq)
  moreover have "length (chromosomes generation0) = 1" "sorted_indices generation0 = [0]"
    by (simp_all add: generation0_def ranked_def cs)
  ultimately show ?thesis by simp
qed

text \<open>
  A complete interactive engine of population 1 over trivial genes, with the elite count as
  parameter; \<^verbatim>\<open>crossover_fraction\<close> is 0.7, so that one child is added per generation.
\<close>

definition interactive_engine :: "int \<Rightarrow> (unit, unit) Genetic" where
  "interactive_engine E =
     Genetic0 8 (\<lambda>n. 0)
       \<lparr>problem_mode := IGA, population := 1, elite_count := E,
        calculate_IGA_total_fitness := Some (\<lambda>generation. generation),
        init_genes := Some (\<lambda>rnd01. ((), rnd01)),
        eval_solution_IGA := Some (\<lambda>genes generation. Some ()),
        mutate := Some (\<lambda>genes rnd01 shrink_scale. (genes, rnd01)),
        crossover := Some (\<lambda>X1 X2 rnd01. (X1, rnd01)),
        SO_report_generation := Some (\<lambda>generation_number last_generation best_genes. ())\<rparr>"

lemma interactive_engine_returns:
  "\<exists>e1. solve_init insertion_sort (\<lambda>e g n. None) (interactive_engine E) = Some (Returns () e1)
         \<and> length (chromosomes (last_generation e1)) = 1
         \<and> sorted_indices (last_generation e1) = [0]"
  by (rule solve_init_one_chromosome_IGA
        [where X_genes = "()" and eval = "\<lambda>genes generation. Some ()"])
     (simp_all add: interactive_engine_def Genetic0_def check_settings_def throw_if_def
        is_interactive_def is_single_objective_def)

lemma round_seven_tenths: "round (7 / 10 :: real) = 1"
  by (simp add: round_def)

lemma interactive_engine_settings:
  "\<not> user_request_stop (interactive_engine E)" "generations_so_abs (interactive_engine E) = []"
  "is_interactive (interactive_engine E)" "elite_count (interactive_engine E) = E"
  "variation_error (interactive_engine 1)
     = Some (Runtime_error
         ''In IGA mode, elite fraction + crossover fraction must be equal to 1.0 !'')"
  "variation_error (interactive_engine 5)
     = Some (Runtime_error
         ''In IGA mode, elite fraction + crossover fraction must be equal to 1.0 !'')"
  by (simp_all add: interactive_engine_def Genetic0_def variation_error_def is_interactive_def
        round_seven_tenths uint_def)


lemma interactive_engine_transfer:
  assumes init: "solve_init std_sort threaded_init (interactive_engine E) = Some (Returns () e1)"
    and one: "length (chromosomes (last_generation e1)) = 1"
    and sorted_one: "sorted_indices (last_generation e1) = [0]"
  shows "E = 1 \<Longrightarrow> \<exists>transferred. transfer (e1\<lparr>generation_step := 1\<rparr>) GenerationType0 = Some transferred"
    and "E = 5 \<Longrightarrow> transfer (e1\<lparr>generation_step := 1\<rparr>) GenerationType0 = None"
proof -
  from solve_init_pushes(1) [OF init] interactive_engine_settings(1,3,4) [of E]
  have e1: "\<not> user_request_stop e1" "is_interactive e1" "elite_count e1 = E"
    by (simp_all add: same_settings_def is_interactive_def)
  show "\<exists>transferred. transfer (e1\<lparr>generation_step := 1\<rparr>) GenerationType0 = Some transferred"
    if "E = 1"
    using that e1 one sorted_one
    by (simp add: transfer_def is_interactive_def vec_at_def GenerationType0_def)
  show "transfer (e1\<lparr>generation_step := 1\<rparr>) GenerationType0 = None" if "E = 5"
    using that e1 one sorted_one
    by (simp add: transfer_def is_interactive_def vec_at_def GenerationType0_def upt_rec)
qed

theorem configuration_errors_timing_witness:
  "solve_init insertion_sort (\<lambda>e g n. None) (Genetic0 8 (\<lambda>n. 0) :: (unit, unit) Genetic)
     = Some (Throws (Runtime_error ''eval_solution is null!'') (Genetic0 8 (\<lambda>n. 0)))
   \<and> (\<exists>e1. solve_init insertion_sort (\<lambda>e g n. None) (unit_engine (7 / 10) 2)
               = Some (Returns () e1)
          \<and> generations_so_abs e1 = [ThisGenSOAbs (last_generation e1)]
          \<and> crossover_and_mutation (\<lambda>e g n. None) (e1\<lparr>generation_step := 1\<rparr>) GenerationType0
               = Some (Throws (Runtime_error ''Wrong mutation rate'') (e1\<lparr>generation_step := 1\<rparr>)))
   \<and> (\<exists>e1. solve_init insertion_sort (\<lambda>e g n. None) (interactive_engine 1)
               = Some (Returns () e1)
          \<and> solve_next_generation_variation (\<lambda>e g n. None) e1
               = Some (Throws (Runtime_error
                    ''In IGA mode, elite fraction + crossover fraction must be equal to 1.0 !'')
                    (e1\<lparr>generation_step := 1\<rparr>)))
   \<and> (\<exists>e1. solve_init insertion_sort (\<lambda>e g n. None) (interactive_engine 5)
               = Some (Returns () e1)
          \<and> transfer (e1\<lparr>generation_step := 1\<rparr>) GenerationType0 = None
          \<and> solve_next_generation_variation (\<lambda>e g n. None) e1 = None)"
proof -
  let ?blank = "Genetic0 8 (\<lambda>n. 0) :: (unit, unit) Genetic"
  let ?e = "unit_engine (7 / 10) 2"
  let ?none = "\<lambda>(e :: (unit, unit) Genetic) (g :: (unit, unit) GenerationType) (n :: nat).
                 None :: ((unit, unit) GenerationType \<times> rnd) option"
  from unit_engine_returns obtain e1 where
    init: "solve_init insertion_sort (\<lambda>e g n. None) ?e = Some (Returns () e1)"
    by blast
  note blank = configuration_errors_timing [of ?blank insertion_sort "\<lambda>e g n. None",
      THEN conjunct1, rule_format, OF blank_engine_unchecked]
  note returned = configuration_errors_timing [of ?e insertion_sort "\<lambda>e g n. None",
      THEN conjunct2, THEN conjunct2, rule_format, OF conjI [OF init unit_engine_settings(1)]]
  from returned unit_engine_settings(5) have
    history: "generations_so_abs e1 = generations_so_abs ?e @ [ThisGenSOAbs (last_generation e1)]"
    and throws: "crossover_and_mutation (\<lambda>e g n. None) (e1\<lparr>generation_step := 1\<rparr>) GenerationType0
               = Some (Throws (Runtime_error ''Wrong mutation rate'') (e1\<lparr>generation_step := 1\<rparr>))"
    by blast+
  from history have "generations_so_abs e1 = [ThisGenSOAbs (last_generation e1)]"
    by (simp only: unit_engine_settings(2) append_Nil)
  with init throws have sequential:
    "\<exists>e1. solve_init insertion_sort (\<lambda>e g n. None) ?e = Some (Returns () e1)
          \<and> generations_so_abs e1 = [ThisGenSOAbs (last_generation e1)]
          \<and> crossover_and_mutation (\<lambda>e g n. None) (e1\<lparr>generation_step := 1\<rparr>) GenerationType0
               = Some (Throws (Runtime_error ''Wrong mutation rate'') (e1\<lparr>generation_step := 1\<rparr>))"
    by blast
  from interactive_engine_returns [of 1] obtain i1 where
    i1: "solve_init insertion_sort (\<lambda>e g n. None) (interactive_engine 1) = Some (Returns () i1)"
      "length (chromosomes (last_generation i1)) = 1" "sorted_indices (last_generation i1) = [0]"
    by blast
  from interactive_engine_transfer(1) [OF i1 refl] obtain transferred where
    t1: "transfer (i1\<lparr>generation_step := 1\<rparr>) GenerationType0 = Some transferred"
    by blast
  note one = configuration_errors_timing [of "interactive_engine 1" insertion_sort "\<lambda>e g n. None",
      THEN conjunct2, THEN conjunct2, rule_format,
      OF conjI [OF i1(1) interactive_engine_settings(1)]]
  from one interactive_engine_settings(5) t1
  have "solve_next_generation_variation (\<lambda>e g n. None) i1
               = Some (Throws (Runtime_error
                    ''In IGA mode, elite fraction + crossover fraction must be equal to 1.0 !'')
                    (i1\<lparr>generation_step := 1\<rparr>))"
    by blast
  with i1(1) have interactive:
    "\<exists>e1. solve_init insertion_sort (\<lambda>e g n. None) (interactive_engine 1) = Some (Returns () e1)
          \<and> solve_next_generation_variation (\<lambda>e g n. None) e1
               = Some (Throws (Runtime_error
                    ''In IGA mode, elite fraction + crossover fraction must be equal to 1.0 !'')
                    (e1\<lparr>generation_step := 1\<rparr>))"
    by blast
  from interactive_engine_returns [of 5] obtain i5 where
    i5: "solve_init insertion_sort (\<lambda>e g n. None) (interactive_engine 5) = Some (Returns () i5)"
      "length (chromosomes (last_generation i5)) = 1" "sorted_indices (last_generation i5) = [0]"
    by blast
  note t5 = interactive_engine_transfer(2) [OF i5 refl]
  note five = configuration_errors_timing [of "interactive_engine 5" insertion_sort "\<lambda>e g n. None",
      THEN conjunct2, THEN conjunct2, rule_format,
      OF conjI [OF i5(1) interactive_engine_settings(1)]]
  from five interactive_engine_settings(6) t5
  have "solve_next_generation_variation (\<lambda>e g n. None) i5 = None"
    by blast
  with i5(1) t5 have undefined_transfer:
    "\<exists>e1. solve_init insertion_sort (\<lambda>e g n. None) (interactive_engine 5) = Some (Returns () e1)
          \<and> transfer (e1\<lparr>generation_step := 1\<rparr>) GenerationType0 = None
          \<and> solve_next_generation_variation (\<lambda>e g n. None) e1 = None"
    by blast
  from blank sequential interactive undefined_transfer show ?thesis
    by (intro conjI)
qed

text \<open>
  Claim C6 as stated fails: with \<^verbatim>\<open>crossover_fraction = 0\<close> on an otherwise complete
  single-objective engine of population 1, \<^verbatim>\<open>solve_init\<close> returns with one entry pushed to the
  empty history, and the error is raised by the first \<^verbatim>\<open>solve_next_generation\<close>.
\<close>

theorem crossover_fraction_checked_after_generation_0:
  "generations_so_abs (unit_engine 0 (1 / 10)) = []
   \<and> variation_error (unit_engine 0 (1 / 10)) = Some (Runtime_error ''Wrong crossover fractoin'')
   \<and> (\<exists>e1. solve_init insertion_sort (\<lambda>e g n. None) (unit_engine 0 (1 / 10))
               = Some (Returns () e1)
          \<and> length (generations_so_abs e1) = 1
          \<and> solve_next_generation_variation (\<lambda>e g n. None) e1
               = Some (Throws (Runtime_error ''Wrong crossover fractoin'')
                         (e1\<lparr>generation_step := 1\<rparr>)))"
proof -
  let ?e = "unit_engine 0 (1 / 10)"
  from unit_engine_returns obtain e1 where
    init: "solve_init insertion_sort (\<lambda>e g n. None) ?e = Some (Returns () e1)"
    by blast
  note first = first_variation_throws [OF init unit_engine_settings(1) unit_engine_settings(4)]
  from solve_init_pushes(3) [OF init] have "length (generations_so_abs e1) = 1"
    by (simp add: unit_engine_settings(1,2))
  with unit_engine_settings(2) [of 0 "1 / 10"] unit_engine_settings(4) init
    first(2) [OF unit_engine_settings(3)]
  show ?thesis by blast
qed

subsection \<open>Generation 0 with initial solutions of the user\<close>


end
